(* ===== verification/Prelude.thy ===== *)
theory Prelude
  imports Main "HOL-Library.Multiset" "HOL-Library.List_Lexorder" "HOL-Library.Char_ord"
begin

text \<open>
  Shared vocabulary of the development: the types that name the model's data
  (file paths, file contents, (path, text) pairs), the Python string builtins
  \<open>str.split\<close> and \<open>str.join\<close> that the path normaliser and the prompt
  builder rely on, Python truthiness of optional strings, and the generic list
  lemmas the component theories share.  Python strings are modelled as their
  UTF-8 byte sequences (\<open>string = char list\<close>); UTF-8 is injective and
  preserves the code point order, so equality, prefixes and the lexicographic
  order that \<open>sorted()\<close> uses are those of the Python strings.
\<close>

named_theorems model_simps
  "definitions of the model unfolded when it is run on concrete inputs"

type_synonym path = string
type_synonym content = string
type_synonym entry = "path \<times> content"

text \<open>A number as a JSON document writes it: \<open>(m, e)\<close> stands for the
  decimal \<open>m * 10 ^ -e\<close> (\<open>0.4\<close> is \<open>(4, 1)\<close>).  The programs pass
  numbers on (embeddings, the temperature) and never compute with them.\<close>

type_synonym number = "int \<times> nat"

subsection \<open>Python's str.split and str.join\<close>

text \<open>\<open>s.split(c)\<close> for a one-character separator: never empty,
  \<open>''.split('/') = ['']\<close>, \<open>'a//b'.split('/') = ['a', '', 'b']\<close>.\<close>

fun split_sep :: "char \<Rightarrow> string \<Rightarrow> string list" where
  "split_sep c [] = [[]]"
| "split_sep c (x # xs) =
     (let ws = split_sep c xs in if x = c then [] # ws else (x # hd ws) # tl ws)"

text \<open>\<open>sep.join(parts)\<close>.\<close>

fun join_sep :: "string \<Rightarrow> string list \<Rightarrow> string" where
  "join_sep sep [] = []"
| "join_sep sep [x] = x"
| "join_sep sep (x # y # zs) = x @ sep @ join_sep sep (y # zs)"

text \<open>Truthiness of an optional string as \<open>if x:\<close> reads it: \<open>None\<close> and
  \<open>''\<close> are false.\<close>

definition py_truthy :: "string option \<Rightarrow> bool" where
  "py_truthy x = (case x of None \<Rightarrow> False | Some s \<Rightarrow> s \<noteq> [])"

declare py_truthy_def [model_simps] Let_def [model_simps]

subsection \<open>Lemmas on split and join\<close>

lemma split_sep_nonempty [simp]: "split_sep c s \<noteq> []"
  by (induction s) (auto simp: Let_def)

lemma split_sep_no_sep: "w \<in> set (split_sep c s) \<Longrightarrow> c \<notin> set w"
proof (induction s arbitrary: w)
  case Nil
  then show ?case by simp
next
  case (Cons x xs)
  obtain v vs where v: "split_sep c xs = v # vs"
    using split_sep_nonempty by (metis list.exhaust)
  from Cons.prems Cons.IH show ?case
    by (auto simp: Let_def v split: if_splits)
qed

lemma split_sep_free [simp]: "c \<notin> set s \<Longrightarrow> split_sep c s = [s]"
  by (induction s) (auto simp: Let_def)

lemma split_sep_append_sep:
  "c \<notin> set x \<Longrightarrow> split_sep c (x @ c # s) = x # split_sep c s"
proof (induction x)
  case Nil
  then show ?case by simp
next
  case (Cons a x)
  from Cons.prems have "c \<notin> set x" and "a \<noteq> c" by auto
  with Cons.IH show ?case by (simp add: Let_def)
qed

lemma split_join_sep:
  "ps \<noteq> [] \<Longrightarrow> \<forall>p \<in> set ps. c \<notin> set p \<Longrightarrow> split_sep c (join_sep [c] ps) = ps"
proof (induction "[c]" ps rule: join_sep.induct)
  case (2 x)
  then show ?case by simp
next
  case (3 x y zs)
  then show ?case by (simp add: split_sep_append_sep)
qed simp

lemma join_sep_set: "set (join_sep sep ps) \<subseteq> \<Union> (set ` set ps) \<union> set sep"
  by (induction sep ps rule: join_sep.induct) auto

lemma join_sep_Nil_iff [simp]:
  "\<forall>p \<in> set ps. p \<noteq> [] \<Longrightarrow> join_sep sep ps = [] \<longleftrightarrow> ps = []"
  by (induction sep ps rule: join_sep.induct) auto

lemma join_sep_Cons:
  "join_sep sep (x # zs) = (if zs = [] then x else x @ sep @ join_sep sep zs)"
  by (cases zs) simp_all

lemma join_sep_split:
  "join_sep sep (xs @ (a @ sep @ b) # ys) = join_sep sep (xs @ a # b # ys)"
  by (induction xs) (simp_all add: join_sep_Cons)

lemma join_sep_Cons_hd:
  "p \<noteq> [] \<Longrightarrow> \<exists>r. join_sep sep (p # ps) = hd p # r"
  by (cases ps) (auto simp: neq_Nil_conv)

subsection \<open>List.map_filter\<close>

lemma map_filter_append [simp]:
  "List.map_filter f (xs @ ys) = List.map_filter f xs @ List.map_filter f ys"
  by (induction xs) (simp_all add: map_filter_simps split: option.splits)

lemma map_filter_map_id: "List.map_filter id (map f xs) = List.map_filter f xs"
  by (induction xs) (simp_all add: map_filter_simps split: option.splits)

subsection \<open>Sorting is determined by the multiset\<close>

text \<open>\<open>sorted(xs)\<close> depends on the elements of \<open>xs\<close> only, not on their order.\<close>

lemma sort_mset_cong: "mset xs = mset ys \<Longrightarrow> sort xs = sort ys"
  by (rule properties_for_sort) simp_all

end
