(* ===== verification/PathNorm.thy ===== *)
theory PathNorm
  imports Prelude
begin

text \<open>
  \<open>Path(p).as_posix()\<close> on a POSIX host, the normalisation that
  \<open>src/indexer/graph_utils.py\<close> applies to every key and neighbour of the
  dependency graph and to the start file, and that \<open>src/rag_api/main.py\<close>
  applies to related files and to the target file.  CPython's \<open>PurePosixPath\<close>
  splits off a root (\<open>posixpath.splitroot\<close>: none, \<open>/\<close>, or exactly two
  leading slashes kept as \<open>//\<close>), splits the rest at \<open>/\<close>, drops empty and
  \<open>.\<close> components, and joins them again; the empty path prints as \<open>.\<close>.
  The backslash is an ordinary character and \<open>..\<close> is kept.
\<close>

definition slash :: char where
  "slash = CHR ''/''"

text \<open>\<open>posixpath.splitroot(p)\<close> without the (always empty) drive.\<close>

definition split_root :: "string \<Rightarrow> string \<times> string" where
  "split_root p =
     (if take 1 p \<noteq> [slash] then ([], p)
      else if take 1 (drop 1 p) \<noteq> [slash] \<or> take 1 (drop 2 p) = [slash]
      then ([slash], drop 1 p)
      else ([slash, slash], drop 2 p))"

text \<open>The components \<open>_parse_path\<close> keeps: \<open>[x for x in rel.split(sep) if x and x != '.']\<close>.\<close>

definition path_parts :: "string \<Rightarrow> string list" where
  "path_parts rel = filter (\<lambda>x. x \<noteq> [] \<and> x \<noteq> ''.'') (split_sep slash rel)"

definition as_posix :: "string \<Rightarrow> path" where
  "as_posix p =
     (let (root, rel) = split_root p;
          s = root @ join_sep [slash] (path_parts rel)
      in if s = [] then ''.'' else s)"

declare slash_def [model_simps] split_root_def [model_simps]
  path_parts_def [model_simps] as_posix_def [model_simps]

subsection \<open>Shape of a normalised path\<close>

definition clean_part :: "string \<Rightarrow> bool" where
  "clean_part x \<longleftrightarrow> x \<noteq> [] \<and> x \<noteq> ''.'' \<and> slash \<notin> set x"

lemma path_parts_clean: "x \<in> set (path_parts rel) \<Longrightarrow> clean_part x"
  by (auto simp: path_parts_def clean_part_def dest: split_sep_no_sep)

lemma path_parts_join:
  "\<forall>x \<in> set ps. clean_part x \<Longrightarrow> path_parts (join_sep [slash] ps) = ps"
proof (cases "ps = []")
  case True
  then show ?thesis by (simp add: path_parts_def)
next
  case False
  assume "\<forall>x \<in> set ps. clean_part x"
  with False show ?thesis
    by (simp add: path_parts_def split_join_sep clean_part_def filter_id_conv)
qed

lemma split_root_cases:
  "split_root p = (root, rel) \<Longrightarrow> root = [] \<or> root = [slash] \<or> root = [slash, slash]"
  by (auto simp: split_root_def split: if_splits)

text \<open>A joined list of clean components never starts with a slash.\<close>

lemma join_clean_hd:
  assumes "\<forall>x \<in> set ps. clean_part x" and "ps \<noteq> []"
  shows "\<exists>a r. join_sep [slash] ps = a # r \<and> a \<noteq> slash"
proof -
  obtain p qs where ps: "ps = p # qs" using assms(2) by (cases ps) auto
  with assms(1) have "clean_part p" by simp
  then have "p \<noteq> []" and "hd p \<noteq> slash"
    by (auto simp: clean_part_def dest: hd_in_set)
  with join_sep_Cons_hd [of p "[slash]" qs] show ?thesis by (auto simp: ps)
qed

text \<open>Splitting the root off a normal form gives back its root and body.\<close>

lemma split_root_normal:
  assumes "\<forall>x \<in> set ps. clean_part x"
    and "root = [] \<or> root = [slash] \<or> root = [slash, slash]"
    and "root @ join_sep [slash] ps \<noteq> []"
  shows "split_root (root @ join_sep [slash] ps) = (root, join_sep [slash] ps)"
proof (cases "ps = []")
  case True
  with assms(2,3) show ?thesis by (auto simp: split_root_def)
next
  case False
  with assms(1) obtain a r where j: "join_sep [slash] ps = a # r" and a: "a \<noteq> slash"
    using join_clean_hd by blast
  from assms(2) show ?thesis
    by (auto simp: split_root_def j a)
qed

lemma as_posix_normal_form:
  assumes "\<forall>x \<in> set ps. clean_part x"
    and "root = [] \<or> root = [slash] \<or> root = [slash, slash]"
    and "root @ join_sep [slash] ps \<noteq> []"
  shows "as_posix (root @ join_sep [slash] ps) = root @ join_sep [slash] ps"
  using split_root_normal [OF assms] path_parts_join [OF assms(1)] assms(3)
  by (simp add: as_posix_def)

lemma as_posix_dot: "as_posix ''.'' = ''.''"
  by (simp add: as_posix_def split_root_def slash_def path_parts_def)

lemma as_posix_shape:
  "as_posix p = ''.'' \<or>
   (\<exists>root ps. (\<forall>x \<in> set ps. clean_part x) \<and>
      (root = [] \<or> root = [slash] \<or> root = [slash, slash]) \<and>
      root @ join_sep [slash] ps \<noteq> [] \<and> as_posix p = root @ join_sep [slash] ps)"
proof -
  obtain root rel where sr: "split_root p = (root, rel)"
    by (cases "split_root p")
  have "\<forall>x \<in> set (path_parts rel). clean_part x"
    by (blast intro: path_parts_clean)
  moreover from sr have "root = [] \<or> root = [slash] \<or> root = [slash, slash]"
    by (rule split_root_cases)
  ultimately show ?thesis
    using sr by (auto simp: as_posix_def)
qed

subsection \<open>Idempotence\<close>

lemma as_posix_as_posix [simp]: "as_posix (as_posix p) = as_posix p"
  using as_posix_shape [of p] as_posix_dot as_posix_normal_form by metis

text \<open>C28: normalising an already normalised path returns it unchanged; this
  is why \<open>get_related_files\<close> may normalise neighbours that
  \<open>load_dependency_graph\<close> already normalised, and why \<open>rag_endpoint\<close> may
  normalise the related files again.\<close>

theorem as_posix_idem: "as_posix (as_posix p) = as_posix p"
  by (rule as_posix_as_posix)

end
