(* ===== verification/HttpJson.thy ===== *)
theory HttpJson
  imports Prelude "HOL-Library.AList"
begin

text \<open>
  The HTTP and JSON layer both programs talk to their services through:
  JSON documents as \<open>json.loads\<close> returns them, Python's subscript
  \<open>x[k]\<close> on those values with its three exceptions, the process
  environment read by \<open>os.getenv\<close>, and an HTTP \<open>POST\<close> with a JSON body
  as \<open>httpx\<close> performs it: the transport may fail, \<open>raise_for_status()\<close>
  rejects every status outside 2xx, and \<open>.json()\<close> fails on a body that is
  not JSON.  The network itself is an input: a function from the URL and
  the JSON payload to the response, or to \<open>None\<close> when no response
  arrives (connection error, timeout).
\<close>

datatype json =
    JNull
  | JBool bool
  | JNum number
  | JStr string
  | JArr "json list"
  | JObj "(string \<times> json) list"

datatype py_exc = KeyError | IndexError | TypeError

text \<open>A subscript: \<open>x["key"]\<close> or \<open>x[i]\<close>.\<close>

datatype subscript = Key string | Idx int

text \<open>Python's sequence index: a negative index counts from the end, any
  other index out of range is an \<open>IndexError\<close>.\<close>

definition py_index :: "'a list \<Rightarrow> int \<Rightarrow> 'a option" where
  "py_index xs i =
     (let j = (if i < 0 then int (length xs) + i else i)
      in if 0 \<le> j \<and> j < int (length xs) then Some (xs ! nat j) else None)"

text \<open>\<open>x[s]\<close> on a value of \<open>json.loads\<close>.  An object is a dict in which
  the last of duplicate keys wins; its keys are strings, so an integer
  subscript is a \<open>KeyError\<close>.  A string is indexed by characters.  Numbers,
  booleans and \<open>None\<close> are not subscriptable.\<close>

fun json_sub :: "json \<Rightarrow> subscript \<Rightarrow> py_exc + json" where
  "json_sub (JObj kvs) (Key k) = (case map_of (rev kvs) k of None \<Rightarrow> Inl KeyError | Some v \<Rightarrow> Inr v)"
| "json_sub (JObj kvs) (Idx i) = Inl KeyError"
| "json_sub (JArr xs) (Idx i) = (case py_index xs i of None \<Rightarrow> Inl IndexError | Some v \<Rightarrow> Inr v)"
| "json_sub (JStr s) (Idx i) = (case py_index s i of None \<Rightarrow> Inl IndexError | Some c \<Rightarrow> Inr (JStr [c]))"
| "json_sub _ _ = Inl TypeError"

text \<open>A dict parsed from JSON or YAML, by its items in document order, and
  \<open>d.get(k, default)\<close> on it (the last of duplicate keys wins).\<close>

type_synonym json_dict = "(string \<times> json) list"

definition dict_get :: "json_dict \<Rightarrow> string \<Rightarrow> json \<Rightarrow> json" where
  "dict_get d k dflt = (case map_of (rev d) k of None \<Rightarrow> dflt | Some v \<Rightarrow> v)"

text \<open>The dict \<open>json.load\<close> builds from the items of an object: each
  assignment \<open>d[k] = v\<close> replaces the value of an existing key in place and
  appends a new key, so \<open>d.items()\<close> lists each key once, at its first
  occurrence, with its last value.\<close>

definition py_dict :: "json_dict \<Rightarrow> json_dict" where
  "py_dict d = fold (\<lambda>kv al. AList.update (fst kv) (snd kv) al) d []"

text \<open>Iterating a decoded value, \<open>for x in v\<close>: the elements of a list,
  the characters of a string, the keys of a dict in the order of their first
  occurrence; anything else raises \<open>TypeError\<close>.\<close>

fun py_iter :: "json \<Rightarrow> py_exc + json list" where
  "py_iter (JArr xs) = Inr xs"
| "py_iter (JStr s) = Inr (map (\<lambda>c. JStr [c]) s)"
| "py_iter (JObj d) = Inr (map (JStr \<circ> fst) (py_dict d))"
| "py_iter _ = Inl TypeError"

text \<open>A chain \<open>x[s1][s2]...\<close>, evaluated left to right; the first exception
  ends it.\<close>

fun json_path :: "json \<Rightarrow> subscript list \<Rightarrow> py_exc + json" where
  "json_path j [] = Inr j"
| "json_path j (s # ss) = (case json_sub j s of Inl e \<Rightarrow> Inl e | Inr j' \<Rightarrow> json_path j' ss)"

text \<open>\<open>os.getenv(name, default)\<close>.\<close>

type_synonym os_env = "string \<Rightarrow> string option"

definition getenv :: "os_env \<Rightarrow> string \<Rightarrow> string \<Rightarrow> string" where
  "getenv env name dflt = (case env name of None \<Rightarrow> dflt | Some v \<Rightarrow> v)"

record http_response =
  resp_status :: int
  resp_body :: "json option"

type_synonym http_post = "string \<Rightarrow> json \<Rightarrow> http_response option"

datatype http_error = TransportError | HTTPStatusError | BodyNotJSON | ResponseShape py_exc

text \<open>\<open>resp = post(url, json=payload); resp.raise_for_status();
  resp.json()[s1]...[sn]\<close>.\<close>

definition post_json :: "http_post \<Rightarrow> string \<Rightarrow> json \<Rightarrow> subscript list \<Rightarrow> http_error + json" where
  "post_json post url payload path =
     (case post url payload of
        None \<Rightarrow> Inl TransportError
      | Some resp \<Rightarrow>
          if \<not> (200 \<le> resp_status resp \<and> resp_status resp < 300) then Inl HTTPStatusError
          else (case resp_body resp of
                  None \<Rightarrow> Inl BodyNotJSON
                | Some body \<Rightarrow>
                    (case json_path body path of
                       Inl e \<Rightarrow> Inl (ResponseShape e)
                     | Inr v \<Rightarrow> Inr v)))"

text \<open>A JSON array of numbers, the only value the vector store accepts as
  a vector (its client validates the list before sending it).\<close>

fun json_number :: "json \<Rightarrow> number option" where
  "json_number (JNum n) = Some n"
| "json_number _ = None"

fun json_numbers :: "json \<Rightarrow> number list option" where
  "json_numbers (JArr xs) = those (map json_number xs)"
| "json_numbers _ = None"

declare py_dict_def [model_simps] dict_get_def [model_simps] py_index_def [model_simps] getenv_def [model_simps] post_json_def [model_simps]

subsection \<open>Lemmas\<close>

lemma update_notin: "k \<notin> fst ` set al \<Longrightarrow> AList.update k v al = al @ [(k, v)]"
  by (induction al) auto

lemma fold_update_distinct:
  "distinct (map fst d) \<Longrightarrow> fst ` set d \<inter> fst ` set acc = {} \<Longrightarrow>
   fold (\<lambda>kv al. AList.update (fst kv) (snd kv) al) d acc = acc @ d"
proof (induction d arbitrary: acc)
  case Nil
  then show ?case by simp
next
  case (Cons kv d)
  have "AList.update (fst kv) (snd kv) acc = acc @ [kv]"
    using Cons.prems(2) by (simp add: update_notin)
  moreover have "fold (\<lambda>kv al. AList.update (fst kv) (snd kv) al) d (acc @ [kv]) = (acc @ [kv]) @ d"
    using Cons.prems by (intro Cons.IH) auto
  ultimately show ?case by simp
qed




lemma py_dict_distinct: "distinct (map fst d) \<Longrightarrow> py_dict d = d"
  using fold_update_distinct [of d "[]"] by (simp add: py_dict_def)

lemma map_of_fold_update:
  "map_of (fold (\<lambda>kv al. AList.update (fst kv) (snd kv) al) d acc) = map_of acc ++ map_of (rev d)"
proof (induction d arbitrary: acc)
  case Nil
  then show ?case by simp
next
  case (Cons kv d)
  then show ?case
    by (simp add: update_conv' map_add_def map_of_append fun_eq_iff split: option.split)
qed

lemma distinct_fold_update:
  "distinct (map fst acc) \<Longrightarrow> distinct (map fst (fold (\<lambda>kv al. AList.update (fst kv) (snd kv) al) d acc))"
  by (induction d arbitrary: acc) (simp_all add: distinct_update)

lemma py_dict_set: "kv \<in> set (py_dict d) \<longleftrightarrow> map_of (rev d) (fst kv) = Some (snd kv)"
proof -
  have "distinct (map fst (py_dict d))"
    by (simp add: py_dict_def distinct_fold_update)
  moreover have "map_of (py_dict d) = map_of (rev d)"
    by (simp add: py_dict_def map_of_fold_update)
  ultimately show ?thesis
    by (metis map_of_is_SomeI prod.collapse weak_map_of_SomeI map_of_SomeD)
qed

lemma py_index_last [simp]: "xs \<noteq> [] \<Longrightarrow> py_index xs (-1) = Some (last xs)"
  by (simp add: py_index_def last_conv_nth nat_diff_distrib')

lemma py_index_nat [simp]: "n < length xs \<Longrightarrow> py_index xs (int n) = Some (xs ! n)"
  by (simp add: py_index_def)

lemma json_path_append:
  "json_path j (p @ q) = (case json_path j p of Inl e \<Rightarrow> Inl e | Inr j' \<Rightarrow> json_path j' q)"
  by (induction j p rule: json_path.induct) (simp_all split: sum.split)

lemma those_map_json_number:
  "those (map json_number xs) = Some v \<longleftrightarrow> xs = map JNum v"
proof (induction xs arbitrary: v)
  case Nil
  then show ?case by auto
next
  case (Cons x xs)
  show ?case
  proof (cases "json_number x")
    case None
    then show ?thesis by (cases x) auto
  next
    case (Some n)
    then have "x = JNum n" by (cases x) auto
    with Some Cons.IH show ?thesis by (cases v) (auto split: option.split)
  qed
qed

lemma json_numbers_Some_iff: "json_numbers j = Some v \<longleftrightarrow> j = JArr (map JNum v)"
  by (cases j) (simp_all add: those_map_json_number)

lemma post_json_Inr_iff:
  "post_json post url payload path = Inr v \<longleftrightarrow>
   (\<exists>resp body. post url payload = Some resp \<and> 200 \<le> resp_status resp \<and> resp_status resp < 300 \<and>
      resp_body resp = Some body \<and> json_path body path = Inr v)"
  by (auto simp: post_json_def split: option.splits sum.splits)

lemma json_sub_Key_Inr:
  "json_sub x (Key k) = Inr v \<longleftrightarrow> (\<exists>d. x = JObj d \<and> map_of (rev d) k = Some v)"
  by (cases x) (auto split: option.splits)

lemma py_index_0: "py_index xs 0 = (case xs of [] \<Rightarrow> None | y # ys \<Rightarrow> Some y)"
  by (cases xs) (simp_all add: py_index_def)

lemma json_sub_Idx0_Inr:
  "json_sub x (Idx 0) = Inr v \<longleftrightarrow>
   (\<exists>ys. x = JArr (v # ys)) \<or> (\<exists>c s. x = JStr (c # s) \<and> v = JStr [c])"
  by (cases x) (auto simp: py_index_0 split: list.splits)

lemma json_path_Cons_Inr:
  "json_path j (s # ss) = Inr v \<longleftrightarrow> (\<exists>j'. json_sub j s = Inr j' \<and> json_path j' ss = Inr v)"
  by (simp split: sum.split)

text \<open>\<open>x[k1][0][k2]\<close> succeeds exactly on a dict whose \<open>k1\<close> is a non-empty
  list whose first element is a dict with key \<open>k2\<close>.\<close>

lemma json_path_key_first_key:
  "json_path b [Key k1, Idx 0, Key k2] = Inr v \<longleftrightarrow>
   (\<exists>d e ys. b = JObj d \<and> map_of (rev d) k1 = Some (JArr (JObj e # ys)) \<and> map_of (rev e) k2 = Some v)"
  by (simp only: json_path_Cons_Inr json_path.simps(1) sum.inject)
     (auto simp: json_sub_Key_Inr json_sub_Idx0_Inr)

lemma post_json_status_error:
  "post url payload = Some resp \<Longrightarrow> \<not> (200 \<le> resp_status resp \<and> resp_status resp < 300) \<Longrightarrow>
   post_json post url payload path = Inl HTTPStatusError"
  by (simp add: post_json_def)

lemma post_json_transport_error:
  "post url payload = None \<Longrightarrow> post_json post url payload path = Inl TransportError"
  by (simp add: post_json_def)


end
