(* ===== verification/DependencyGraph.thy ===== *)
theory DependencyGraph
  imports PathNorm HttpJson
begin

text \<open>
  \<open>load_dependency_graph\<close> (\<open>src/indexer/graph_utils.py\<close>, lines 7--17).
  The persisted resource \<open>dependency_graph.json\<close> is the input: it is missing
  (\<open>FileNotFoundError\<close> from \<open>open\<close>), not JSON (\<open>JSONDecodeError\<close> from
  \<open>json.load\<close>), or the JSON value \<open>json.load\<close> returns
  (\<open>GraphValue\<close>).  \<open>GraphJson\<close> is the well-typed case the annotation
  \<open>Dict[str, List[str]]\<close> describes, given by the items of
  \<open>raw_graph.items()\<close>; it agrees with the value case for the object
  with those items.  On any other
  value the loop raises: \<open>.items()\<close> of a value that is not an object is an
  \<open>AttributeError\<close>, iterating a value that is not a list, string or object
  and \<open>Path(v)\<close> of a non-string are \<open>TypeError\<close>s.  The
  normalised dictionary is an association list: \<open>normalized[k] = v\<close> on a
  Python dict replaces the value of an existing key in place and appends a new
  key at the end, which is what \<open>AList.update\<close> does.  \<open>graph.get(k, [])\<close>
  is \<open>graph_get\<close>.
\<close>

datatype graph_error = FileNotFoundError | JSONDecodeError | GraphTypeError | GraphAttributeError

datatype graph_file =
    GraphMissing
  | GraphMalformed
  | GraphJson "(string \<times> string list) list"
  | GraphValue json

type_synonym graph = "(path \<times> path list) list"

text \<open>One iteration of the loop at lines 14--16.\<close>

definition normalize_item :: "string \<times> string list \<Rightarrow> graph \<Rightarrow> graph" where
  "normalize_item kv g = AList.update (as_posix (fst kv)) (map as_posix (snd kv)) g"

definition normalize_graph :: "(string \<times> string list) list \<Rightarrow> graph" where
  "normalize_graph raw = fold normalize_item raw []"

text \<open>Line 16 on a decoded value: \<open>for v in values\<close> and \<open>Path(v)\<close>,
  which accepts strings only.\<close>

fun json_strs :: "json list \<Rightarrow> graph_error + string list" where
  "json_strs [] = Inr []"
| "json_strs (JStr s # xs) = (case json_strs xs of Inl e \<Rightarrow> Inl e | Inr ss \<Rightarrow> Inr (s # ss))"
| "json_strs (_ # xs) = Inl GraphTypeError"

definition graph_values :: "json \<Rightarrow> graph_error + string list" where
  "graph_values v =
     (case py_iter v of
        Inl _ \<Rightarrow> Inl GraphTypeError
      | Inr xs \<Rightarrow> json_strs xs)"

text \<open>Lines 14--16 on the items of a decoded object; the first exception
  ends the loop.\<close>

fun normalize_json :: "json_dict \<Rightarrow> graph \<Rightarrow> graph_error + graph" where
  "normalize_json [] g = Inr g"
| "normalize_json (kv # kvs) g =
     (case graph_values (snd kv) of
        Inl e \<Rightarrow> Inl e
      | Inr vs \<Rightarrow> normalize_json kvs (normalize_item (fst kv, vs) g))"

definition load_dependency_graph :: "graph_file \<Rightarrow> graph_error + graph" where
  "load_dependency_graph f =
     (case f of
        GraphMissing \<Rightarrow> Inl FileNotFoundError
      | GraphMalformed \<Rightarrow> Inl JSONDecodeError
      | GraphJson raw \<Rightarrow> Inr (normalize_graph raw)
      | GraphValue (JObj d) \<Rightarrow> normalize_json (py_dict d) []
      | GraphValue _ \<Rightarrow> Inl GraphAttributeError)"

definition graph_get :: "graph \<Rightarrow> path \<Rightarrow> path list" where
  "graph_get g k = (case map_of g k of None \<Rightarrow> [] | Some vs \<Rightarrow> vs)"

declare normalize_item_def [model_simps] normalize_graph_def [model_simps] graph_values_def [model_simps]
  load_dependency_graph_def [model_simps] graph_get_def [model_simps]


text \<open>The decoded values the loop accepts: iterables whose elements are
  strings.\<close>

fun is_jstr :: "json \<Rightarrow> bool" where
  "is_jstr (JStr s) = True"
| "is_jstr _ = False"

fun strs_value :: "json \<Rightarrow> bool" where
  "strs_value (JArr xs) = list_all is_jstr xs"
| "strs_value (JStr s) = True"
| "strs_value (JObj d) = True"
| "strs_value _ = False"

subsection \<open>The loaded graph as a map\<close>

definition norm_pair :: "string \<times> string list \<Rightarrow> path \<times> path list" where
  "norm_pair kv = (as_posix (fst kv), map as_posix (snd kv))"

lemma map_of_fold_normalize:
  "map_of (fold normalize_item raw g) = map_of g ++ map_of (rev (map norm_pair raw))"
proof (induction raw arbitrary: g)
  case Nil
  then show ?case by simp
next
  case (Cons kv raw)
  have "map_of (fold normalize_item (kv # raw) g) =
        map_of (normalize_item kv g) ++ map_of (rev (map norm_pair raw))"
    by (simp add: Cons.IH)
  moreover have "map_of (normalize_item kv g) = map_of g ++ map_of [norm_pair kv]"
    by (simp add: normalize_item_def norm_pair_def update_conv')
  moreover have "map_of (rev (map norm_pair (kv # raw))) =
                 map_of [norm_pair kv] ++ map_of (rev (map norm_pair raw))"
    by (simp only: list.map rev.simps map_of_append)
  ultimately show ?case
    by (simp only: map_add_assoc)
qed

lemma map_of_normalize_graph:
  "map_of (normalize_graph raw) = map_of (rev (map norm_pair raw))"
  by (simp add: normalize_graph_def map_of_fold_normalize)

lemma distinct_fold_normalize:
  "distinct (map fst g) \<Longrightarrow> distinct (map fst (fold normalize_item raw g))"
  by (induction raw arbitrary: g) (simp_all add: normalize_item_def distinct_update)

lemma normalize_graph_distinct [simp]: "distinct (map fst (normalize_graph raw))"
  by (simp add: normalize_graph_def distinct_fold_normalize)

lemma normalize_graph_normal:
  "(k, vs) \<in> set (normalize_graph raw) \<Longrightarrow>
   as_posix k = k \<and> (\<forall>v \<in> set vs. as_posix v = v)"
proof -
  assume "(k, vs) \<in> set (normalize_graph raw)"
  then have "map_of (rev (map norm_pair raw)) k = Some vs"
    by (metis map_of_normalize_graph map_of_is_SomeI normalize_graph_distinct)
  then have "(k, vs) \<in> set (map norm_pair raw)"
    by (auto dest: map_of_SomeD)
  then show ?thesis
    by (auto simp: norm_pair_def)
qed

subsection \<open>The loader on a decoded JSON value\<close>

lemma json_strs_Inl: "json_strs xs = Inl e \<longleftrightarrow> \<not> list_all is_jstr xs \<and> e = GraphTypeError"
  by (induction xs rule: json_strs.induct) (auto split: sum.split)

lemma json_strs_map_JStr [simp]: "json_strs (map JStr ss) = Inr ss"
  by (induction ss) simp_all

lemma graph_values_Inl: "graph_values v = Inl e \<longleftrightarrow> \<not> strs_value v \<and> e = GraphTypeError"
  by (cases v) (auto simp: graph_values_def json_strs_Inl list_all_iff)

lemma normalize_json_Inl:
  "normalize_json d g = Inl e \<longleftrightarrow> \<not> list_all (\<lambda>kv. strs_value (snd kv)) d \<and> e = GraphTypeError"
proof (induction d arbitrary: g)
  case Nil
  then show ?case by simp
next
  case (Cons kv d)
  show ?case
  proof (cases "strs_value (snd kv)")
    case True
    then obtain vs where "graph_values (snd kv) = Inr vs"
      using graph_values_Inl by (cases "graph_values (snd kv)") auto
    with True Cons.IH show ?thesis by simp
  next
    case False
    then have "graph_values (snd kv) = Inl GraphTypeError" by (simp add: graph_values_Inl)
    with False show ?thesis by auto
  qed
qed

lemma normalize_json_Inr:
  "normalize_json d g = Inr g' \<Longrightarrow> \<exists>raw. g' = fold normalize_item raw g"
proof (induction d arbitrary: g)
  case Nil
  then show ?case by (intro exI [of _ "[]"]) simp
next
  case (Cons kv d)
  then obtain vs where vs: "graph_values (snd kv) = Inr vs"
    and rest: "normalize_json d (normalize_item (fst kv, vs) g) = Inr g'"
    by (auto split: sum.splits)
  from Cons.IH [OF rest] obtain raw where "g' = fold normalize_item raw (normalize_item (fst kv, vs) g)" ..
  then show ?case by (intro exI [of _ "(fst kv, vs) # raw"]) simp
qed


lemma load_dependency_graph_Inr:
  "load_dependency_graph f = Inr g \<Longrightarrow> \<exists>raw. load_dependency_graph (GraphJson raw) = Inr g"
  by (auto simp: load_dependency_graph_def normalize_graph_def
           split: graph_file.splits json.splits dest: normalize_json_Inr)



text \<open>C32: the error paths of the loader on a decoded value: it fails with
  \<open>AttributeError\<close> exactly when the top level is not an object, and on an
  object it fails, always with \<open>TypeError\<close>, exactly when the value a key
  ends up with (the last of duplicate keys) is \<open>null\<close>, a boolean, a number,
  or a list holding something other than a string.  A string value or an
  object value is accepted.\<close>

theorem load_dependency_graph_GraphValue_error:
  "(load_dependency_graph (GraphValue j) = Inl GraphAttributeError \<longleftrightarrow> (\<forall>d. j \<noteq> JObj d)) \<and>
   (load_dependency_graph (GraphValue (JObj d)) = Inl e \<longleftrightarrow>
      (\<exists>k v. map_of (rev d) k = Some v \<and> \<not> strs_value v) \<and> e = GraphTypeError)"
proof
  show "load_dependency_graph (GraphValue j) = Inl GraphAttributeError \<longleftrightarrow> (\<forall>d. j \<noteq> JObj d)"
    by (cases j) (auto simp: load_dependency_graph_def normalize_json_Inl)
  have "\<not> list_all (\<lambda>kv. strs_value (snd kv)) (py_dict d) \<longleftrightarrow>
        (\<exists>k v. map_of (rev d) k = Some v \<and> \<not> strs_value v)"
  proof
    assume "\<not> list_all (\<lambda>kv. strs_value (snd kv)) (py_dict d)"
    then obtain kv where "kv \<in> set (py_dict d)" "\<not> strs_value (snd kv)" by (auto simp: list_all_iff)
    then show "\<exists>k v. map_of (rev d) k = Some v \<and> \<not> strs_value v" by (auto simp: py_dict_set)
  next
    assume "\<exists>k v. map_of (rev d) k = Some v \<and> \<not> strs_value v"
    then obtain k v where "(k, v) \<in> set (py_dict d)" "\<not> strs_value v" by (auto simp: py_dict_set)
    then show "\<not> list_all (\<lambda>kv. strs_value (snd kv)) (py_dict d)"
      unfolding list_all_iff by (metis snd_conv)
  qed
  then show "load_dependency_graph (GraphValue (JObj d)) = Inl e \<longleftrightarrow>
      (\<exists>k v. map_of (rev d) k = Some v \<and> \<not> strs_value v) \<and> e = GraphTypeError"
    by (simp add: load_dependency_graph_def normalize_json_Inl)
qed

text \<open>A string value is iterated by characters: each character becomes a
  neighbour.\<close>

lemma load_dependency_graph_string_value:
  "load_dependency_graph (GraphValue (JObj [(''a.ts'', JStr ''b.ts'')])) =
     Inr [(''a.ts'', [''b'', ''.'', ''t'', ''s''])]"
  by (simp add: load_dependency_graph_def model_simps)

subsection \<open>Functional specification of the loader\<close>

lemma map_of_map_norm_pair:
  "map_of (map norm_pair xs) k =
     map_option (\<lambda>kv. map as_posix (snd kv)) (find (\<lambda>kv. as_posix (fst kv) = k) xs)"
  by (induction xs) (auto simp: norm_pair_def)

text \<open>C18: the graph \<open>load_dependency_graph\<close> returns for a JSON object
  has distinct keys, exactly the normalised keys of the object, and for each
  path \<open>k\<close> the normalised neighbours of the LAST item whose key normalises
  to \<open>k\<close> (no neighbours when there is none): a later item overwrites an
  earlier one, so two keys such as \<open>a/b\<close> and \<open>a//b\<close> collide and the
  graph depends on the order of the items.\<close>

theorem load_dependency_graph_spec:
  assumes "load_dependency_graph (GraphJson raw) = Inr g"
  shows "distinct (map fst g) \<and> fst ` set g = as_posix ` fst ` set raw \<and>
         (\<forall>k. graph_get g k =
                (case find (\<lambda>kv. as_posix (fst kv) = k) (rev raw) of
                   None \<Rightarrow> [] | Some kv \<Rightarrow> map as_posix (snd kv)))"
proof -
  from assms have g: "g = normalize_graph raw"
    by (simp add: load_dependency_graph_def)
  have "fst ` set g = fst ` set (rev (map norm_pair raw))"
    using map_of_normalize_graph [of raw] by (metis dom_map_of_conv_image_fst g)
  then have keys: "fst ` set g = as_posix ` fst ` set raw"
    by (auto simp: norm_pair_def image_image)
  have "graph_get g k = (case find (\<lambda>kv. as_posix (fst kv) = k) (rev raw) of
                   None \<Rightarrow> [] | Some kv \<Rightarrow> map as_posix (snd kv))" for k
    by (simp add: g graph_get_def map_of_normalize_graph rev_map map_of_map_norm_pair
             split: option.split)
  with keys g show ?thesis by simp
qed

theorem load_dependency_graph_spec_witness:
  "load_dependency_graph (GraphJson [(''a/b'', [''x'']), (''a//b'', [''y''])]) =
     Inr (normalize_graph [(''a/b'', [''x'']), (''a//b'', [''y''])]) \<and>
   graph_get (normalize_graph [(''a/b'', [''x'']), (''a//b'', [''y''])]) ''a/b'' = [''y''] \<and>
   load_dependency_graph (GraphJson [(''a//b'', [''y'']), (''a/b'', [''x''])]) =
     Inr (normalize_graph [(''a//b'', [''y'']), (''a/b'', [''x''])]) \<and>
   graph_get (normalize_graph [(''a//b'', [''y'']), (''a/b'', [''x''])]) ''a/b'' = [''x'']"
proof -
  have h1: "load_dependency_graph (GraphJson [(''a/b'', [''x'']), (''a//b'', [''y''])]) =
     Inr (normalize_graph [(''a/b'', [''x'']), (''a//b'', [''y''])])"
    by (simp add: load_dependency_graph_def)
  have h2: "load_dependency_graph (GraphJson [(''a//b'', [''y'']), (''a/b'', [''x''])]) =
     Inr (normalize_graph [(''a//b'', [''y'']), (''a/b'', [''x''])])"
    by (simp add: load_dependency_graph_def)
  show ?thesis
    using h1 h2 load_dependency_graph_spec [OF h1] load_dependency_graph_spec [OF h2]
    by (simp add: model_simps)
qed
end
