(* ===== verification/GraphTraversal.thy ===== *)
theory GraphTraversal
  imports DependencyGraph
begin

text \<open>
  \<open>get_related_files\<close> (\<open>src/indexer/graph_utils.py\<close>, lines 20--44):
  breadth-first search from the normalised start file over the loaded graph,
  to a bounded depth.  The loop state (\<open>visited\<close>, the \<open>deque\<close> of
  (node, distance) pairs, \<open>result\<close>) is the record \<open>bfs_state\<close>; the inner
  \<open>for\<close> loop over the sorted neighbours is \<open>scan_neighbours\<close>, the
  \<open>while queue\<close> loop is \<open>bfs_loop\<close>, whose termination is proved by a
  lexicographic measure (unvisited graph nodes, then queue length).  The
  theory then defines a level-by-level reference search \<open>bfs_levels\<close>,
  proves the deque loop equal to it, and characterises its result by the
  inductive reachability relation \<open>reach\<close>.
\<close>

record bfs_state =
  visited :: "path set"
  queue :: "(path \<times> int) list"
  result :: "path list"

fun scan_neighbours :: "int \<Rightarrow> path list \<Rightarrow> bfs_state \<Rightarrow> bfs_state" where
  "scan_neighbours d [] s = s"
| "scan_neighbours d (n # ns) s =
     (let n' = as_posix n in
      if n' \<notin> visited s
      then scan_neighbours d ns
             (s\<lparr>visited := insert n' (visited s), result := result s @ [n'],
                queue := queue s @ [(n', d)]\<rparr>)
      else scan_neighbours d ns s)"

definition graph_nodes :: "graph \<Rightarrow> path set" where
  "graph_nodes g = as_posix ` set (concat (map snd g))"

lemma finite_graph_nodes [simp]: "finite (graph_nodes g)"
  by (simp add: graph_nodes_def)

lemma graph_get_subset: "set (graph_get g k) \<subseteq> set (concat (map snd g))"
  by (cases "map_of g k") (auto simp: graph_get_def dest: map_of_SomeD)

lemma graph_get_subset_sort: "set (sort (graph_get g k)) \<subseteq> set (concat (map snd g))"
  using graph_get_subset by simp

lemma visited_scan: "visited (scan_neighbours d ns s) = visited s \<union> as_posix ` set ns"
  by (induction d ns s rule: scan_neighbours.induct) (auto simp: Let_def)

lemma scan_unchanged:
  "visited (scan_neighbours d ns s) = visited s \<Longrightarrow> queue (scan_neighbours d ns s) = queue s"
proof (induction d ns s rule: scan_neighbours.induct)
  case (1 d s)
  then show ?case by simp
next
  case (2 d n ns s)
  show ?case
  proof (cases "as_posix n \<in> visited s")
    case True
    with "2.IH"(2) "2.prems" show ?thesis by simp
  next
    case False
    with "2.prems" show ?thesis by (auto simp: Let_def visited_scan)
  qed
qed

lemma scan_progress:
  assumes "set ns \<subseteq> set (concat (map snd g))"
  shows "card (graph_nodes g - visited (scan_neighbours d ns s)) < card (graph_nodes g - visited s)
         \<or> (visited (scan_neighbours d ns s) = visited s \<and>
            queue (scan_neighbours d ns s) = queue s)"
proof (cases "visited (scan_neighbours d ns s) = visited s")
  case True
  then show ?thesis by (simp add: scan_unchanged)
next
  case False
  then obtain x where x: "x \<in> as_posix ` set ns" "x \<notin> visited s"
    by (auto simp: visited_scan)
  with assms have "x \<in> graph_nodes g" by (auto simp: graph_nodes_def)
  with x have "graph_nodes g - visited (scan_neighbours d ns s) \<subset> graph_nodes g - visited s"
    by (auto simp: visited_scan)
  then show ?thesis by (simp add: psubset_card_mono)
qed

definition bfs_measure :: "(graph \<times> int \<times> bfs_state) rel" where
  "bfs_measure = measures [\<lambda>(g, depth, s). card (graph_nodes g - visited s),
                           \<lambda>(g, depth, s). length (queue s)]"

lemma wf_bfs_measure [simp]: "wf bfs_measure"
  by (simp add: bfs_measure_def)

lemma bfs_measure_skip:
  "queue s = x # q \<Longrightarrow> ((g, depth, s\<lparr>queue := q\<rparr>), (g, depth, s)) \<in> bfs_measure"
  by (simp add: bfs_measure_def)

lemma bfs_measure_scan:
  assumes "queue s = x # q"
  shows "((g, depth, scan_neighbours d (sort (graph_get g k)) (s\<lparr>queue := q\<rparr>)), (g, depth, s))
         \<in> bfs_measure"
  using scan_progress [OF graph_get_subset_sort [of g k], where d = d and s = "s\<lparr>queue := q\<rparr>"] assms
  by (auto simp: bfs_measure_def)

function bfs_loop :: "graph \<Rightarrow> int \<Rightarrow> bfs_state \<Rightarrow> bfs_state" where
  "bfs_loop g depth s =
     (case queue s of
        [] \<Rightarrow> s
      | (current, dist) # q \<Rightarrow>
          if dist = depth then bfs_loop g depth (s\<lparr>queue := q\<rparr>)
          else bfs_loop g depth
                 (scan_neighbours (dist + 1) (sort (graph_get g current)) (s\<lparr>queue := q\<rparr>)))"
  by pat_completeness auto

termination
  by (relation bfs_measure) (auto simp: bfs_measure_skip bfs_measure_scan)

declare bfs_loop.simps [simp del]

definition bfs_init :: "path \<Rightarrow> bfs_state" where
  "bfs_init start = \<lparr>visited = {start}, queue = [(start, 0)], result = []\<rparr>"

definition get_related_files :: "graph_file \<Rightarrow> string \<Rightarrow> int \<Rightarrow> graph_error + path list" where
  "get_related_files f filepath depth =
     (if depth < 1 then Inr []
      else case load_dependency_graph f of
             Inl e \<Rightarrow> Inl e
           | Inr graph \<Rightarrow> Inr (result (bfs_loop graph depth (bfs_init (as_posix filepath)))))"

subsection \<open>Reference: breadth-first search level by level\<close>

definition visit :: "path \<Rightarrow> path set \<times> path list \<Rightarrow> path set \<times> path list" where
  "visit n acc =
     (let n' = as_posix n in
      if n' \<in> fst acc then acc else (insert n' (fst acc), snd acc @ [n']))"

definition next_level :: "graph \<Rightarrow> path list \<Rightarrow> path set \<Rightarrow> path set \<times> path list" where
  "next_level g F V = fold (\<lambda>x. fold visit (sort (graph_get g x))) F (V, [])"

fun bfs_levels :: "graph \<Rightarrow> nat \<Rightarrow> path list \<Rightarrow> path set \<Rightarrow> path list" where
  "bfs_levels g 0 F V = []"
| "bfs_levels g (Suc k) F V =
     (let (V', F') = next_level g F V in F' @ bfs_levels g k F' V')"

definition expand_level :: "graph \<Rightarrow> int \<Rightarrow> path list \<Rightarrow> bfs_state \<Rightarrow> bfs_state" where
  "expand_level g d F s = fold (\<lambda>x. scan_neighbours (d + 1) (sort (graph_get g x))) F s"

lemma visit_pair [simp]:
  "visit n (V, acc) =
     (if as_posix n \<in> V then (V, acc) else (insert (as_posix n) V, acc @ [as_posix n]))"
  by (simp add: visit_def Let_def)

lemma fold_visit_acc:
  "fold visit ns (V, acc) = (fst (fold visit ns (V, [])), acc @ snd (fold visit ns (V, [])))"
proof (induction ns arbitrary: V acc)
  case Nil
  then show ?case by simp
next
  case (Cons n ns)
  show ?case
    using Cons.IH [of "insert (as_posix n) V" "acc @ [as_posix n]"]
      Cons.IH [of "insert (as_posix n) V" "[as_posix n]"] Cons.IH [of V acc] Cons.IH [of V "[]"]
    by simp
qed

lemma scan_eq_visit:
  "scan_neighbours d ns s =
     s\<lparr>visited := fst (fold visit ns (visited s, [])),
       result := result s @ snd (fold visit ns (visited s, [])),
       queue := queue s @ map (\<lambda>n. (n, d)) (snd (fold visit ns (visited s, [])))\<rparr>"
proof (induction d ns s rule: scan_neighbours.induct)
  case (1 d s)
  then show ?case by simp
next
  case (2 d n ns s)
  show ?case
  proof (cases "as_posix n \<in> visited s")
    case True
    with "2.IH"(2) show ?thesis by simp
  next
    case False
    with "2.IH"(1) show ?thesis
      by (simp add: Let_def fold_visit_acc [of ns _ "[as_posix n]"])
  qed
qed

lemma fold_level_acc:
  "fold (\<lambda>x. fold visit (sort (graph_get g x))) F (V, acc) =
     (fst (fold (\<lambda>x. fold visit (sort (graph_get g x))) F (V, [])),
      acc @ snd (fold (\<lambda>x. fold visit (sort (graph_get g x))) F (V, [])))"
proof (induction F arbitrary: V acc)
  case Nil
  then show ?case by simp
next
  case (Cons x F)
  obtain V1 N1 where v1: "fold visit (sort (graph_get g x)) (V, []) = (V1, N1)"
    by (cases "fold visit (sort (graph_get g x)) (V, [])")
  then have "fold visit (sort (graph_get g x)) (V, acc) = (V1, acc @ N1)"
    using fold_visit_acc [of "sort (graph_get g x)" V acc] by simp
  with v1 show ?case
    using Cons.IH [of V1 "acc @ N1"] Cons.IH [of V1 N1] Cons.IH [of V1 "[]"] by simp
qed

lemma expand_level_eq:
  "expand_level g d F s =
     s\<lparr>visited := fst (next_level g F (visited s)),
       result := result s @ snd (next_level g F (visited s)),
       queue := queue s @ map (\<lambda>n. (n, d + 1)) (snd (next_level g F (visited s)))\<rparr>"
proof (induction F arbitrary: s)
  case Nil
  then show ?case by (simp add: expand_level_def next_level_def)
next
  case (Cons x F)
  let ?s1 = "scan_neighbours (d + 1) (sort (graph_get g x)) s"
  have "expand_level g d (x # F) s = expand_level g d F ?s1"
    by (simp add: expand_level_def)
  also have "\<dots> = ?s1\<lparr>visited := fst (next_level g F (visited ?s1)),
       result := result ?s1 @ snd (next_level g F (visited ?s1)),
       queue := queue ?s1 @ map (\<lambda>n. (n, d + 1)) (snd (next_level g F (visited ?s1)))\<rparr>"
    by (rule Cons.IH)
  finally show ?case
    using fold_level_acc [of g F "fst (fold visit (sort (graph_get g x)) (visited s, []))"
                           "snd (fold visit (sort (graph_get g x)) (visited s, []))"]
    by (simp add: scan_eq_visit next_level_def)
qed

lemma skip_level:
  "queue s = map (\<lambda>x. (x, depth)) F @ Q \<Longrightarrow>
   bfs_loop g depth s = bfs_loop g depth (s\<lparr>queue := Q\<rparr>)"
proof (induction F arbitrary: s)
  case Nil
  then show ?case by (cases s) simp
next
  case (Cons x F)
  then have "bfs_loop g depth s = bfs_loop g depth (s\<lparr>queue := map (\<lambda>x. (x, depth)) F @ Q\<rparr>)"
    by (simp add: bfs_loop.simps [of g depth s])
  also have "\<dots> = bfs_loop g depth (s\<lparr>queue := Q\<rparr>)"
    using Cons.IH [of "s\<lparr>queue := map (\<lambda>x. (x, depth)) F @ Q\<rparr>"] by simp
  finally show ?case .
qed

lemma loop_level:
  "queue s = map (\<lambda>x. (x, d)) F @ Q \<Longrightarrow> d \<noteq> depth \<Longrightarrow>
   bfs_loop g depth s = bfs_loop g depth (expand_level g d F (s\<lparr>queue := Q\<rparr>))"
proof (induction F arbitrary: s Q)
  case Nil
  then show ?case by (cases s) (simp add: expand_level_def)
next
  case (Cons x F)
  let ?ns = "sort (graph_get g x)"
  let ?s1 = "scan_neighbours (d + 1) ?ns (s\<lparr>queue := map (\<lambda>x. (x, d)) F @ Q\<rparr>)"
  let ?new = "map (\<lambda>n. (n, d + 1)) (snd (fold visit ?ns (visited s, [])))"
  have "bfs_loop g depth s = bfs_loop g depth ?s1"
    using Cons.prems by (simp add: bfs_loop.simps [of g depth s])
  also have "\<dots> = bfs_loop g depth (expand_level g d F (?s1\<lparr>queue := Q @ ?new\<rparr>))"
    using Cons.prems(2) by (intro Cons.IH) (simp add: scan_eq_visit)
  also have "?s1\<lparr>queue := Q @ ?new\<rparr> = scan_neighbours (d + 1) ?ns (s\<lparr>queue := Q\<rparr>)"
    by (simp add: scan_eq_visit)
  finally show ?case
    by (simp add: expand_level_def)
qed

lemma bfs_loop_levels:
  "queue s = map (\<lambda>x. (x, d)) F \<Longrightarrow> 0 \<le> d \<Longrightarrow> d \<le> depth \<Longrightarrow>
   result (bfs_loop g depth s) = result s @ bfs_levels g (nat (depth - d)) F (visited s)"
proof (induction "nat (depth - d)" arbitrary: d s F)
  case 0
  then have d: "d = depth" by simp
  with "0.prems"(1) have "bfs_loop g depth s = bfs_loop g depth (s\<lparr>queue := []\<rparr>)"
    by (intro skip_level) simp
  also have "\<dots> = s\<lparr>queue := []\<rparr>"
    by (simp add: bfs_loop.simps)
  finally show ?case
    by (simp add: d)
next
  case (Suc k)
  then have d: "d \<noteq> depth" and k: "k = nat (depth - (d + 1))" by auto
  obtain V' F' where nl: "next_level g F (visited s) = (V', F')"
    by (cases "next_level g F (visited s)")
  let ?s2 = "expand_level g d F (s\<lparr>queue := []\<rparr>)"
  from Suc.prems(1) d have "bfs_loop g depth s = bfs_loop g depth ?s2"
    by (intro loop_level) simp
  moreover have "queue ?s2 = map (\<lambda>x. (x, d + 1)) F'" and "visited ?s2 = V'"
    and "result ?s2 = result s @ F'"
    using nl by (simp_all add: expand_level_eq)
  moreover have "nat (depth - d) = Suc k"
    using Suc.hyps(2) by simp
  ultimately show ?case
    using Suc.hyps(1) [OF k, of ?s2 F'] Suc.prems(2,3) d nl by (simp add: k [symmetric])
qed

lemma get_related_files_bfs_levels:
  "get_related_files (GraphJson raw) filepath depth =
     Inr (if depth < 1 then []
          else bfs_levels (normalize_graph raw) (nat depth) [as_posix filepath] {as_posix filepath})"
proof (cases "depth < 1")
  case True
  then show ?thesis by (simp add: get_related_files_def)
next
  case False
  let ?s = "bfs_init (as_posix filepath)"
  have "result (bfs_loop (normalize_graph raw) depth ?s) =
        result ?s @ bfs_levels (normalize_graph raw) (nat (depth - 0)) [as_posix filepath] (visited ?s)"
    using False by (intro bfs_loop_levels) (simp_all add: bfs_init_def)
  with False show ?thesis
    by (simp add: get_related_files_def load_dependency_graph_def bfs_init_def)
qed

text \<open>C3: the deque-based loop of \<open>get_related_files\<close> computes exactly the
  level-by-level breadth-first search: the frontier of each level is expanded
  in order, each node's neighbours in sorted order, for \<open>depth\<close> levels.\<close>

theorem get_related_files_levels:
  "get_related_files (GraphJson raw) filepath depth =
     Inr (if depth < 1 then []
          else bfs_levels (normalize_graph raw) (nat depth) [as_posix filepath] {as_posix filepath})"
  by (rule get_related_files_bfs_levels)

lemma get_related_files_depth_lt1:
  "depth < 1 \<Longrightarrow> get_related_files f filepath depth = Inr []"
  by (simp add: get_related_files_def)

subsection \<open>Specification: the files within \<open>depth\<close> hops\<close>

text \<open>\<open>reach g a k y\<close>: there is a walk of \<open>k\<close> edges from \<open>a\<close> to
  \<open>y\<close>, an edge leading from a file to the normalised form of each entry
  of its neighbour list.\<close>

inductive reach :: "graph \<Rightarrow> path \<Rightarrow> nat \<Rightarrow> path \<Rightarrow> bool" for g a where
  reach_zero: "reach g a 0 a"
| reach_succ: "reach g a k b \<Longrightarrow> n \<in> set (graph_get g b) \<Longrightarrow> reach g a (Suc k) (as_posix n)"

definition succs :: "graph \<Rightarrow> path \<Rightarrow> path set" where
  "succs g x = as_posix ` set (graph_get g x)"

definition within :: "graph \<Rightarrow> path \<Rightarrow> nat \<Rightarrow> path set" where
  "within g a j = {y. \<exists>i \<le> j. reach g a i y}"

inductive_cases reach_ZeroE: "reach g a 0 y"
inductive_cases reach_SucE: "reach g a (Suc k) y"

lemma within_0: "within g a 0 = {a}"
  by (auto simp: within_def intro: reach.intros elim: reach_ZeroE)

lemma within_mono: "i \<le> j \<Longrightarrow> within g a i \<subseteq> within g a j"
  by (auto simp: within_def intro: le_trans)

lemma within_Suc: "within g a (Suc j) = within g a j \<union> (\<Union>x \<in> within g a j. succs g x)"
proof
  show "within g a (Suc j) \<subseteq> within g a j \<union> (\<Union>x \<in> within g a j. succs g x)"
  proof
    fix y assume "y \<in> within g a (Suc j)"
    then obtain i where i: "i \<le> Suc j" "reach g a i y" by (auto simp: within_def)
    show "y \<in> within g a j \<union> (\<Union>x \<in> within g a j. succs g x)"
    proof (cases "i = Suc j")
      case True
      with i(2) obtain b n where "reach g a j b" "n \<in> set (graph_get g b)" "y = as_posix n"
        by (auto elim: reach_SucE)
      then show ?thesis by (auto simp: within_def succs_def)
    next
      case False
      with i show ?thesis by (auto simp: within_def)
    qed
  qed
next
  have "within g a j \<subseteq> within g a (Suc j)"
    by (rule within_mono) simp
  moreover have "(\<Union>x \<in> within g a j. succs g x) \<subseteq> within g a (Suc j)"
    by (auto simp: within_def succs_def intro: reach_succ)
  ultimately show "within g a j \<union> (\<Union>x \<in> within g a j. succs g x) \<subseteq> within g a (Suc j)"
    by blast
qed

lemma fold_visit_set:
  "fold visit ns (V, acc) = (V', acc') \<Longrightarrow> set acc \<subseteq> V \<Longrightarrow> distinct acc \<Longrightarrow>
   V' = V \<union> as_posix ` set ns \<and> set acc' = set acc \<union> (V' - V) \<and> distinct acc'"
proof (induction ns arbitrary: V acc)
  case Nil
  then show ?case by simp
next
  case (Cons n ns)
  show ?case
  proof (cases "as_posix n \<in> V")
    case True
    with Cons.prems Cons.IH [of V acc] show ?thesis by auto
  next
    case False
    with Cons.prems have "fold visit ns (insert (as_posix n) V, acc @ [as_posix n]) = (V', acc')"
      by simp
    moreover from False Cons.prems(2,3) have "set (acc @ [as_posix n]) \<subseteq> insert (as_posix n) V"
      and "distinct (acc @ [as_posix n])" by auto
    ultimately have "V' = insert (as_posix n) V \<union> as_posix ` set ns \<and>
        set acc' = set (acc @ [as_posix n]) \<union> (V' - insert (as_posix n) V) \<and> distinct acc'"
      by (rule Cons.IH)
    with False show ?thesis by auto
  qed
qed

lemma fold_level_set:
  "fold (\<lambda>x. fold visit (sort (graph_get g x))) F (V, acc) = (V', acc') \<Longrightarrow>
   set acc \<subseteq> V \<Longrightarrow> distinct acc \<Longrightarrow>
   V' = V \<union> (\<Union>x \<in> set F. succs g x) \<and> set acc' = set acc \<union> (V' - V) \<and> distinct acc'"
proof (induction F arbitrary: V acc)
  case Nil
  then show ?case by simp
next
  case (Cons x F)
  obtain V1 acc1 where v1: "fold visit (sort (graph_get g x)) (V, acc) = (V1, acc1)"
    by (cases "fold visit (sort (graph_get g x)) (V, acc)")
  with Cons.prems(2,3) have h1: "V1 = V \<union> succs g x" "set acc1 = set acc \<union> (V1 - V)" "distinct acc1"
    by (auto simp: succs_def dest: fold_visit_set)
  with Cons.prems v1 have "V' = V1 \<union> (\<Union>x \<in> set F. succs g x) \<and>
      set acc' = set acc1 \<union> (V' - V1) \<and> distinct acc'"
    by (intro Cons.IH) auto
  with h1 show ?case by auto
qed

lemma next_level_set:
  "next_level g F V = (V', F') \<Longrightarrow>
   V' = V \<union> (\<Union>x \<in> set F. succs g x) \<and> set F' = V' - V \<and> distinct F'"
  unfolding next_level_def by (drule fold_level_set) simp_all

definition level_inv :: "graph \<Rightarrow> path \<Rightarrow> nat \<Rightarrow> path list \<Rightarrow> path set \<Rightarrow> bool" where
  "level_inv g a j F V \<longleftrightarrow>
     V = within g a j \<and> set F \<subseteq> V \<and> (\<forall>x \<in> V - set F. succs g x \<subseteq> V)"

lemma level_inv_init: "level_inv g a 0 [a] {a}"
  by (simp add: level_inv_def within_0)

lemma level_inv_step:
  assumes inv: "level_inv g a j F V" and nl: "next_level g F V = (V', F')"
  shows "level_inv g a (Suc j) F' V'"
proof -
  from nl have V': "V' = V \<union> (\<Union>x \<in> set F. succs g x)" and F': "set F' = V' - V"
    using next_level_set [OF nl] by blast+
  from inv have V: "V = within g a j" and FV: "set F \<subseteq> V"
    and closed: "\<forall>x \<in> V - set F. succs g x \<subseteq> V"
    unfolding level_inv_def by blast+
  have "(\<Union>x \<in> V. succs g x) \<subseteq> V \<union> (\<Union>x \<in> set F. succs g x)"
    using closed by blast
  moreover have "(\<Union>x \<in> set F. succs g x) \<subseteq> (\<Union>x \<in> V. succs g x)"
    using FV by blast
  ultimately have "V' = V \<union> (\<Union>x \<in> V. succs g x)"
    using V' by blast
  then have "V' = within g a (Suc j)"
    by (simp add: within_Suc V)
  moreover have "V' - set F' = V"
    using V' F' by blast
  then have "\<forall>x \<in> V' - set F'. succs g x \<subseteq> V'"
    using closed V' by blast
  ultimately show ?thesis
    using F' by (simp add: level_inv_def Diff_subset)
qed

lemma bfs_levels_set:
  "level_inv g a j F V \<Longrightarrow>
   set (bfs_levels g k F V) = within g a (j + k) - V \<and> distinct (bfs_levels g k F V)"
proof (induction k arbitrary: j F V)
  case 0
  then show ?case by (auto simp: level_inv_def)
next
  case (Suc k)
  obtain V' F' where nl: "next_level g F V = (V', F')"
    by (cases "next_level g F V")
  with Suc.prems have inv': "level_inv g a (Suc j) F' V'"
    by (rule level_inv_step)
  from nl have F': "set F' = V' - V" "distinct F'" and "V \<subseteq> V'"
    using next_level_set [OF nl] by blast+
  moreover from inv' have "V' \<subseteq> within g a (j + Suc k)"
    using within_mono [of "Suc j" "j + Suc k" g a] by (auto simp: level_inv_def)
  moreover note Suc.IH [OF inv']
  ultimately show ?case
    using nl by auto
qed

lemma bfs_levels_from_start:
  "set (bfs_levels g k [a] {a}) = within g a k - {a} \<and> distinct (bfs_levels g k [a] {a})"
  using bfs_levels_set [OF level_inv_init [of g a], of k] by simp

text \<open>C1: \<open>get_related_files\<close> returns exactly the files other than the start
  that are reachable from the (normalised) start file in at most \<open>depth\<close>
  steps of the normalised dependency graph: every file it returns is within
  the depth bound, and every file within the bound is returned.\<close>

theorem get_related_files_reach:
  assumes "get_related_files (GraphJson raw) filepath depth = Inr rs"
  shows "set rs = {y. y \<noteq> as_posix filepath \<and>
                     (\<exists>i \<le> nat depth. reach (normalize_graph raw) (as_posix filepath) i y)}"
proof (cases "depth < 1")
  case True
  with assms have "rs = []" by (simp add: get_related_files_bfs_levels)
  moreover from True have "nat depth = 0" by simp
  ultimately show ?thesis
    by (auto elim: reach_ZeroE)
next
  case False
  with assms have "rs = bfs_levels (normalize_graph raw) (nat depth) [as_posix filepath] {as_posix filepath}"
    by (simp add: get_related_files_bfs_levels)
  then show ?thesis
    using bfs_levels_from_start by (auto simp: within_def)
qed

theorem get_related_files_reach_witness:
  "get_related_files (GraphJson [(''A'', [''B'']), (''B'', [''C'']), (''C'', [''D''])]) ''A'' 2
     = Inr [''B'', ''C''] \<and>
   set [''B'', ''C''] = {y. y \<noteq> as_posix ''A'' \<and>
     (\<exists>i \<le> nat 2. reach (normalize_graph [(''A'', [''B'']), (''B'', [''C'']), (''C'', [''D''])])
                              (as_posix ''A'') i y)}"
proof -
  have h: "get_related_files (GraphJson [(''A'', [''B'']), (''B'', [''C'']), (''C'', [''D''])]) ''A'' 2
             = Inr [''B'', ''C'']"
    by (simp add: model_simps get_related_files_def bfs_init_def bfs_loop.simps Let_def)
  show ?thesis using h get_related_files_reach [OF h] by simp
qed

text \<open>C2: the list \<open>get_related_files\<close> returns has no duplicates, whatever
  the graph (cycles and repeated neighbours included) and the depth.\<close>

theorem get_related_files_distinct:
  assumes "get_related_files f filepath depth = Inr rs"
  shows "distinct rs"
proof (cases "depth < 1")
  case True
  with assms show ?thesis by (simp add: get_related_files_def)
next
  case False
  with assms obtain g where g: "load_dependency_graph f = Inr g"
    by (auto simp: get_related_files_def split: sum.splits)
  then obtain raw where "load_dependency_graph (GraphJson raw) = Inr g"
    using load_dependency_graph_Inr by blast
  with g assms False have "get_related_files (GraphJson raw) filepath depth = Inr rs"
    by (simp add: get_related_files_def)
  then show ?thesis
    using bfs_levels_from_start by (auto simp: get_related_files_bfs_levels split: if_splits)
qed

theorem get_related_files_distinct_witness:
  "get_related_files (GraphJson [(''A'', [''B'', ''B'']), (''B'', [''A''])]) ''A'' 5 = Inr [''B''] \<and>
   distinct [''B'']"
proof -
  have h: "get_related_files (GraphJson [(''A'', [''B'', ''B'']), (''B'', [''A''])]) ''A'' 5 = Inr [''B'']"
    by (simp add: model_simps get_related_files_def bfs_init_def bfs_loop.simps Let_def)
  show ?thesis using h get_related_files_distinct [OF h] by simp
qed

end
