(* ===== verification/GraphProperties.thy ===== *)
theory GraphProperties
  imports GraphTraversal
begin

text \<open>
  Properties of \<open>get_related_files\<close> that involve the loading of the graph
  file as well as the traversal: which inputs the result depends on
  (determinism under reordering of the JSON object and of neighbour lists),
  the error
  paths of the graph resource, and the degenerate cases of the spec (depth 0,
  a start file without entry).
\<close>

subsection \<open>The traversal depends on the neighbour multisets only\<close>

lemma bfs_loop_cong:
  "(\<And>k. mset (graph_get g1 k) = mset (graph_get g2 k)) \<Longrightarrow>
   bfs_loop g1 depth s = bfs_loop g2 depth s"
proof (induction g1 depth s rule: bfs_loop.induct)
  case (1 g1 depth s)
  show ?case
  proof (cases "queue s")
    case Nil
    then show ?thesis by (simp add: bfs_loop.simps [of g1] bfs_loop.simps [of g2])
  next
    case (Cons x q)
    obtain cur dist where x: "x = (cur, dist)" by (cases x)
    have "sort (graph_get g1 cur) = sort (graph_get g2 cur)"
      using "1.prems" by (rule sort_mset_cong)
    show ?thesis
    proof (cases "dist = depth")
      case True
      with "1.IH"(1) [OF Cons x [symmetric] True "1.prems"] Cons x show ?thesis
        by (simp add: bfs_loop.simps [of g1 depth s] bfs_loop.simps [of g2 depth s])
    next
      case False
      with "1.IH"(2) [OF Cons x [symmetric] False "1.prems"] Cons x
        \<open>sort (graph_get g1 cur) = sort (graph_get g2 cur)\<close> show ?thesis
        by (simp add: bfs_loop.simps [of g1 depth s] bfs_loop.simps [of g2 depth s])
    qed
  qed
qed

lemma get_related_files_cong:
  assumes "\<And>k. mset (graph_get (normalize_graph raw1) k) = mset (graph_get (normalize_graph raw2) k)"
  shows "get_related_files (GraphJson raw1) filepath depth = get_related_files (GraphJson raw2) filepath depth"
  using bfs_loop_cong [OF assms]
  by (simp add: get_related_files_def load_dependency_graph_def)

lemma graph_get_normalize:
  "graph_get (normalize_graph raw) k =
     (case map_of (rev (map norm_pair raw)) k of None \<Rightarrow> [] | Some vs \<Rightarrow> vs)"
  by (simp add: graph_get_def map_of_normalize_graph)

lemma distinct_norm_keys_rev:
  "distinct (map (as_posix \<circ> fst) raw) \<Longrightarrow> distinct (map fst (rev (map norm_pair raw)))"
  by (simp add: norm_pair_def rev_map [symmetric] comp_def)

text \<open>For a JSON object whose keys stay distinct after normalisation, the
  order of its items does not change the result of \<open>get_related_files\<close>.\<close>

lemma get_related_files_item_order:
  assumes perm: "mset raw1 = mset raw2"
    and keys: "distinct (map (as_posix \<circ> fst) raw1)"
  shows "get_related_files (GraphJson raw1) filepath depth = get_related_files (GraphJson raw2) filepath depth"
proof (rule get_related_files_cong)
  fix k
  have keys2: "distinct (map (as_posix \<circ> fst) raw2)"
    using keys perm by (metis mset_map mset_eq_imp_distinct_iff)
  have "set (rev (map norm_pair raw1)) = set (rev (map norm_pair raw2))"
    using perm by (metis mset_map mset_rev set_mset_mset)
  then have "map_of (rev (map norm_pair raw1)) = map_of (rev (map norm_pair raw2))"
    using map_of_inject_set [OF distinct_norm_keys_rev [OF keys] distinct_norm_keys_rev [OF keys2]]
    by simp
  then show "mset (graph_get (normalize_graph raw1) k) = mset (graph_get (normalize_graph raw2) k)"
    by (simp add: graph_get_normalize)
qed

lemma map_of_rel_mset:
  "list_all2 (\<lambda>a b. fst a = fst b \<and> mset (snd a) = mset (snd b)) xs ys \<Longrightarrow>
   rel_option (\<lambda>u v. mset u = mset v) (map_of xs k) (map_of ys k)"
  by (induction rule: list_all2_induct) auto

lemma list_all2_norm_pair:
  "list_all2 (\<lambda>a b. fst a = fst b \<and> mset (snd a) = mset (snd b)) raw1 raw2 \<Longrightarrow>
   list_all2 (\<lambda>a b. fst a = fst b \<and> mset (snd a) = mset (snd b))
     (rev (map norm_pair raw1)) (rev (map norm_pair raw2))"
  by (induction rule: list_all2_induct) (auto simp: norm_pair_def list_all2_appendI)

text \<open>C19: the order of the entries of each neighbour list in the JSON file does
  not change the result: \<open>sorted(neighbours)\<close> fixes the order in which
  neighbours are visited (spec, testable properties 1 and 4).\<close>

theorem get_related_files_neighbour_order:
  assumes "list_all2 (\<lambda>a b. fst a = fst b \<and> mset (snd a) = mset (snd b)) raw1 raw2"
  shows "get_related_files (GraphJson raw1) filepath depth = get_related_files (GraphJson raw2) filepath depth"
proof (rule get_related_files_cong)
  fix k
  have "rel_option (\<lambda>u v. mset u = mset v)
          (map_of (rev (map norm_pair raw1)) k) (map_of (rev (map norm_pair raw2)) k)"
    using map_of_rel_mset [OF list_all2_norm_pair [OF assms]] .
  then show "mset (graph_get (normalize_graph raw1) k) = mset (graph_get (normalize_graph raw2) k)"
    by (cases "map_of (rev (map norm_pair raw1)) k"; cases "map_of (rev (map norm_pair raw2)) k")
       (simp_all add: graph_get_normalize)
qed

theorem get_related_files_neighbour_order_witness:
  "list_all2 (\<lambda>a b. fst a = fst b \<and> mset (snd a) = mset (snd b))
     [(''A'', [''C'', ''B''])] [(''A'', [''B'', ''C''])] \<and>
   get_related_files (GraphJson [(''A'', [''C'', ''B''])]) ''A'' 1 =
   get_related_files (GraphJson [(''A'', [''B'', ''C''])]) ''A'' 1"
proof -
  have h: "list_all2 (\<lambda>a b. fst a = fst b \<and> mset (snd a) = mset (snd b))
             [(''A'', [''C'', ''B''])] [(''A'', [''B'', ''C''])]"
    by (simp add: add_mset_commute)
  show ?thesis using h get_related_files_neighbour_order [OF h] by simp
qed

subsection \<open>Error paths and degenerate inputs\<close>

text \<open>C22: a depth below 1 is a no-op that returns \<open>[]\<close> before the graph is
  loaded, so it succeeds even when the graph file is missing or corrupt.\<close>

theorem get_related_files_depth_zero:
  "depth < 1 \<Longrightarrow> get_related_files f filepath depth = Inr []"
  by (rule get_related_files_depth_lt1)

theorem get_related_files_depth_zero_witness:
  "(0::int) < 1 \<and> get_related_files GraphMissing ''src/a.ts'' 0 = Inr []"
  using get_related_files_depth_zero [of 0 GraphMissing "''src/a.ts''"] by simp

text \<open>C20: for a depth of at least 1 a missing or malformed graph file is an
  error of \<open>get_related_files\<close> (the exception propagates); it is never
  replaced by an empty graph.\<close>

theorem get_related_files_load_error:
  assumes "1 \<le> depth"
  shows "get_related_files GraphMissing filepath depth = Inl FileNotFoundError \<and>
         get_related_files GraphMalformed filepath depth = Inl JSONDecodeError"
  using assms by (simp add: get_related_files_def load_dependency_graph_def)

theorem get_related_files_load_error_witness:
  "(1::int) \<le> 1 \<and>
   get_related_files GraphMissing ''a.ts'' 1 = Inl FileNotFoundError \<and>
   get_related_files GraphMalformed ''a.ts'' 1 = Inl JSONDecodeError"
  using get_related_files_load_error [of 1 "''a.ts''"] by simp

lemma next_level_Nil [simp]: "next_level g [] V = (V, [])"
  by (simp add: next_level_def)

lemma bfs_levels_Nil [simp]: "bfs_levels g k [] V = []"
  by (induction k) simp_all

text \<open>C25: a start file that has no entry in the normalised graph has no
  related files, for any depth, and this is not an error (spec, testable
  property 8).\<close>

theorem get_related_files_no_entry:
  assumes "map_of (normalize_graph raw) (as_posix filepath) = None"
  shows "get_related_files (GraphJson raw) filepath depth = Inr []"
proof (cases "depth < 1")
  case True
  then show ?thesis by (simp add: get_related_files_def)
next
  case False
  then have "0 < nat depth" by simp
  then obtain k where k: "nat depth = Suc k" using gr0_implies_Suc by blast
  from assms have "next_level (normalize_graph raw) [as_posix filepath] {as_posix filepath} =
                   ({as_posix filepath}, [])"
    by (simp add: next_level_def graph_get_def)
  with False k show ?thesis
    by (simp add: get_related_files_bfs_levels)
qed

theorem get_related_files_no_entry_witness:
  "map_of (normalize_graph [(''b.ts'', [''c.ts''])]) (as_posix ''./a.ts'') = None \<and>
   get_related_files (GraphJson [(''b.ts'', [''c.ts''])]) ''./a.ts'' 3 = Inr []"
proof -
  have h: "map_of (normalize_graph [(''b.ts'', [''c.ts''])]) (as_posix ''./a.ts'') = None"
    by (simp add: model_simps)
  show ?thesis using h get_related_files_no_entry [OF h] by simp
qed

text \<open>The spec's worked examples: on the chain A, B, C, D depth 0, 1 and 2
  give [], [B] and [B, C]; on the cycle A, B, A depth 5 gives [B]; unsorted
  neighbours [C, B] of A are returned as [B, C].\<close>

lemma get_related_files_spec_examples:
  "get_related_files (GraphJson [(''A'', [''B'']), (''B'', [''C'']), (''C'', [''D''])]) ''A'' 0 = Inr [] \<and>
   get_related_files (GraphJson [(''A'', [''B'']), (''B'', [''C'']), (''C'', [''D''])]) ''A'' 1 = Inr [''B''] \<and>
   get_related_files (GraphJson [(''A'', [''B'']), (''B'', [''C'']), (''C'', [''D''])]) ''A'' 2 = Inr [''B'', ''C''] \<and>
   get_related_files (GraphJson [(''A'', [''B'']), (''B'', [''A''])]) ''A'' 5 = Inr [''B''] \<and>
   get_related_files (GraphJson [(''A'', [''C'', ''B''])]) ''A'' 1 = Inr [''B'', ''C'']"
  by (simp add: model_simps get_related_files_def bfs_init_def bfs_loop.simps Let_def)

end
