(* ===== verification/GraphTermination.thy ===== *)
theory GraphTermination
  imports GraphTraversal
begin

text \<open>
  How long the \<open>while queue\<close> loop of \<open>get_related_files\<close> runs, and what
  shape its result has.  \<open>bfs_fuel\<close> is the same loop with a step budget:
  each unit of fuel pays for one iteration, and running out of fuel gives
  \<open>None\<close>.  The loop needs at most one iteration per queue entry plus one to
  find the queue empty, and an entry is queued only when a graph node is
  visited for the first time, so one more than the queue length plus the
  number of unvisited graph nodes is enough fuel.  From the start state this
  is at most the number of distinct files in the graph plus two.
\<close>

function bfs_fuel :: "nat \<Rightarrow> graph \<Rightarrow> int \<Rightarrow> bfs_state \<Rightarrow> bfs_state option" where
  "bfs_fuel 0 g depth s = None"
| "bfs_fuel (Suc n) g depth s =
     (case queue s of
        [] \<Rightarrow> Some s
      | (current, dist) # q \<Rightarrow>
          if dist = depth then bfs_fuel n g depth (s\<lparr>queue := q\<rparr>)
          else bfs_fuel n g depth
                 (scan_neighbours (dist + 1) (sort (graph_get g current)) (s\<lparr>queue := q\<rparr>)))"
  by pat_completeness auto

termination
  by (relation "measure (\<lambda>(n, g, depth, s). n)") auto

definition loop_bound :: "graph \<Rightarrow> bfs_state \<Rightarrow> nat" where
  "loop_bound g s = length (queue s) + card (graph_nodes g - visited s)"

lemma scan_bound:
  assumes "set ns \<subseteq> set (concat (map snd g))"
  shows "length (queue (scan_neighbours d ns s)) + card (graph_nodes g - visited (scan_neighbours d ns s))
         \<le> length (queue s) + card (graph_nodes g - visited s)"
  using assms
proof (induction d ns s rule: scan_neighbours.induct)
  case (1 d s)
  then show ?case by simp
next
  case (2 d n ns s)
  let ?n = "as_posix n"
  show ?case
  proof (cases "?n \<in> visited s")
    case True
    with "2.IH"(2) "2.prems" show ?thesis by simp
  next
    case False
    let ?s = "s\<lparr>visited := insert ?n (visited s), result := result s @ [?n], queue := queue s @ [(?n, d)]\<rparr>"
    from "2.prems" have "?n \<in> graph_nodes g" by (auto simp: graph_nodes_def)
    with False have mem: "?n \<in> graph_nodes g - visited s" by blast
    have "graph_nodes g - visited ?s = (graph_nodes g - visited s) - {?n}" by auto
    with mem have "card (graph_nodes g - visited ?s) + 1 = card (graph_nodes g - visited s)"
      using card_Diff1_less [of "graph_nodes g - visited s" ?n] card_Diff_singleton [OF mem]
      by simp
    moreover from "2.IH"(1) [OF refl False] "2.prems"
    have "length (queue (scan_neighbours d ns ?s)) + card (graph_nodes g - visited (scan_neighbours d ns ?s))
          \<le> length (queue ?s) + card (graph_nodes g - visited ?s)" by simp
    ultimately show ?thesis using False by (simp add: Let_def)
  qed
qed

lemma loop_bound_pop: "queue s = x # q \<Longrightarrow> loop_bound g (s\<lparr>queue := q\<rparr>) + 1 = loop_bound g s"
  by (simp add: loop_bound_def)

lemma loop_bound_scan:
  "loop_bound g (scan_neighbours d (sort (graph_get g k)) s) \<le> loop_bound g s"
  unfolding loop_bound_def by (rule scan_bound [OF graph_get_subset_sort])

lemma bfs_fuel_enough:
  "loop_bound g s < n \<Longrightarrow> bfs_fuel n g depth s = Some (bfs_loop g depth s)"
proof (induction g depth s arbitrary: n rule: bfs_loop.induct)
  case (1 g depth s)
  from "1.prems" obtain m where n: "n = Suc m" by (cases n) auto
  show ?case
  proof (cases "queue s")
    case Nil
    then show ?thesis by (simp add: n bfs_loop.simps)
  next
    case (Cons x q)
    obtain current dist where x: "x = (current, dist)" by (cases x)
    have pop: "loop_bound g (s\<lparr>queue := q\<rparr>) < m"
      using loop_bound_pop [OF Cons, of g] "1.prems" n by simp
    show ?thesis
    proof (cases "dist = depth")
      case True
      with "1.IH"(1) [OF Cons x [symmetric] True pop] Cons x n show ?thesis
        by (simp add: bfs_loop.simps [of g depth s])
    next
      case False
      have "loop_bound g (scan_neighbours (dist + 1) (sort (graph_get g current)) (s\<lparr>queue := q\<rparr>)) < m"
        using loop_bound_scan pop by (rule le_less_trans)
      with "1.IH"(2) [OF Cons x [symmetric] False] Cons x n False show ?thesis
        by (simp add: bfs_loop.simps [of g depth s])
    qed
  qed
qed

lemma loop_bound_init: "loop_bound g (bfs_init start) < card (graph_nodes g) + 2"
proof -
  have "card (graph_nodes g - {start}) \<le> card (graph_nodes g)"
    by (rule card_Diff1_le)
  then show ?thesis by (simp add: loop_bound_def bfs_init_def)
qed

text \<open>C4: the \<open>while queue\<close> loop of \<open>get_related_files\<close> ends on every
  graph, cyclic ones included, after at most two more iterations than the
  graph has distinct files: run with that many steps it returns, with the
  state of the unbounded loop.\<close>

theorem bfs_loop_iteration_bound:
  "bfs_fuel (card (graph_nodes g) + 2) g depth (bfs_init start) = Some (bfs_loop g depth (bfs_init start))"
  by (rule bfs_fuel_enough [OF loop_bound_init])

subsection \<open>The result holds normalised paths only\<close>

definition normal_paths :: "path list \<Rightarrow> bool" where
  "normal_paths xs \<longleftrightarrow> (\<forall>x \<in> set xs. as_posix x = x)"

lemma result_scan: "set (result (scan_neighbours d ns s)) \<subseteq> set (result s) \<union> as_posix ` set ns"
  by (induction d ns s rule: scan_neighbours.induct) (auto simp: Let_def)

lemma scan_normal:
  assumes "normal_paths (result s)"
  shows "normal_paths (result (scan_neighbours d ns s))"
  unfolding normal_paths_def
proof
  fix x
  assume "x \<in> set (result (scan_neighbours d ns s))"
  with result_scan have "x \<in> set (result s) \<or> x \<in> as_posix ` set ns" by blast
  then show "as_posix x = x"
  proof
    assume "x \<in> set (result s)"
    with assms show ?thesis by (simp add: normal_paths_def)
  next
    assume "x \<in> as_posix ` set ns"
    then show ?thesis by auto
  qed
qed

lemma bfs_loop_normal:
  "normal_paths (result s) \<Longrightarrow> normal_paths (result (bfs_loop g depth s))"
proof (induction g depth s rule: bfs_loop.induct)
  case (1 g depth s)
  show ?case
  proof (cases "queue s")
    case Nil
    with "1.prems" show ?thesis by (simp add: bfs_loop.simps [of g depth s])
  next
    case (Cons x q)
    obtain current dist where x: "x = (current, dist)" by (cases x)
    show ?thesis
    proof (cases "dist = depth")
      case True
      with "1.IH"(1) [OF Cons x [symmetric] True] "1.prems" Cons x show ?thesis
        by (simp add: bfs_loop.simps [of g depth s])
    next
      case False
      from "1.prems" have "normal_paths (result (scan_neighbours (dist + 1) (sort (graph_get g current)) (s\<lparr>queue := q\<rparr>)))"
        by (simp add: scan_normal)
      with "1.IH"(2) [OF Cons x [symmetric] False] Cons x False show ?thesis
        by (simp add: bfs_loop.simps [of g depth s])
    qed
  qed
qed

text \<open>C5: every path \<open>get_related_files\<close> returns is in the normal form of
  \<open>Path.as_posix\<close>, whatever the spelling of the keys and neighbours in the
  graph file and of the start file, so \<open>rag_endpoint\<close> can look them up in
  the store as they are.\<close>

theorem get_related_files_normalised:
  "get_related_files f filepath depth = Inr rs \<Longrightarrow> \<forall>r \<in> set rs. as_posix r = r"
proof -
  assume rs: "get_related_files f filepath depth = Inr rs"
  have "normal_paths (result (bfs_loop g depth (bfs_init start)))" for g start
    by (rule bfs_loop_normal) (simp add: normal_paths_def bfs_init_def)
  with rs show ?thesis
    by (auto simp: get_related_files_def normal_paths_def split: if_splits sum.splits)
qed

theorem get_related_files_normalised_witness:
  "get_related_files (GraphJson [(''./a.ts'', [''lib//b.ts'', ''./c/../d.ts''])]) ''a.ts'' 1 = Inr [''c/../d.ts'', ''lib/b.ts''] \<and>
   as_posix ''c/../d.ts'' = ''c/../d.ts'' \<and> as_posix ''lib/b.ts'' = ''lib/b.ts''"
proof -
  have h: "get_related_files (GraphJson [(''./a.ts'', [''lib//b.ts'', ''./c/../d.ts''])]) ''a.ts'' 1 = Inr [''c/../d.ts'', ''lib/b.ts'']"
    by (simp add: model_simps get_related_files_def bfs_init_def bfs_loop.simps)
  show ?thesis using h get_related_files_normalised [OF h] by simp
qed

end
