(* ===== verification/VectorStore.thy ===== *)
theory VectorStore
  imports Prelude
begin

text \<open>
  The Qdrant collection \<open>codebase\<close> as \<open>src/rag_api/main.py\<close> uses it.  A
  point carries an id, its vector (absent in what \<open>search\<close> and \<open>scroll\<close>
  return, which do not ask for vectors) and an optional payload (\<open>hit.payload or {}\<close>); the
  payload fields \<open>path\<close> and \<open>text\<close> may be absent.  The collection is
  the list of its points in the order \<open>scroll\<close> returns them (by id).
  \<open>load_file_payload\<close> is \<open>_load_file_payload\<close> (lines 34--48): a scroll
  with the filter \<open>path == value\<close> and \<open>limit=1\<close>, then the text of the
  first match.  \<open>semantic_search\<close> is the \<open>client.search\<close> call with
  \<open>limit=10\<close> (lines 64--68); the similarity ranking of the external store is
  an input of the model.
\<close>

type_synonym vector = "number list"

record payload =
  pl_path :: "string option"
  pl_text :: "string option"

record point =
  point_id :: int
  point_vector :: "vector option"
  point_payload :: "payload option"

text \<open>\<open>hit.payload or {}\<close>.\<close>

definition payload_of :: "point \<Rightarrow> payload" where
  "payload_of p = (case point_payload p of None \<Rightarrow> \<lparr>pl_path = None, pl_text = None\<rparr> | Some pl \<Rightarrow> pl)"

text \<open>The points matched by \<open>FieldCondition(key="path", match=MatchValue(value=path))\<close>.\<close>

definition scroll_path :: "point list \<Rightarrow> path \<Rightarrow> point list" where
  "scroll_path store path = filter (\<lambda>p. pl_path (payload_of p) = Some path) store"

definition load_file_payload :: "point list \<Rightarrow> path \<Rightarrow> entry option" where
  "load_file_payload store path =
     (case scroll_path store path of
        [] \<Rightarrow> None
      | p # _ \<Rightarrow> (case pl_text (payload_of p) of None \<Rightarrow> None | Some text \<Rightarrow> Some (path, text)))"

definition semantic_search :: "(vector \<Rightarrow> point list) \<Rightarrow> vector \<Rightarrow> point list" where
  "semantic_search rank v = take 10 (rank v)"

declare payload_of_def [model_simps] scroll_path_def [model_simps]
  load_file_payload_def [model_simps] semantic_search_def [model_simps]

lemma load_file_payload_key:
  "load_file_payload store path = Some (p, text) \<Longrightarrow> p = path"
  by (auto simp: load_file_payload_def split: list.splits option.splits)

lemma load_file_payload_Some_iff:
  "load_file_payload store path = Some (path', text) \<longleftrightarrow>
   path' = path \<and>
   (\<exists>p ps. scroll_path store path = p # ps \<and> pl_text (payload_of p) = Some text)"
  by (auto simp: load_file_payload_def split: list.splits option.splits)

lemma semantic_search_length: "length (semantic_search rank v) \<le> 10"
  by (simp add: semantic_search_def)

end
