(* ===== verification/ContextAssembler.thy ===== *)
theory ContextAssembler
  imports VectorStore PathNorm
begin

text \<open>
  Steps 2 and 3 of \<open>rag_endpoint\<close> (\<open>src/rag_api/main.py\<close>, lines 70--97):
  the merge of the semantic hits, the related files of the dependency graph
  and the target file into one context list without repeated paths.  The
  local variables \<open>seen\<close> and \<open>context\<close> are the record \<open>ctx_state\<close>;
  each loop body is one step function (\<open>add_hit\<close>, \<open>add_related\<close>), the
  final block is \<open>add_target\<close>, and \<open>assemble\<close> runs them in the code's
  order.  The vector store is the point list of \<open>VectorStore\<close>.
\<close>

record ctx_state =
  seen :: "path set"
  context_list :: "entry list"

definition ctx_init :: ctx_state where
  "ctx_init = \<lparr>seen = {}, context_list = []\<rparr>"

text \<open>Lines 73--78: \<open>if path and text and path not in seen\<close>.\<close>

definition add_hit :: "point \<Rightarrow> ctx_state \<Rightarrow> ctx_state" where
  "add_hit hit st =
     (let pl = payload_of hit in
      case (pl_path pl, pl_text pl) of
        (Some path, Some text) \<Rightarrow>
          if py_truthy (Some path) \<and> py_truthy (Some text) \<and> path \<notin> seen st
          then st\<lparr>seen := insert path (seen st), context_list := context_list st @ [(path, text)]\<rparr>
          else st
      | _ \<Rightarrow> st)"

text \<open>Lines 82--90: one related file.\<close>

definition add_related :: "point list \<Rightarrow> path \<Rightarrow> ctx_state \<Rightarrow> ctx_state" where
  "add_related store rel_path st =
     (let norm_path = as_posix rel_path in
      if norm_path \<in> seen st then st
      else case load_file_payload store norm_path of
             None \<Rightarrow> st
           | Some e \<Rightarrow> st\<lparr>seen := insert norm_path (seen st), context_list := context_list st @ [e]\<rparr>)"

text \<open>Lines 92--97: the target file.\<close>

definition add_target :: "point list \<Rightarrow> string \<Rightarrow> ctx_state \<Rightarrow> ctx_state" where
  "add_target store target_file st =
     (let target_norm = as_posix target_file in
      if target_norm \<notin> seen st
      then (case load_file_payload store target_norm of
              None \<Rightarrow> st
            | Some e \<Rightarrow> st\<lparr>seen := insert target_norm (seen st), context_list := context_list st @ [e]\<rparr>)
      else st)"

definition assemble :: "point list \<Rightarrow> point list \<Rightarrow> path list \<Rightarrow> string \<Rightarrow> ctx_state" where
  "assemble store results related_files target_file =
     add_target store target_file
       (fold (add_related store) related_files (fold add_hit results ctx_init))"

declare ctx_init_def [model_simps] add_hit_def [model_simps] add_related_def [model_simps]
  add_target_def [model_simps] assemble_def [model_simps]

lemma add_target_eq_add_related: "add_target store target st = add_related store target st"
  by (simp add: add_target_def add_related_def Let_def)

subsection \<open>Invariant: \<open>seen\<close> is the set of paths of \<open>context\<close>, without repeats\<close>

definition ctx_inv :: "ctx_state \<Rightarrow> bool" where
  "ctx_inv st \<longleftrightarrow> seen st = fst ` set (context_list st) \<and> distinct (map fst (context_list st))"

lemma ctx_inv_init: "ctx_inv ctx_init"
  by (simp add: ctx_inv_def ctx_init_def)

lemma ctx_inv_add_hit: "ctx_inv st \<Longrightarrow> ctx_inv (add_hit hit st)"
  by (auto simp: ctx_inv_def add_hit_def Let_def split: option.splits)

lemma ctx_inv_add_related:
  assumes inv: "ctx_inv st"
  shows "ctx_inv (add_related store rel st)"
proof (cases "load_file_payload store (as_posix rel)")
  case None
  with inv show ?thesis by (simp add: add_related_def Let_def)
next
  case (Some e)
  then obtain t where e: "e = (as_posix rel, t)"
    by (cases e) (auto dest: load_file_payload_key)
  with Some inv show ?thesis
    by (auto simp: ctx_inv_def add_related_def Let_def)
qed

lemma ctx_inv_fold_hits: "ctx_inv st \<Longrightarrow> ctx_inv (fold add_hit hits st)"
  by (induction hits arbitrary: st) (simp_all add: ctx_inv_add_hit)

lemma ctx_inv_fold_related: "ctx_inv st \<Longrightarrow> ctx_inv (fold (add_related store) rels st)"
  by (induction rels arbitrary: st) (simp_all add: ctx_inv_add_related)

lemma ctx_inv_assemble: "ctx_inv (assemble store results related target)"
  by (simp add: assemble_def add_target_eq_add_related ctx_inv_add_related
      ctx_inv_fold_related ctx_inv_fold_hits ctx_inv_init)

subsection \<open>Abstract specification: first occurrence by path wins\<close>

text \<open>The context the spec describes (section 4.4): the candidates in order
  (usable semantic hits, then the related files found in the store, then the
  target file if found), of which the first entry for each path is kept.\<close>

fun dedup_first :: "('a \<times> 'b) list \<Rightarrow> ('a \<times> 'b) list" where
  "dedup_first [] = []"
| "dedup_first (x # xs) = x # dedup_first (filter (\<lambda>y. fst y \<noteq> fst x) xs)"

definition hit_entry :: "point \<Rightarrow> entry option" where
  "hit_entry hit =
     (case (pl_path (payload_of hit), pl_text (payload_of hit)) of
        (Some path, Some text) \<Rightarrow> if path \<noteq> [] \<and> text \<noteq> [] then Some (path, text) else None
      | _ \<Rightarrow> None)"

definition context_spec :: "point list \<Rightarrow> point list \<Rightarrow> path list \<Rightarrow> string \<Rightarrow> entry list" where
  "context_spec store results related_files target_file =
     dedup_first (List.map_filter hit_entry results @
                  List.map_filter (\<lambda>p. load_file_payload store (as_posix p))
                    (related_files @ [target_file]))"

text \<open>The same with a set of paths already taken, the shape of the loops.\<close>

fun dedup_from :: "'a set \<Rightarrow> ('a \<times> 'b) list \<Rightarrow> ('a \<times> 'b) list" where
  "dedup_from K [] = []"
| "dedup_from K (x # xs) = (if fst x \<in> K then dedup_from K xs else x # dedup_from (insert (fst x) K) xs)"

lemma dedup_from_filter: "dedup_from K xs = dedup_first (filter (\<lambda>y. fst y \<notin> K) xs)"
proof (induction xs arbitrary: K)
  case Nil
  then show ?case by simp
next
  case (Cons x xs)
  then show ?case by (simp add: filter_filter conj_commute)
qed

lemma dedup_from_append:
  "dedup_from K (xs @ ys) = dedup_from K xs @ dedup_from (K \<union> fst ` set xs) ys"
  by (induction xs arbitrary: K) (auto simp: insert_absorb)

text \<open>One step of any of the three loops: add an entry unless its path is taken.\<close>

definition add_entry :: "entry option \<Rightarrow> ctx_state \<Rightarrow> ctx_state" where
  "add_entry oe st =
     (case oe of
        None \<Rightarrow> st
      | Some e \<Rightarrow> if fst e \<in> seen st then st
                  else st\<lparr>seen := insert (fst e) (seen st), context_list := context_list st @ [e]\<rparr>)"

lemma add_hit_entry: "add_hit hit st = add_entry (hit_entry hit) st"
  by (simp add: add_hit_def hit_entry_def add_entry_def py_truthy_def Let_def
           split: option.splits)

lemma add_related_entry:
  "add_related store p st = add_entry (load_file_payload store (as_posix p)) st"
proof (cases "load_file_payload store (as_posix p)")
  case None
  then show ?thesis by (simp add: add_related_def add_entry_def Let_def)
next
  case (Some e)
  then obtain t where "e = (as_posix p, t)"
    by (cases e) (auto dest: load_file_payload_key)
  with Some show ?thesis by (simp add: add_related_def add_entry_def Let_def)
qed

lemma fold_add_entry:
  "context_list (fold add_entry es st) = context_list st @ dedup_from (seen st) (List.map_filter id es) \<and>
   seen (fold add_entry es st) = seen st \<union> fst ` set (List.map_filter id es)"
proof (induction es arbitrary: st)
  case Nil
  then show ?case by (simp add: map_filter_simps)
next
  case (Cons oe es)
  show ?case
  proof (cases oe)
    case None
    with Cons.IH [of st] show ?thesis by (simp add: add_entry_def)
  next
    case (Some e)
    with Cons.IH [of "add_entry oe st"] show ?thesis
      by (auto simp: add_entry_def insert_absorb)
  qed
qed

lemma assemble_fold:
  "assemble store results related target =
     fold add_entry (map hit_entry results @
                     map (\<lambda>p. load_file_payload store (as_posix p)) (related @ [target])) ctx_init"
proof -
  have "add_hit = (\<lambda>h. add_entry (hit_entry h))"
    by (rule ext)+ (simp add: add_hit_entry)
  moreover have "add_related store = (\<lambda>p. add_entry (load_file_payload store (as_posix p)))"
    by (rule ext)+ (simp add: add_related_entry)
  ultimately show ?thesis
    by (simp add: assemble_def add_target_eq_add_related add_related_entry fold_map comp_def)
qed

lemma map_filter_candidates:
  "List.map_filter id (map hit_entry results @
     map (\<lambda>p. load_file_payload store (as_posix p)) (related @ [target])) =
   List.map_filter hit_entry results @
   List.map_filter (\<lambda>p. load_file_payload store (as_posix p)) (related @ [target])"
  by (simp only: map_filter_append map_filter_map_id)

lemma assemble_context:
  "context_list (assemble store results related target) = context_spec store results related target"
proof -
  let ?es = "map hit_entry results @ map (\<lambda>p. load_file_payload store (as_posix p)) (related @ [target])"
  have "context_list (assemble store results related target) =
        context_list ctx_init @ dedup_from (seen ctx_init) (List.map_filter id ?es)"
    unfolding assemble_fold using fold_add_entry [of ?es ctx_init] by (rule conjunct1)
  then show ?thesis
    by (simp only: map_filter_candidates) (simp add: ctx_init_def context_spec_def dedup_from_filter)
qed

text \<open>C6: the context list that \<open>rag_endpoint\<close> assembles is the spec's
  context: semantic hits first in rank order, then the related files in the
  order \<open>get_related_files\<close> returns them, then the target file, each path
  once, at the position of its first candidate.\<close>

theorem assemble_refines_spec:
  "context_list (assemble store results related target) = context_spec store results related target"
  by (rule assemble_context)

subsection \<open>Consequences\<close>

text \<open>A point of the collection as \<open>index_codebase\<close> writes it.\<close>

definition mk_point :: "int \<Rightarrow> path \<Rightarrow> content \<Rightarrow> point" where
  "mk_point i p t = \<lparr>point_id = i, point_vector = None, point_payload = Some \<lparr>pl_path = Some p, pl_text = Some t\<rparr>\<rparr>"

text \<open>C7: the assembled context never holds two entries for one path, and
  \<open>seen\<close> is exactly the set of its paths.\<close>

theorem assemble_distinct:
  "distinct (map fst (context_list (assemble store results related target))) \<and>
   seen (assemble store results related target) = fst ` set (context_list (assemble store results related target))"
  using ctx_inv_assemble [of store results related target] by (simp add: ctx_inv_def)

lemma assemble_keys:
  "fst ` set (context_list (assemble store results related target)) =
   fst ` set (List.map_filter hit_entry results @
              List.map_filter (\<lambda>p. load_file_payload store (as_posix p)) (related @ [target]))"
proof -
  let ?es = "map hit_entry results @ map (\<lambda>p. load_file_payload store (as_posix p)) (related @ [target])"
  have "seen (assemble store results related target) = seen ctx_init \<union> fst ` set (List.map_filter id ?es)"
    unfolding assemble_fold using fold_add_entry [of ?es ctx_init] by (rule conjunct2)
  then show ?thesis
    using ctx_inv_assemble [of store results related target]
    by (simp only: map_filter_candidates) (simp add: ctx_inv_def ctx_init_def)
qed

lemma assemble_target_key:
  assumes "load_file_payload store (as_posix target) \<noteq> None"
  shows "as_posix target \<in> fst ` set (context_list (assemble store results related target))"
proof -
  from assms obtain e where e: "load_file_payload store (as_posix target) = Some e" by blast
  then obtain t where "e = (as_posix target, t)"
    by (cases e) (auto dest: load_file_payload_key)
  with e show ?thesis
    by (force simp: assemble_keys map_filter_def)
qed

text \<open>C9: the target file is in the context whenever the store holds an entry
  with its normalised path, whether or not it came as a semantic hit or a
  related file; if the store has no such entry the target is left out and
  nothing fails (spec, testable property 6).\<close>

theorem assemble_target_included:
  assumes "load_file_payload store (as_posix target) \<noteq> None"
  shows "as_posix target \<in> fst ` set (context_list (assemble store results related target))"
  using assms by (rule assemble_target_key)

theorem assemble_target_included_witness:
  "load_file_payload [mk_point 1 ''a.ts'' ''A''] (as_posix ''./a.ts'') \<noteq> None \<and>
   as_posix ''./a.ts'' \<in> fst ` set (context_list (assemble [mk_point 1 ''a.ts'' ''A''] [] [] ''./a.ts''))"
proof -
  have h: "load_file_payload [mk_point 1 ''a.ts'' ''A''] (as_posix ''./a.ts'') \<noteq> None"
    by (simp add: model_simps mk_point_def)
  show ?thesis using h assemble_target_included [OF h] by simp
qed

text \<open>The spec's example: semantic hits X and Y, related files Y and Z,
  target X give the context X, Y, Z: X keeps its semantic position, Y is not
  repeated, Z is appended, and X is not appended again.\<close>

lemma assemble_spec_example:
  "context_list
     (assemble [mk_point 1 ''X'' ''x'', mk_point 2 ''Y'' ''y'', mk_point 3 ''Z'' ''z'']
               [mk_point 1 ''X'' ''x'', mk_point 2 ''Y'' ''y''] [''Y'', ''Z''] ''X'') =
   [(''X'', ''x''), (''Y'', ''y''), (''Z'', ''z'')]"
  by (simp add: model_simps mk_point_def)

end
