(* ===== verification/PromptBuilder.thy ===== *)
theory PromptBuilder
  imports Prelude "HOL-Library.Sublist"
begin

text \<open>
  Step 4 of \<open>rag_endpoint\<close> (\<open>src/rag_api/main.py\<close>, lines 99--105): one
  block per context entry, a file label (Russian "file"), the path, a newline
  and the text, the blocks joined by newlines between the question header
  (Russian "question", then "context") and the answer cue (Russian "answer").
  The Cyrillic labels are written as their UTF-8 bytes, as \<open>string\<close> is a
  byte list in this model.
\<close>

definition nl :: string where
  "nl = [CHR 0x0A]"

definition lbl_file :: string where
  "lbl_file = ''--- '' @ [CHR 0xD1, CHR 0x84, CHR 0xD0, CHR 0xB0, CHR 0xD0, CHR 0xB9, CHR 0xD0, CHR 0xBB] @ '': ''"

definition lbl_question :: string where
  "lbl_question =
     [CHR 0xD0, CHR 0x92, CHR 0xD0, CHR 0xBE, CHR 0xD0, CHR 0xBF, CHR 0xD1, CHR 0x80,
      CHR 0xD0, CHR 0xBE, CHR 0xD1, CHR 0x81] @ '': ''"

definition lbl_context :: string where
  "lbl_context =
     [CHR 0xD0, CHR 0x9A, CHR 0xD0, CHR 0xBE, CHR 0xD0, CHR 0xBD, CHR 0xD1, CHR 0x82,
      CHR 0xD0, CHR 0xB5, CHR 0xD0, CHR 0xBA, CHR 0xD1, CHR 0x81, CHR 0xD1, CHR 0x82] @ '':''"

definition lbl_answer :: string where
  "lbl_answer = [CHR 0xD0, CHR 0x9E, CHR 0xD1, CHR 0x82, CHR 0xD0, CHR 0xB2, CHR 0xD0, CHR 0xB5,
                 CHR 0xD1, CHR 0x82] @ '':''"

text \<open>Line 100: the f-string of one block, label, path, newline, text.\<close>

definition context_part :: "entry \<Rightarrow> string" where
  "context_part e = lbl_file @ fst e @ nl @ snd e"

text \<open>Lines 101--105.\<close>

definition build_prompt :: "string \<Rightarrow> entry list \<Rightarrow> string" where
  "build_prompt question ctx =
     lbl_question @ question @ nl @ nl @ lbl_context @ nl @
     join_sep nl (map context_part ctx) @ nl @ nl @ lbl_answer"

declare nl_def [model_simps] lbl_file_def [model_simps] lbl_question_def [model_simps]
  lbl_context_def [model_simps] lbl_answer_def [model_simps] context_part_def [model_simps]
  build_prompt_def [model_simps]

lemma length_join_sep:
  "length (join_sep sep xs) = sum_list (map length xs) + length sep * (length xs - 1)"
  by (induction sep xs rule: join_sep.induct) (simp_all add: algebra_simps)

lemma sublist_join_sep: "x \<in> set xs \<Longrightarrow> sublist x (join_sep sep xs)"
proof (induction sep xs rule: join_sep.induct)
  case (3 sep y z zs)
  show ?case
  proof (cases "x = y")
    case True
    then show ?thesis by (simp add: sublist_def) (metis append.right_neutral append_Nil)
  next
    case False
    with "3.prems" have "sublist x (join_sep sep (z # zs))" by (intro "3.IH") simp
    then obtain ps ss where "join_sep sep (z # zs) = ps @ x @ ss" by (auto simp: sublist_def)
    then have "join_sep sep (y # z # zs) = (y @ sep @ ps) @ x @ ss" by simp
    then show ?thesis by (metis sublist_appendI)
  qed
qed simp_all

lemma context_part_in_prompt:
  "e \<in> set ctx \<Longrightarrow> sublist (context_part e) (build_prompt question ctx)"
proof -
  assume "e \<in> set ctx"
  then have "sublist (context_part e) (join_sep nl (map context_part ctx))"
    by (intro sublist_join_sep) simp
  then obtain ps ss where "join_sep nl (map context_part ctx) = ps @ context_part e @ ss"
    by (auto simp: sublist_def)
  then have "build_prompt question ctx =
      (lbl_question @ question @ nl @ nl @ lbl_context @ nl @ ps) @ context_part e @
      (ss @ nl @ nl @ lbl_answer)"
    by (simp add: build_prompt_def)
  then show ?thesis by (metis sublist_appendI)
qed

text \<open>C29: nothing is truncated or dropped: the prompt is exactly as long as
  the question, every path and every text together with the fixed labels and
  separators, whatever the size of the context.\<close>

theorem build_prompt_length:
  "length (build_prompt question ctx) =
     length question + (\<Sum>e \<leftarrow> ctx. length (fst e) + length (snd e)) +
     15 * length ctx + (length ctx - 1) + 47"
proof -
  have "sum_list (map (length \<circ> context_part) ctx) = (\<Sum>e \<leftarrow> ctx. length (fst e) + length (snd e)) + 15 * length ctx"
    by (induction ctx) (simp_all add: context_part_def lbl_file_def nl_def)
  then show ?thesis
    by (simp add: build_prompt_def length_join_sep lbl_question_def lbl_context_def lbl_answer_def nl_def)
qed

text \<open>C35: the file labels do not delimit the entries: wherever a file's
  text contains a newline followed by the file label, a path and a newline,
  the prompt is the same as for the context in which that file is cut there
  into two entries, the second one under the embedded path.  A repository
  file can so impersonate another file, and the generation model cannot
  tell the two contexts apart.\<close>

theorem build_prompt_not_injective:
  "build_prompt q (xs @ (p1, t1 @ nl @ lbl_file @ p2 @ nl @ t2) # ys) =
   build_prompt q (xs @ (p1, t1) # (p2, t2) # ys)"
proof -
  have "context_part (p1, t1 @ nl @ lbl_file @ p2 @ nl @ t2) = context_part (p1, t1) @ nl @ context_part (p2, t2)"
    by (simp add: context_part_def)
  then show ?thesis
    by (simp add: build_prompt_def join_sep_split)
qed

end
