(* ===== verification/RagApi.thy ===== *)
theory RagApi
  imports GraphTraversal ContextAssembler PromptBuilder
begin

text \<open>
  The request handlers of \<open>src/rag_api/main.py\<close>.  \<open>rag_endpoint\<close>
  (lines 51--119) embeds the question, searches the store, merges the
  semantic hits, the related files of \<open>get_related_files\<close> and the target
  file, renders the prompt and asks the chat model.  The external services
  are the fields of \<open>rag_env\<close>: the embedding service (\<open>None\<close> for a
  failed HTTP call, \<open>raise_for_status\<close>, or a response without
  \<open>data[0].embedding\<close>), the Qdrant collection (\<open>None\<close> when unreachable),
  its similarity ranking, the graph file, and the chat service (\<open>None\<close>
  for a failed call).  Every exception the handler lets escape is a value of
  \<open>rag_error\<close>.  Theory \<open>LmStudio\<close> builds these fields from the HTTP
  calls of the code, and theory \<open>ZedProxy\<close> models the second handler.
\<close>

record rag_request =
  question :: string
  target_file :: string
  depth :: int

record chat_request =
  chat_model :: string
  chat_role :: string
  chat_content :: string

record rag_env =
  env_embed :: "string \<Rightarrow> string \<Rightarrow> vector option"
  env_store :: "point list option"
  env_rank :: "vector \<Rightarrow> point list"
  env_graph :: graph_file
  env_chat :: "chat_request \<Rightarrow> string option"

datatype rag_error =
    EmbeddingError
  | QdrantError
  | GraphError graph_error
  | ChatError

definition embedding_model :: string where
  "embedding_model = ''nomic-embed-text''"

definition chat_model_name :: string where
  "chat_model_name = ''gemma:3n''"

text \<open>Step 5 (lines 107--117), with the constant temperature 0.4 left out of
  the request record.\<close>

definition chat_call :: "rag_env \<Rightarrow> string \<Rightarrow> rag_error + string" where
  "chat_call env prompt =
     (case env_chat env \<lparr>chat_model = chat_model_name, chat_role = ''user'', chat_content = prompt\<rparr> of
        None \<Rightarrow> Inl ChatError
      | Some answer \<Rightarrow> Inr answer)"

definition rag_endpoint :: "rag_env \<Rightarrow> rag_request \<Rightarrow> rag_error + string" where
  "rag_endpoint env req =
     (case env_embed env embedding_model (question req) of
        None \<Rightarrow> Inl EmbeddingError
      | Some question_emb \<Rightarrow>
          (case env_store env of
             None \<Rightarrow> Inl QdrantError
           | Some store \<Rightarrow>
               (let results = semantic_search (env_rank env) question_emb;
                    st = fold add_hit results ctx_init
                in case get_related_files (env_graph env) (target_file req) (depth req) of
                     Inl e \<Rightarrow> Inl (GraphError e)
                   | Inr related_files \<Rightarrow>
                       (let st' = add_target store (target_file req)
                                    (fold (add_related store) related_files st)
                        in chat_call env (build_prompt (question req) (context_list st'))))))"

declare embedding_model_def [model_simps] chat_model_name_def [model_simps]
  chat_call_def [model_simps] rag_endpoint_def [model_simps]

text \<open>The handler in terms of the assembler of \<open>ContextAssembler\<close>.\<close>

lemma rag_endpoint_assemble:
  "rag_endpoint env req =
     (case env_embed env embedding_model (question req) of
        None \<Rightarrow> Inl EmbeddingError
      | Some v \<Rightarrow>
          (case env_store env of
             None \<Rightarrow> Inl QdrantError
           | Some store \<Rightarrow>
               (case get_related_files (env_graph env) (target_file req) (depth req) of
                  Inl e \<Rightarrow> Inl (GraphError e)
                | Inr related \<Rightarrow>
                    chat_call env (build_prompt (question req)
                      (context_list (assemble store (semantic_search (env_rank env) v) related
                                       (target_file req)))))))"
  by (simp add: rag_endpoint_def assemble_def Let_def split: option.split sum.split)

subsection \<open>Properties of rag_endpoint\<close>

text \<open>A concrete environment for the witnesses: a store with one file
  \<open>a.ts\<close>, a ranking that returns it, no graph entries, and a chat service
  that echoes the length of its prompt.\<close>

definition demo_env :: rag_env where
  "demo_env =
     \<lparr>env_embed = (\<lambda>m q. Some [(1, 0)]), env_store = Some [mk_point 1 ''a.ts'' ''A''],
      env_rank = (\<lambda>v. [mk_point 1 ''a.ts'' ''A'']), env_graph = GraphJson [(''a.ts'', [''b.ts''])],
      env_chat = (\<lambda>r. Some (if chat_model r = ''gemma:3n'' then ''ok'' else ''wrong model''))\<rparr>"

text \<open>C8: when the embedding, the store and the graph file are available,
  \<open>rag_endpoint\<close> sends the chat model the prompt built from the spec's
  context (first 10 semantic hits, then related files, then the target,
  first entry per path) and returns its answer.\<close>

theorem rag_endpoint_pipeline:
  assumes "env_embed env embedding_model (question req) = Some v"
    and "env_store env = Some store"
    and "get_related_files (env_graph env) (target_file req) (depth req) = Inr related"
  shows "rag_endpoint env req =
           chat_call env (build_prompt (question req)
             (context_spec store (take 10 (env_rank env v)) related (target_file req)))"
  using assms by (simp add: rag_endpoint_assemble assemble_context semantic_search_def)

theorem rag_endpoint_pipeline_witness:
  "env_embed demo_env embedding_model ''q'' = Some [(1, 0)] \<and>
   env_store demo_env = Some [mk_point 1 ''a.ts'' ''A''] \<and>
   get_related_files (env_graph demo_env) ''a.ts'' 1 = Inr [''b.ts''] \<and>
   rag_endpoint demo_env \<lparr>question = ''q'', target_file = ''a.ts'', depth = 1\<rparr> =
     chat_call demo_env (build_prompt ''q''
       (context_spec [mk_point 1 ''a.ts'' ''A''] (take 10 (env_rank demo_env [(1, 0)])) [''b.ts''] ''a.ts''))"
proof -
  have h1: "env_embed demo_env embedding_model (question \<lparr>question = ''q'', target_file = ''a.ts'', depth = 1\<rparr>) = Some [(1, 0)]"
    by (simp add: demo_env_def)
  have h2: "env_store demo_env = Some [mk_point 1 ''a.ts'' ''A'']"
    by (simp add: demo_env_def)
  have h3: "get_related_files (env_graph demo_env) (target_file \<lparr>question = ''q'', target_file = ''a.ts'', depth = 1\<rparr>)
              (depth \<lparr>question = ''q'', target_file = ''a.ts'', depth = 1\<rparr>) = Inr [''b.ts'']"
    by (simp add: demo_env_def model_simps get_related_files_def bfs_init_def bfs_loop.simps)
  show ?thesis using h1 h2 h3 rag_endpoint_pipeline [OF h1 h2 h3] by simp
qed

text \<open>C23: with a depth below 1 the graph file is never read: the answer is
  the same whatever the graph resource holds, missing or corrupt included.\<close>

theorem rag_endpoint_depth_zero_graph_unused:
  "depth req < 1 \<Longrightarrow> rag_endpoint (env\<lparr>env_graph := f\<rparr>) req = rag_endpoint env req"
  by (simp add: rag_endpoint_assemble get_related_files_depth_lt1 chat_call_def split: option.split)

theorem rag_endpoint_depth_zero_graph_unused_witness:
  "depth \<lparr>question = ''q'', target_file = ''a.ts'', depth = 0\<rparr> < 1 \<and>
   rag_endpoint (demo_env\<lparr>env_graph := GraphMissing\<rparr>) \<lparr>question = ''q'', target_file = ''a.ts'', depth = 0\<rparr> =
   rag_endpoint demo_env \<lparr>question = ''q'', target_file = ''a.ts'', depth = 0\<rparr>"
  using rag_endpoint_depth_zero_graph_unused [where req = "\<lparr>question = ''q'', target_file = ''a.ts'', depth = 0\<rparr>" and env = demo_env and f = GraphMissing]
  by simp

text \<open>C24: a failed embedding call ends the request with an error before the
  store, the graph file or the chat model is used.\<close>

theorem rag_endpoint_embedding_error:
  "env_embed env embedding_model (question req) = None \<Longrightarrow> rag_endpoint env req = Inl EmbeddingError"
  by (simp add: rag_endpoint_def)

theorem rag_endpoint_embedding_error_witness:
  "env_embed (demo_env\<lparr>env_embed := (\<lambda>m q. None)\<rparr>) embedding_model ''q'' = None \<and>
   rag_endpoint (demo_env\<lparr>env_embed := (\<lambda>m q. None)\<rparr>) \<lparr>question = ''q'', target_file = ''a.ts'', depth = 1\<rparr> =
     Inl EmbeddingError"
  using rag_endpoint_embedding_error [of "demo_env\<lparr>env_embed := (\<lambda>m q. None)\<rparr>"
          "\<lparr>question = ''q'', target_file = ''a.ts'', depth = 1\<rparr>"]
  by simp

text \<open>C21: a missing graph file is fatal for a request that needs traversal:
  after a successful embedding and search, a depth of at least 1 and a
  missing \<open>dependency_graph.json\<close> give \<open>FileNotFoundError\<close>, whatever the
  chat service would answer; the core does not fall back to an empty graph.\<close>

theorem rag_endpoint_graph_error:
  assumes "env_embed env embedding_model (question req) = Some v"
    and "env_store env = Some store" and "1 \<le> depth req" and "env_graph env = GraphMissing"
  shows "rag_endpoint env req = Inl (GraphError FileNotFoundError)"
  using assms by (simp add: rag_endpoint_def get_related_files_def load_dependency_graph_def)

theorem rag_endpoint_graph_error_witness:
  "env_embed (demo_env\<lparr>env_graph := GraphMissing\<rparr>) embedding_model ''q'' = Some [(1, 0)] \<and>
   env_store (demo_env\<lparr>env_graph := GraphMissing\<rparr>) = Some [mk_point 1 ''a.ts'' ''A''] \<and>
   (1::int) \<le> 1 \<and> env_graph (demo_env\<lparr>env_graph := GraphMissing\<rparr>) = GraphMissing \<and>
   rag_endpoint (demo_env\<lparr>env_graph := GraphMissing\<rparr>) \<lparr>question = ''q'', target_file = ''a.ts'', depth = 1\<rparr> =
     Inl (GraphError FileNotFoundError)"
proof -
  let ?env = "demo_env\<lparr>env_graph := GraphMissing\<rparr>"
  let ?req = "\<lparr>question = ''q'', target_file = ''a.ts'', depth = 1\<rparr>"
  have h1: "env_embed ?env embedding_model (question ?req) = Some [(1, 0)]" by (simp add: demo_env_def)
  have h2: "env_store ?env = Some [mk_point 1 ''a.ts'' ''A'']" by (simp add: demo_env_def)
  have h3: "1 \<le> depth ?req" by simp
  have h4: "env_graph ?env = GraphMissing" by simp
  show ?thesis using h1 h2 h3 h4 rag_endpoint_graph_error [OF h1 h2 h3 h4] by simp
qed

lemma rag_endpoint_target_prompt:
  assumes "env_embed env embedding_model (question req) = Some v"
    and "env_store env = Some store"
    and "get_related_files (env_graph env) (target_file req) (depth req) = Inr related"
    and "load_file_payload store (as_posix (target_file req)) \<noteq> None"
  shows "\<exists>prompt t. rag_endpoint env req = chat_call env prompt \<and>
           sublist (context_part (as_posix (target_file req), t)) prompt"
proof -
  let ?ctx = "context_list (assemble store (semantic_search (env_rank env) v) related (target_file req))"
  have "as_posix (target_file req) \<in> fst ` set ?ctx"
    using assms(4) by (rule assemble_target_key)
  then obtain t where "(as_posix (target_file req), t) \<in> set ?ctx" by force
  then have "sublist (context_part (as_posix (target_file req), t)) (build_prompt (question req) ?ctx)"
    by (rule context_part_in_prompt)
  moreover have "rag_endpoint env req = chat_call env (build_prompt (question req) ?ctx)"
    using assms(1-3) by (simp add: rag_endpoint_assemble)
  ultimately show ?thesis by blast
qed

text \<open>C10: whenever the store holds an entry for the normalised target path
  and the request gets as far as the chat call, the prompt sent to the chat
  model contains a complete block for the target file.\<close>

theorem rag_endpoint_target_in_prompt:
  assumes "env_embed env embedding_model (question req) = Some v"
    and "env_store env = Some store"
    and "get_related_files (env_graph env) (target_file req) (depth req) = Inr related"
    and "load_file_payload store (as_posix (target_file req)) \<noteq> None"
  shows "\<exists>prompt t. rag_endpoint env req = chat_call env prompt \<and>
           sublist (context_part (as_posix (target_file req), t)) prompt"
  using assms by (rule rag_endpoint_target_prompt)

theorem rag_endpoint_target_in_prompt_witness:
  "env_embed demo_env embedding_model ''q'' = Some [(1, 0)] \<and>
   env_store demo_env = Some [mk_point 1 ''a.ts'' ''A''] \<and>
   get_related_files (env_graph demo_env) ''a.ts'' 1 = Inr [''b.ts''] \<and>
   load_file_payload [mk_point 1 ''a.ts'' ''A''] (as_posix ''a.ts'') \<noteq> None \<and>
   (\<exists>prompt t. rag_endpoint demo_env \<lparr>question = ''q'', target_file = ''a.ts'', depth = 1\<rparr> =
        chat_call demo_env prompt \<and> sublist (context_part (as_posix ''a.ts'', t)) prompt)"
proof -
  let ?req = "\<lparr>question = ''q'', target_file = ''a.ts'', depth = 1\<rparr>"
  have h1: "env_embed demo_env embedding_model (question ?req) = Some [(1, 0)]"
    by (simp add: demo_env_def)
  have h2: "env_store demo_env = Some [mk_point 1 ''a.ts'' ''A'']"
    by (simp add: demo_env_def)
  have h3: "get_related_files (env_graph demo_env) (target_file ?req) (depth ?req) = Inr [''b.ts'']"
    by (simp add: demo_env_def model_simps get_related_files_def bfs_init_def bfs_loop.simps)
  have h4: "load_file_payload [mk_point 1 ''a.ts'' ''A''] (as_posix (target_file ?req)) \<noteq> None"
    by (simp add: model_simps mk_point_def)
  show ?thesis using h1 h2 h3 h4 rag_endpoint_target_in_prompt [OF h1 h2 h3 h4] by simp
qed

end
