(* ===== verification/Indexer.thy ===== *)
theory Indexer
  imports VectorStore "HOL-Library.AList" "HOL-Library.Sublist"
begin

text \<open>
  \<open>src/indexer/index_codebase.py\<close>: the batch job that fills the Qdrant
  collection the retriever reads, from the collection creation on
  (\<open>index_files\<close>, lines 43--64); theory \<open>IndexerMain\<close> adds the
  reading of the configuration.  Here the files and a list of string ignore
  patterns are inputs; the file system, the embedding call, Python's
  \<open>hash\<close> of a path (salted per process) and whether the store accepts a
  point id and vector are the fields of \<open>index_env\<close>, together with
  whether Qdrant answers \<open>get_collections\<close> and accepts
  \<open>recreate_collection\<close>: when either call raises, \<open>index_files\<close> is
  \<open>None\<close>, and otherwise it runs the loop \<open>index_each\<close> to the end.  The
  collection is an association list from point ids to points (an upsert
  replaces the point with the same id); \<open>store_points\<close> lists it in id
  order, the order of Qdrant's \<open>scroll\<close>.  Each failing file is recorded in
  \<open>ix_log\<close>, as the \<open>except\<close> branch prints it, and the loop goes on.
\<close>

record index_env =
  ix_read :: "path \<Rightarrow> content option"
  ix_embed :: "content \<Rightarrow> vector option"
  ix_hash :: "path \<Rightarrow> int"
  ix_accepts :: "int \<Rightarrow> vector \<Rightarrow> bool"
  ix_reachable :: bool
  ix_create_ok :: bool

record index_state =
  ix_collections :: "string set"
  ix_points :: "(int \<times> point) list"
  ix_log :: "path list"

definition collection_name :: string where
  "collection_name = ''codebase''"

definition vector_size :: nat where
  "vector_size = 768"

text \<open>Lines 32--33: \<open>any(str(path).startswith(p) for p in ignore_patterns)\<close>.\<close>

definition should_ignore :: "path \<Rightarrow> string list \<Rightarrow> bool" where
  "should_ignore p ignore_patterns = (\<exists>pat \<in> set ignore_patterns. prefix pat p)"

text \<open>Lines 43--47: create the collection when it does not exist
  (\<open>recreate_collection\<close> starts it empty).  \<open>get_collections()\<close> raises
  when Qdrant is unreachable (\<open>ix_reachable\<close>), and so may
  \<open>recreate_collection\<close> (\<open>ix_create_ok\<close>); either exception ends the
  run before any file is read, which is \<open>None\<close>.\<close>

definition ensure_collection :: "index_env \<Rightarrow> index_state \<Rightarrow> index_state option" where
  "ensure_collection env st =
     (if \<not> ix_reachable env then None
      else if collection_name \<in> ix_collections st then Some st
      else if ix_create_ok env
      then Some (st\<lparr>ix_collections := insert collection_name (ix_collections st), ix_points := []\<rparr>)
      else None)"

text \<open>Lines 58--60: the point written for a file.\<close>

definition file_point :: "index_env \<Rightarrow> path \<Rightarrow> content \<Rightarrow> vector \<Rightarrow> point" where
  "file_point env f content embedding =
     \<lparr>point_id = ix_hash env f, point_vector = Some embedding,
      point_payload = Some \<lparr>pl_path = Some f, pl_text = Some content\<rparr>\<rparr>"

text \<open>Lines 52--64: the \<open>try\<close> block and its handler.\<close>

definition index_body :: "index_env \<Rightarrow> index_state \<Rightarrow> path \<Rightarrow> index_state" where
  "index_body env st f =
     (let failed = st\<lparr>ix_log := ix_log st @ [f]\<rparr> in
      case ix_read env f of
        None \<Rightarrow> failed
      | Some content \<Rightarrow>
          (case ix_embed env content of
             None \<Rightarrow> failed
           | Some embedding \<Rightarrow>
               if ix_accepts env (ix_hash env f) embedding
               then st\<lparr>ix_points := AList.update (ix_hash env f) (file_point env f content embedding) (ix_points st)\<rparr>
               else failed))"

text \<open>Lines 50--64: one iteration of the loop.\<close>

definition index_file :: "index_env \<Rightarrow> string list \<Rightarrow> index_state \<Rightarrow> path \<Rightarrow> index_state" where
  "index_file env ignore_patterns st f =
     (if should_ignore f ignore_patterns then st else index_body env st f)"

text \<open>Lines 49--64: the loop over the files.\<close>

definition index_each :: "index_env \<Rightarrow> path list \<Rightarrow> string list \<Rightarrow> index_state \<Rightarrow> index_state" where
  "index_each env files ignore_patterns st = fold (\<lambda>f st. index_file env ignore_patterns st f) files st"

text \<open>Lines 43--64: the collection, then the loop; \<open>None\<close> when the
  collection step raised.\<close>

definition index_files :: "index_env \<Rightarrow> path list \<Rightarrow> string list \<Rightarrow> index_state \<Rightarrow> index_state option" where
  "index_files env files ignore_patterns st =
     (case ensure_collection env st of
        None \<Rightarrow> None
      | Some st0 \<Rightarrow> Some (index_each env files ignore_patterns st0))"

definition store_points :: "index_state \<Rightarrow> point list" where
  "store_points st = map snd (sort_key fst (ix_points st))"

text \<open>Whether the \<open>try\<close> block of lines 52--61 completes for a file:
  \<open>read_text\<close>, \<open>get_embedding\<close> and \<open>upsert\<close> all succeed.\<close>

definition index_ok :: "index_env \<Rightarrow> path \<Rightarrow> bool" where
  "index_ok env f =
     (case ix_read env f of
        None \<Rightarrow> False
      | Some content \<Rightarrow>
          (case ix_embed env content of
             None \<Rightarrow> False
           | Some embedding \<Rightarrow> ix_accepts env (ix_hash env f) embedding))"

declare collection_name_def [model_simps] vector_size_def [model_simps] should_ignore_def [model_simps]
  ensure_collection_def [model_simps] file_point_def [model_simps] index_body_def [model_simps] index_file_def [model_simps]
  index_each_def [model_simps] index_files_def [model_simps] store_points_def [model_simps] index_ok_def [model_simps]

subsection \<open>One iteration\<close>

definition stored :: "index_env \<Rightarrow> string list \<Rightarrow> path \<Rightarrow> bool" where
  "stored env ignore_patterns f \<longleftrightarrow> \<not> should_ignore f ignore_patterns \<and> index_ok env f"

definition new_point :: "index_env \<Rightarrow> path \<Rightarrow> int \<times> point" where
  "new_point env f =
     (let content = the (ix_read env f) in
      (ix_hash env f, file_point env f content (the (ix_embed env content))))"

lemma index_file_log:
  "ix_log (index_file env ig st f) = ix_log st @ (if should_ignore f ig \<or> index_ok env f then [] else [f])"
  by (simp add: index_file_def index_body_def index_ok_def Let_def split: option.split)

lemma index_file_points:
  "ix_points (index_file env ig st f) =
     (if stored env ig f then AList.update (fst (new_point env f)) (snd (new_point env f)) (ix_points st)
      else ix_points st)"
  by (auto simp: index_file_def index_body_def index_ok_def stored_def new_point_def Let_def split: option.split)

lemma index_file_collections [simp]:
  "ix_collections (index_file env ig st f) = ix_collections st"
  by (simp add: index_file_def index_body_def Let_def split: option.split)

subsection \<open>The whole loop\<close>

lemma fold_index_log:
  "ix_log (fold (\<lambda>f st. index_file env ig st f) files st) =
     ix_log st @ filter (\<lambda>f. \<not> should_ignore f ig \<and> \<not> index_ok env f) files"
  by (induction files arbitrary: st) (simp_all add: index_file_log)

lemma fold_index_points:
  "map_of (ix_points (fold (\<lambda>f st. index_file env ig st f) files st)) =
     map_of (ix_points st) ++ map_of (rev (map (new_point env) (filter (stored env ig) files)))"
proof (induction files arbitrary: st)
  case Nil
  then show ?case by simp
next
  case (Cons f files)
  have step: "map_of (ix_points (index_file env ig st f)) =
        map_of (ix_points st) ++ map_of (if stored env ig f then [new_point env f] else [])"
    by (simp add: index_file_points update_conv' prod.case_eq_if)
  have "map_of (rev (map (new_point env) (filter (stored env ig) (f # files)))) =
        map_of (if stored env ig f then [new_point env f] else []) ++
        map_of (rev (map (new_point env) (filter (stored env ig) files)))"
    by (simp only: map_of_append [symmetric]) simp
  then show ?case
    by (simp only: fold.simps o_apply Cons.IH step map_add_assoc)
qed

lemma fold_index_distinct:
  "distinct (map fst (ix_points st)) \<Longrightarrow>
   distinct (map fst (ix_points (fold (\<lambda>f st. index_file env ig st f) files st)))"
  by (induction files arbitrary: st) (simp_all add: index_file_points distinct_update)

text \<open>The loop over an empty collection: every point is the point of a
  stored file, under the id of its path.\<close>

lemma index_fresh_points:
  assumes "ix_points st = []"
  shows "distinct (map fst (ix_points (index_each env files ig st)))"
    and "map_of (ix_points (index_each env files ig st)) =
         map_of (rev (map (new_point env) (filter (stored env ig) files)))"
  using assms by (simp_all add: index_each_def fold_index_distinct fold_index_points)

lemma index_fresh_point_set:
  assumes "ix_points st = []"
    and "(k, q) \<in> set (ix_points (index_each env files ig st))"
  shows "\<exists>g \<in> set files. stored env ig g \<and> (k, q) = new_point env g"
proof -
  from index_fresh_points [OF assms(1)] assms(2)
  have "map_of (rev (map (new_point env) (filter (stored env ig) files))) k = Some q"
    by (metis map_of_is_SomeI)
  then have "(k, q) \<in> set (map (new_point env) (filter (stored env ig) files))"
    by (metis map_of_SomeD set_rev)
  then show ?thesis by auto
qed

lemma index_fresh_lookup:
  assumes "ix_points st = []"
    and "inj_on (ix_hash env) (set files)" and "f \<in> set files" and "stored env ig f"
  shows "(ix_hash env f, snd (new_point env f)) \<in> set (ix_points (index_each env files ig st))"
proof -
  let ?L = "rev (map (new_point env) (filter (stored env ig) files))"
  have "ix_hash env f \<in> fst ` set ?L"
    using assms(3,4) by (force simp: new_point_def Let_def)
  then obtain q where q: "map_of ?L (ix_hash env f) = Some q"
    by (metis dom_map_of_conv_image_fst domD)
  then have "(ix_hash env f, q) \<in> set (map (new_point env) (filter (stored env ig) files))"
    by (metis map_of_SomeD set_rev)
  then obtain g where "g \<in> set files" "ix_hash env g = ix_hash env f"
    and "q = snd (new_point env g)"
    by (auto simp: new_point_def Let_def)
  with assms(2,3) have "q = snd (new_point env f)"
    by (metis inj_on_eq_iff)
  with q index_fresh_points [OF assms(1)] show ?thesis
    by (metis map_of_SomeD)
qed

lemma distinct_singleton_set:
  assumes "distinct ys" and "set ys = {a}"
  shows "ys = [a]"
proof -
  from assms have "length ys = 1" by (metis distinct_card is_singletonI is_singleton_altdef)
  then obtain b where "ys = [b]" by (metis length_0_conv length_Suc_conv One_nat_def)
  with assms(2) show ?thesis by simp
qed

lemma new_point_path:
  "pl_path (payload_of (snd (new_point env g))) = Some f \<longleftrightarrow> g = f"
  by (simp add: new_point_def Let_def file_point_def payload_of_def)

lemma index_fresh_scroll:
  assumes fresh: "ix_points st = []"
    and inj: "inj_on (ix_hash env) (set files)" and f: "f \<in> set files" "stored env ig f"
  shows "scroll_path (store_points (index_each env files ig st)) f = [snd (new_point env f)]"
proof -
  let ?pts = "sort_key fst (ix_points (index_each env files ig st))"
  let ?Q = "\<lambda>q. pl_path (payload_of q) = Some f"
  have dist: "distinct ?pts"
    using index_fresh_points(1) [OF fresh] by (simp add: distinct_map)
  have "set (filter (?Q \<circ> snd) ?pts) = {new_point env f}"
  proof
    show "set (filter (?Q \<circ> snd) ?pts) \<subseteq> {new_point env f}"
    proof
      fix x
      assume x: "x \<in> set (filter (?Q \<circ> snd) ?pts)"
      obtain k q where kq: "x = (k, q)" by (cases x)
      from x kq have mem: "(k, q) \<in> set (ix_points (index_each env files ig st))"
        and "?Q q" by simp_all
      from index_fresh_point_set [OF fresh mem] obtain g
        where "(k, q) = new_point env g" by blast
      moreover from this \<open>?Q q\<close> have "g = f"
        using new_point_path [of env g f] by (metis snd_conv)
      ultimately show "x \<in> {new_point env f}" by (simp add: kq)
    qed
    show "{new_point env f} \<subseteq> set (filter (?Q \<circ> snd) ?pts)"
      using index_fresh_lookup [OF fresh inj f] new_point_path [of env f f]
      by (simp add: new_point_def Let_def)
  qed
  with dist have "filter (?Q \<circ> snd) ?pts = [new_point env f]"
    by (simp add: distinct_singleton_set)
  then show ?thesis
    by (simp add: scroll_path_def store_points_def filter_map)
qed


lemma index_each_log:
  "ix_log (index_each env files ig st) =
     ix_log st @ filter (\<lambda>f. \<not> should_ignore f ig \<and> \<not> index_ok env f) files"
  by (simp add: index_each_def fold_index_log)

lemma ensure_collection_log: "ensure_collection env st = Some st0 \<Longrightarrow> ix_log st0 = ix_log st"
  by (auto simp: ensure_collection_def split: if_splits)

lemma ensure_collection_fresh:
  "collection_name \<notin> ix_collections st \<Longrightarrow> ensure_collection env st = Some st0 \<Longrightarrow> ix_points st0 = []"
  by (auto simp: ensure_collection_def split: if_splits)

lemma ensure_collection_created:
  "ix_reachable env \<Longrightarrow> ix_create_ok env \<Longrightarrow> \<exists>st0. ensure_collection env st = Some st0"
  by (simp add: ensure_collection_def)

lemma index_each_ignored_log:
  "should_ignore f ig \<Longrightarrow> count_list (ix_log (index_each env files ig st)) f = count_list (ix_log st) f"
proof -
  assume "should_ignore f ig"
  then have "count_list (filter (\<lambda>g. \<not> should_ignore g ig \<and> \<not> index_ok env g) files) f = 0"
    by (induction files) auto
  then show ?thesis
    by (simp add: index_each_log)
qed

lemma index_each_load:
  assumes "ix_points st = []"
    and "inj_on (ix_hash env) (set files)" and "f \<in> set files"
    and "\<not> should_ignore f ig" and "ix_read env f = Some c"
    and "ix_embed env c = Some v" and "ix_accepts env (ix_hash env f) v"
  shows "load_file_payload (store_points (index_each env files ig st)) f = Some (f, c)"
proof -
  from assms(4-7) have "stored env ig f"
    by (simp add: stored_def index_ok_def)
  with index_fresh_scroll [OF assms(1-3)] assms(5) show ?thesis
    by (simp add: load_file_payload_def new_point_def Let_def file_point_def payload_of_def)
qed

lemma index_fresh_load:
  assumes "collection_name \<notin> ix_collections st" and "ix_reachable env" and "ix_create_ok env"
    and "inj_on (ix_hash env) (set files)" and "f \<in> set files"
    and "\<not> should_ignore f ig" and "ix_read env f = Some c"
    and "ix_embed env c = Some v" and "ix_accepts env (ix_hash env f) v"
  shows "\<exists>st'. index_files env files ig st = Some st' \<and>
           load_file_payload (store_points st') f = Some (f, c)"
proof -
  from ensure_collection_created [OF assms(2,3)] obtain st0 where st0: "ensure_collection env st = Some st0"
    by blast
  with assms(1) have "ix_points st0 = []" by (rule ensure_collection_fresh)
  from index_each_load [OF this assms(4-9)] st0 show ?thesis
    by (simp add: index_files_def)
qed

lemma index_files_load:
  assumes "collection_name \<notin> ix_collections st" and "index_files env files ig st = Some st'"
    and "inj_on (ix_hash env) (set files)" and "f \<in> set files"
    and "\<not> should_ignore f ig" and "ix_read env f = Some c"
    and "ix_embed env c = Some v" and "ix_accepts env (ix_hash env f) v"
  shows "load_file_payload (store_points st') f = Some (f, c)"
proof -
  from assms(2) obtain st0 where st0: "ensure_collection env st = Some st0"
    and st': "st' = index_each env files ig st0"
    by (auto simp: index_files_def split: option.splits)
  from assms(1) st0 have "ix_points st0 = []" by (rule ensure_collection_fresh)
  from index_each_load [OF this assms(3-8)] st' show ?thesis by simp
qed

subsection \<open>Properties of the indexer\<close>

text \<open>C13: the run ends before any file is read exactly when the collection
  step of lines 43--47 raises; otherwise the loop visits every file and never
  aborts on one, and the files it reports as failed are exactly the files that
  are not ignored and whose read, embedding or upsert fails, in the order of
  the file list.\<close>

theorem index_files_log:
  "map_option ix_log (index_files env files ig st) =
     (if ensure_collection env st = None then None
      else Some (ix_log st @ filter (\<lambda>f. \<not> should_ignore f ig \<and> \<not> index_ok env f) files))"
  by (auto simp: index_files_def index_each_log dest: ensure_collection_log split: option.split)

text \<open>C12: when Qdrant is reachable and creates the collection, indexing into
  a collection that did not exist returns, and makes every file that is not
  ignored and whose read, embedding and upsert succeed retrievable by its
  path, with the text that was read, provided the path hash gives the files
  distinct ids.\<close>

theorem index_then_load:
  assumes "collection_name \<notin> ix_collections st" and "ix_reachable env" and "ix_create_ok env"
    and "inj_on (ix_hash env) (set files)" and "f \<in> set files"
    and "\<not> should_ignore f ig" and "ix_read env f = Some c"
    and "ix_embed env c = Some v" and "ix_accepts env (ix_hash env f) v"
  shows "\<exists>st'. index_files env files ig st = Some st' \<and>
           load_file_payload (store_points st') f = Some (f, c)"
  using assms by (rule index_fresh_load)

definition demo_index_env :: index_env where
  "demo_index_env =
     \<lparr>ix_read = (\<lambda>f. if f = ''src/b.ts'' then None else Some (''text of '' @ f)),
      ix_embed = (\<lambda>c. Some (replicate vector_size (1, 0))),
      ix_hash = (\<lambda>f. int (length f)),
      ix_accepts = (\<lambda>i v. 0 \<le> i \<and> length v = vector_size),
      ix_reachable = True, ix_create_ok = True\<rparr>"

definition demo_index_state :: index_state where
  "demo_index_state = \<lparr>ix_collections = {}, ix_points = [], ix_log = []\<rparr>"

theorem index_then_load_witness:
  "\<exists>st'. index_files demo_index_env [''src/a.ts'', ''src/bb.tsx''] [''node_modules''] demo_index_state = Some st' \<and>
     load_file_payload (store_points st') ''src/a.ts'' = Some (''src/a.ts'', ''text of src/a.ts'')"
  by (rule index_then_load [where v = "replicate vector_size (1, 0)"])
     (simp_all add: demo_index_env_def demo_index_state_def model_simps inj_on_def)

lemma index_fresh_no_point:
  assumes "ix_points st = []" and "\<not> stored env ig f"
  shows "scroll_path (store_points (index_each env files ig st)) f = []"
proof -
  have "\<not> pl_path (payload_of q) = Some f"
    if "(k, q) \<in> set (ix_points (index_each env files ig st))" for k q
  proof
    assume path: "pl_path (payload_of q) = Some f"
    from index_fresh_point_set [OF assms(1) that] obtain g
      where "stored env ig g" "(k, q) = new_point env g" by blast
    moreover from this path have "g = f"
      using new_point_path [of env g f] by (metis snd_conv)
    ultimately show False using assms(2) by simp
  qed
  then show ?thesis
    by (force simp: scroll_path_def store_points_def filter_empty_conv)
qed

lemma index_each_ignored:
  assumes "ix_points st = []" and "should_ignore f ig"
  shows "load_file_payload (store_points (index_each env files ig st)) f = None \<and>
         count_list (ix_log (index_each env files ig st)) f = count_list (ix_log st) f"
  using index_fresh_no_point [OF assms(1), of env ig f] index_each_ignored_log [OF assms(2)] assms(2)
  by (simp add: load_file_payload_def stored_def)

text \<open>C26: a file that matches an ignore pattern is neither stored nor
  reported: whenever indexing into a new collection returns, the file cannot
  be loaded by its path and the failure log does not mention it (and when the
  run ends at the collection step nothing is stored at all).\<close>

theorem index_ignored_not_stored:
  assumes "collection_name \<notin> ix_collections st" and "should_ignore f ig"
  shows "pred_option (\<lambda>st'. load_file_payload (store_points st') f = None \<and>
                            count_list (ix_log st') f = count_list (ix_log st) f)
           (index_files env files ig st)"
proof (cases "ensure_collection env st")
  case None
  then show ?thesis by (simp add: index_files_def)
next
  case (Some st0)
  with assms(1) have "ix_points st0 = []" by (rule ensure_collection_fresh)
  from index_each_ignored [OF this assms(2)] ensure_collection_log [OF Some] Some show ?thesis
    by (simp add: index_files_def)
qed

theorem index_ignored_not_stored_witness:
  "pred_option (\<lambda>st'. load_file_payload (store_points st') ''node_modules/x.ts'' = None \<and>
                      count_list (ix_log st') ''node_modules/x.ts'' = count_list (ix_log demo_index_state) ''node_modules/x.ts'')
     (index_files demo_index_env [''node_modules/x.ts'', ''src/a.ts''] [''node_modules''] demo_index_state) \<and>
   index_files demo_index_env [''node_modules/x.ts'', ''src/a.ts''] [''node_modules''] demo_index_state \<noteq> None"
proof -
  have h1: "collection_name \<notin> ix_collections demo_index_state"
    by (simp add: demo_index_state_def)
  have h2: "should_ignore ''node_modules/x.ts'' [''node_modules'']"
    by (simp add: should_ignore_def)
  have "index_files demo_index_env [''node_modules/x.ts'', ''src/a.ts''] [''node_modules''] demo_index_state \<noteq> None"
    by (simp add: demo_index_env_def demo_index_state_def index_files_def ensure_collection_def)
  then show ?thesis
    using index_ignored_not_stored [OF h1 h2, of demo_index_env "[''node_modules/x.ts'', ''src/a.ts'']"] by simp
qed

subsection \<open>Behaviour the code has and was probably not meant to have\<close>

lemma sort_key_two:
  "a \<noteq> b \<Longrightarrow> sort_key fst [(a, x), (b, y)] = (if a < b then [(a, x), (b, y)] else [(b, y), (a, x)])"
  by auto

text \<open>C36: point ids are \<open>hash(file_path)\<close>, and Python salts the hash of a
  string per process, so a later run writes a file under a new id.  Over a
  collection that holds the file's point of an earlier run under id \<open>i\<close>,
  re-indexing the changed file under id \<open>j \<noteq> i\<close> leaves both points in
  place, and the lookup by path (\<open>scroll\<close> in id order, \<open>limit=1\<close>)
  returns the old text exactly when \<open>i < j\<close>: which text the API sees is
  decided by the salt.\<close>

theorem reindex_returns_stale_text:
  assumes "collection_name \<in> ix_collections st" and "ix_reachable env"
    and "ix_points st = [(i, old)]"
    and "pl_path (payload_of old) = Some f" and "pl_text (payload_of old) = Some t_old"
    and "\<not> should_ignore f ig" and "ix_read env f = Some t_new"
    and "ix_embed env t_new = Some v" and "ix_accepts env (ix_hash env f) v"
    and "ix_hash env f \<noteq> i"
  shows "\<exists>st'. index_files env [f] ig st = Some st' \<and>
           length (scroll_path (store_points st') f) = 2 \<and>
           load_file_payload (store_points st') f = Some (f, if i < ix_hash env f then t_old else t_new)"
proof -
  let ?j = "ix_hash env f" and ?new = "file_point env f t_new v"
  have run: "index_files env [f] ig st =
             Some (st\<lparr>ix_points := [(i, old), (?j, ?new)]\<rparr>)"
    using assms by (simp add: index_files_def ensure_collection_def index_each_def index_file_def
                              index_body_def Let_def)
  have new: "pl_path (payload_of ?new) = Some f" "pl_text (payload_of ?new) = Some t_new"
    by (simp_all add: file_point_def payload_of_def)
  have "store_points (st\<lparr>ix_points := [(i, old), (?j, ?new)]\<rparr>) =
        (if i < ?j then [old, ?new] else [?new, old])"
    using assms(10) by (simp add: store_points_def sort_key_two)
  with run new assms(4,5) show ?thesis
    by (simp add: scroll_path_def load_file_payload_def)
qed

theorem reindex_returns_stale_text_witness:
  "\<exists>st'. index_files (demo_index_env\<lparr>ix_read := (\<lambda>f. Some ''new''), ix_hash := (\<lambda>f. 7)\<rparr>) [''src/a.ts''] []
          \<lparr>ix_collections = {''codebase''}, ix_points = [(3, \<lparr>point_id = 3, point_vector = None,
            point_payload = Some \<lparr>pl_path = Some ''src/a.ts'', pl_text = Some ''old''\<rparr>\<rparr>)], ix_log = []\<rparr> = Some st' \<and>
     length (scroll_path (store_points st') ''src/a.ts'') = 2 \<and>
     load_file_payload (store_points st') ''src/a.ts'' = Some (''src/a.ts'', if (3::int) < 7 then ''old'' else ''new'')"
  using reindex_returns_stale_text [where env = "demo_index_env\<lparr>ix_read := (\<lambda>f. Some ''new''), ix_hash := (\<lambda>f. 7)\<rparr>"
      and st = "\<lparr>ix_collections = {''codebase''}, ix_points = [(3, \<lparr>point_id = 3, point_vector = None,
            point_payload = Some \<lparr>pl_path = Some ''src/a.ts'', pl_text = Some ''old''\<rparr>\<rparr>)], ix_log = []\<rparr>"
      and i = 3 and f = "''src/a.ts''" and t_old = "''old''" and ig = "[]" and t_new = "''new''"
      and v = "replicate vector_size (1, 0)"]
  by (simp add: demo_index_env_def model_simps)

end
