(* ===== verification/LmStudio.thy ===== *)
theory LmStudio
  imports HttpJson RagApi Indexer
begin

text \<open>
  The LM Studio services as the two programs call them over HTTP, and the
  environments of \<open>RagApi\<close> and \<open>Indexer\<close> they give.

  \<^item> \<open>src/rag_api/main.py\<close> reads \<open>LMSTUDIO_API\<close> (default
    \<open>http://localhost:1234\<close>) as a base URL and posts the question to
    \<open>/v1/embeddings\<close> (lines 54--61) and the prompt to
    \<open>/v1/chat/completions\<close> (lines 107--117).  The answer must be a string
    for \<open>RagResponse(answer=...)\<close> (line 119).
  \<^item> \<open>src/indexer/index_codebase.py\<close> reads the same variable, with the
    default \<open>http://localhost:1234/v1/embeddings\<close>, as the full endpoint of
    \<open>get_embedding\<close> (lines 15, 23--30).

  \<open>http_rag_env\<close> and \<open>http_index_env\<close> build the abstract environments
  from one network function \<open>post\<close>: the embedding succeeds when the answer
  is a 2xx response whose \<open>data[0].embedding\<close> is an array of numbers, the
  only vector the Qdrant client accepts, and the chat succeeds when
  \<open>choices[0].message.content\<close> is a string.
\<close>

definition lmstudio_api :: "os_env \<Rightarrow> string" where
  "lmstudio_api osenv = getenv osenv ''LMSTUDIO_API'' ''http://localhost:1234''"

text \<open>The request body of an embedding call, in both programs.\<close>

definition embed_payload :: "string \<Rightarrow> string \<Rightarrow> json" where
  "embed_payload model text = JObj [(''input'', JArr [JStr text]), (''model'', JStr model)]"

definition embed_path :: "subscript list" where
  "embed_path = [Key ''data'', Idx 0, Key ''embedding'']"

text \<open>Lines 54--61 of \<open>rag_endpoint\<close>.\<close>

definition embed_question :: "http_post \<Rightarrow> os_env \<Rightarrow> string \<Rightarrow> string \<Rightarrow> http_error + json" where
  "embed_question post osenv model q =
     post_json post (lmstudio_api osenv @ ''/v1/embeddings'') (embed_payload model q) embed_path"

text \<open>Lines 107--117 of \<open>rag_endpoint\<close>: the payload with temperature
  \<open>0.4\<close> and the answer \<open>choices[0].message.content\<close>.\<close>

definition chat_payload :: "chat_request \<Rightarrow> json" where
  "chat_payload r =
     JObj [(''model'', JStr (chat_model r)), (''temperature'', JNum (4, 1)),
           (''messages'', JArr [JObj [(''role'', JStr (chat_role r)), (''content'', JStr (chat_content r))]])]"

definition chat_path :: "subscript list" where
  "chat_path = [Key ''choices'', Idx 0, Key ''message'', Key ''content'']"

definition chat_completion :: "http_post \<Rightarrow> os_env \<Rightarrow> chat_request \<Rightarrow> http_error + json" where
  "chat_completion post osenv r =
     post_json post (lmstudio_api osenv @ ''/v1/chat/completions'') (chat_payload r) chat_path"

text \<open>\<open>RagResponse(answer=answer)\<close>: pydantic accepts a string only.\<close>

fun answer_str :: "json \<Rightarrow> string option" where
  "answer_str (JStr s) = Some s"
| "answer_str _ = None"

definition http_rag_env ::
  "http_post \<Rightarrow> os_env \<Rightarrow> point list option \<Rightarrow> (vector \<Rightarrow> point list) \<Rightarrow> graph_file \<Rightarrow> rag_env" where
  "http_rag_env post osenv store rank graph_res =
     \<lparr>env_embed = (\<lambda>model q. case embed_question post osenv model q of
                                Inl e \<Rightarrow> None
                              | Inr j \<Rightarrow> json_numbers j),
      env_store = store, env_rank = rank, env_graph = graph_res,
      env_chat = (\<lambda>r. case chat_completion post osenv r of
                        Inl e \<Rightarrow> None
                      | Inr j \<Rightarrow> answer_str j)\<rparr>"

subsection \<open>The indexer's embedding call\<close>

definition index_embedding_model :: string where
  "index_embedding_model = ''nomic-embed-text''"

definition embedding_endpoint :: "os_env \<Rightarrow> string" where
  "embedding_endpoint osenv = getenv osenv ''LMSTUDIO_API'' ''http://localhost:1234/v1/embeddings''"

text \<open>Lines 23--30: \<open>get_embedding\<close>.\<close>

definition get_embedding :: "http_post \<Rightarrow> os_env \<Rightarrow> content \<Rightarrow> http_error + json" where
  "get_embedding post osenv text =
     post_json post (embedding_endpoint osenv) (embed_payload index_embedding_model text) embed_path"

text \<open>The loop body passes the embedding to \<open>PointStruct(vector=...)\<close>,
  which rejects anything but a list of numbers inside the \<open>try\<close>.\<close>

definition http_index_env ::
  "http_post \<Rightarrow> os_env \<Rightarrow> (path \<Rightarrow> content option) \<Rightarrow> (path \<Rightarrow> int) \<Rightarrow> (int \<Rightarrow> vector \<Rightarrow> bool) \<Rightarrow>
   bool \<Rightarrow> bool \<Rightarrow> index_env" where
  "http_index_env post osenv read hash accepts reachable create_ok =
     \<lparr>ix_read = read,
      ix_embed = (\<lambda>c. case get_embedding post osenv c of Inl e \<Rightarrow> None | Inr j \<Rightarrow> json_numbers j),
      ix_hash = hash, ix_accepts = accepts, ix_reachable = reachable, ix_create_ok = create_ok\<rparr>"

declare lmstudio_api_def [model_simps] embed_payload_def [model_simps] embed_path_def [model_simps]
  embed_question_def [model_simps] chat_payload_def [model_simps] chat_path_def [model_simps]
  chat_completion_def [model_simps] http_rag_env_def [model_simps] index_embedding_model_def [model_simps]
  embedding_endpoint_def [model_simps] get_embedding_def [model_simps] http_index_env_def [model_simps]

subsection \<open>The HTTP services implement the environment\<close>

lemma case_sum_None_Some:
  "(case x of Inl e \<Rightarrow> None | Inr j \<Rightarrow> f j) = Some v \<longleftrightarrow> (\<exists>j. x = Inr j \<and> f j = Some v)"
  by (cases x) auto

lemma http_env_embed:
  "env_embed (http_rag_env post osenv store rank graph_res) model q = Some v \<longleftrightarrow>
   (\<exists>resp body. post (lmstudio_api osenv @ ''/v1/embeddings'') (embed_payload model q) = Some resp \<and>
      200 \<le> resp_status resp \<and> resp_status resp < 300 \<and> resp_body resp = Some body \<and>
      json_path body embed_path = Inr (JArr (map JNum v)))"
proof -
  have "env_embed (http_rag_env post osenv store rank graph_res) model q = Some v \<longleftrightarrow>
        embed_question post osenv model q = Inr (JArr (map JNum v))"
    by (simp only: http_rag_env_def rag_env.simps case_sum_None_Some json_numbers_Some_iff) blast
  then show ?thesis
    by (simp only: embed_question_def post_json_Inr_iff)
qed

lemma answer_str_Some_iff: "answer_str j = Some a \<longleftrightarrow> j = JStr a"
  by (cases j) auto

lemma http_env_chat:
  "env_chat (http_rag_env post osenv store rank graph_res) r = Some a \<longleftrightarrow>
   (\<exists>resp body. post (lmstudio_api osenv @ ''/v1/chat/completions'') (chat_payload r) = Some resp \<and>
      200 \<le> resp_status resp \<and> resp_status resp < 300 \<and> resp_body resp = Some body \<and>
      json_path body chat_path = Inr (JStr a))"
proof -
  have "env_chat (http_rag_env post osenv store rank graph_res) r = Some a \<longleftrightarrow>
        chat_completion post osenv r = Inr (JStr a)"
    by (simp only: http_rag_env_def rag_env.simps case_sum_None_Some answer_str_Some_iff) blast
  then show ?thesis
    by (simp only: chat_completion_def post_json_Inr_iff)
qed

lemma chat_path_Inr:
  "json_path b chat_path = Inr v \<longleftrightarrow>
   (\<exists>d e ys m. b = JObj d \<and> map_of (rev d) ''choices'' = Some (JArr (JObj e # ys)) \<and>
      map_of (rev e) ''message'' = Some (JObj m) \<and> map_of (rev m) ''content'' = Some v)"
proof -
  have "json_path b chat_path = Inr v \<longleftrightarrow>
        (\<exists>x. json_path b [Key ''choices'', Idx 0, Key ''message''] = Inr x \<and> json_sub x (Key ''content'') = Inr v)"
    by (simp add: chat_path_def json_path_append [of b "[Key ''choices'', Idx 0, Key ''message'']" "[Key ''content'']", simplified]
             split: sum.split)
  then show ?thesis
    unfolding json_path_key_first_key json_sub_Key_Inr by blast
qed

text \<open>C16: the HTTP calls of \<open>rag_endpoint\<close> give the embedding and chat
  services of the abstract environment exactly.  The question gets the
  vector \<open>v\<close> if and only if a POST of \<open>{"input": [q], "model": m}\<close> to
  \<open>/v1/embeddings\<close> under \<open>LMSTUDIO_API\<close> (default
  \<open>http://localhost:1234\<close>) answers 2xx with a JSON object whose
  \<open>data\<close> is a non-empty list whose first element is an object with
  \<open>embedding\<close> the array of \<open>v\<close>.  The chat model answers \<open>a\<close> if and
  only if a POST of the model, temperature 0.4 and the single user message to
  \<open>/v1/chat/completions\<close> answers 2xx with an object whose first
  \<open>choices\<close> element has a \<open>message\<close> object with \<open>content\<close> the string
  \<open>a\<close>.\<close>

theorem http_rag_env_services:
  "(env_embed (http_rag_env post osenv store rank graph_res) model q = Some v \<longleftrightarrow>
    (\<exists>resp d e ys.
       post ((case osenv ''LMSTUDIO_API'' of None \<Rightarrow> ''http://localhost:1234'' | Some u \<Rightarrow> u) @ ''/v1/embeddings'')
            (JObj [(''input'', JArr [JStr q]), (''model'', JStr model)]) = Some resp \<and>
       200 \<le> resp_status resp \<and> resp_status resp < 300 \<and> resp_body resp = Some (JObj d) \<and>
       map_of (rev d) ''data'' = Some (JArr (JObj e # ys)) \<and>
       map_of (rev e) ''embedding'' = Some (JArr (map JNum v)))) \<and>
   (env_chat (http_rag_env post osenv store rank graph_res) r = Some a \<longleftrightarrow>
    (\<exists>resp d e ys m.
       post ((case osenv ''LMSTUDIO_API'' of None \<Rightarrow> ''http://localhost:1234'' | Some u \<Rightarrow> u) @ ''/v1/chat/completions'')
            (JObj [(''model'', JStr (chat_model r)), (''temperature'', JNum (4, 1)),
                   (''messages'', JArr [JObj [(''role'', JStr (chat_role r)), (''content'', JStr (chat_content r))]])])
         = Some resp \<and>
       200 \<le> resp_status resp \<and> resp_status resp < 300 \<and> resp_body resp = Some (JObj d) \<and>
       map_of (rev d) ''choices'' = Some (JArr (JObj e # ys)) \<and>
       map_of (rev e) ''message'' = Some (JObj m) \<and> map_of (rev m) ''content'' = Some (JStr a)))"
proof -
  have url: "lmstudio_api osenv = (case osenv ''LMSTUDIO_API'' of None \<Rightarrow> ''http://localhost:1234'' | Some u \<Rightarrow> u)"
    by (simp add: lmstudio_api_def getenv_def)
  have emb: "json_path body embed_path = Inr (JArr (map JNum v)) \<longleftrightarrow>
             (\<exists>d e ys. body = JObj d \<and> map_of (rev d) ''data'' = Some (JArr (JObj e # ys)) \<and>
                map_of (rev e) ''embedding'' = Some (JArr (map JNum v)))" for body
    unfolding embed_path_def json_path_key_first_key by blast
  show ?thesis
    unfolding http_env_embed http_env_chat emb chat_path_Inr url
    by (auto simp: embed_payload_def chat_payload_def)
qed

text \<open>The body LM Studio answers an embedding request with (the OpenAI
  format), and a service that answers every request.\<close>

definition embedding_response :: "vector \<Rightarrow> json" where
  "embedding_response v =
     JObj [(''object'', JStr ''list''),
           (''data'', JArr [JObj [(''object'', JStr ''embedding''), (''embedding'', JArr (map JNum v)),
                                  (''index'', JNum (0, 0))]]),
           (''model'', JStr ''nomic-embed-text'')]"

definition chat_response :: "string \<Rightarrow> json" where
  "chat_response a =
     JObj [(''choices'', JArr [JObj [(''index'', JNum (0, 0)),
             (''message'', JObj [(''role'', JStr ''assistant''), (''content'', JStr a)])]])]"

definition demo_post :: "int \<Rightarrow> http_post" where
  "demo_post embed_status url payload =
     (if url = ''http://localhost:1234/v1/embeddings''
      then Some \<lparr>resp_status = embed_status, resp_body = Some (embedding_response [(1, 0), (-25, 2)])\<rparr>
      else if url = ''http://localhost:1234/v1/chat/completions''
      then Some \<lparr>resp_status = 200, resp_body = Some (chat_response ''The answer.'')\<rparr>
      else None)"

theorem http_rag_env_services_witness:
  "env_embed (http_rag_env (demo_post 200) Map.empty None (\<lambda>v. []) GraphMissing) ''nomic-embed-text'' ''q'' =
     Some [(1, 0), (-25, 2)] \<and>
   env_chat (http_rag_env (demo_post 200) Map.empty None (\<lambda>v. []) GraphMissing)
     \<lparr>chat_model = ''gemma:3n'', chat_role = ''user'', chat_content = ''p''\<rparr> = Some ''The answer.''"
  using http_rag_env_services [of "demo_post 200" Map.empty None "\<lambda>v. []" GraphMissing "''nomic-embed-text''" "''q''"
      "[(1, 0), (-25, 2)]" "\<lparr>chat_model = ''gemma:3n'', chat_role = ''user'', chat_content = ''p''\<rparr>" "''The answer.''"]
  by (simp add: demo_post_def embedding_response_def chat_response_def model_simps)

subsection \<open>The two programs' embedding requests\<close>

lemma embedding_endpoint_unset:
  "osenv ''LMSTUDIO_API'' = None \<Longrightarrow> embedding_endpoint osenv = lmstudio_api osenv @ ''/v1/embeddings''"
  by (simp add: embedding_endpoint_def lmstudio_api_def getenv_def)

lemma embedding_endpoint_set:
  "osenv ''LMSTUDIO_API'' = Some u \<Longrightarrow> embedding_endpoint osenv \<noteq> lmstudio_api osenv @ ''/v1/embeddings''"
  by (simp add: embedding_endpoint_def lmstudio_api_def getenv_def)

text \<open>C33: file vectors and question vectors are comparable only if both
  programs ask the same service with the same model.  The indexer's
  \<open>get_embedding\<close> sends exactly the request of \<open>rag_endpoint\<close> for every
  text and every network if and only if \<open>LMSTUDIO_API\<close> is unset: the API
  appends \<open>/v1/embeddings\<close> to the variable, the indexer posts to the
  variable itself, so any value that suits one program misdirects the
  other.\<close>

theorem indexer_api_same_embedding_request:
  "(\<forall>post text. get_embedding post osenv text = embed_question post osenv embedding_model text) \<longleftrightarrow>
   osenv ''LMSTUDIO_API'' = None"
proof
  assume unset: "osenv ''LMSTUDIO_API'' = None"
  have "index_embedding_model = embedding_model"
    by (simp add: index_embedding_model_def embedding_model_def)
  with embedding_endpoint_unset [of osenv, OF unset]
  show "\<forall>post text. get_embedding post osenv text = embed_question post osenv embedding_model text"
    by (simp add: get_embedding_def embed_question_def)
next
  assume same: "\<forall>post text. get_embedding post osenv text = embed_question post osenv embedding_model text"
  show "osenv ''LMSTUDIO_API'' = None"
  proof (rule ccontr)
    assume "osenv ''LMSTUDIO_API'' \<noteq> None"
    then obtain u where u: "osenv ''LMSTUDIO_API'' = Some u" by blast
    let ?post = "\<lambda>url payload. if url = embedding_endpoint osenv then None
                               else Some \<lparr>resp_status = 404, resp_body = None\<rparr>"
    have "get_embedding ?post osenv [] = Inl TransportError"
      by (simp add: get_embedding_def post_json_def)
    moreover have "embed_question ?post osenv embedding_model [] = Inl HTTPStatusError"
      using embedding_endpoint_set [of osenv, OF u] by (simp add: embed_question_def post_json_def)
    ultimately show False using same by simp
  qed
qed

end
