(* ===== verification/ZedProxy.thy ===== *)
theory ZedProxy
  imports RagApi HttpJson
begin

text \<open>
  \<open>zed_proxy\<close> (\<open>src/rag_api/main.py\<close>, lines 122--144), the
  OpenAI-compatible endpoint for the Zed editor.  FastAPI hands it the JSON
  object of the request body as a dict (a body that is not an object is
  rejected before the handler runs), modelled by its items.  The handler
  reads the last message's \<open>content\<close> as the question and
  \<open>editor_context.current_file\<close> as the target file, builds a
  \<open>RagRequest\<close> (pydantic checks both are strings, \<open>depth\<close> takes its
  default 1), awaits \<open>rag_endpoint\<close> and wraps the answer in a chat
  completion document.  Every exception it lets escape is a value of
  \<open>zed_error\<close>.
\<close>

datatype zed_error =
    ZedPyError py_exc
  | ZedAttributeError
  | ZedValidationError
  | ZedRagError rag_error

text \<open>\<open>x.get(k, default)\<close> on any JSON value: only a dict has \<open>get\<close>.\<close>

definition json_get :: "json \<Rightarrow> string \<Rightarrow> json \<Rightarrow> zed_error + json" where
  "json_get j k dflt = (case j of JObj d \<Rightarrow> Inr (dict_get d k dflt) | _ \<Rightarrow> Inl ZedAttributeError)"

text \<open>Python truthiness of a JSON value.\<close>

fun json_truthy :: "json \<Rightarrow> bool" where
  "json_truthy JNull = False"
| "json_truthy (JBool b) = b"
| "json_truthy (JNum n) = (fst n \<noteq> 0)"
| "json_truthy (JStr s) = (s \<noteq> [])"
| "json_truthy (JArr xs) = (xs \<noteq> [])"
| "json_truthy (JObj d) = (d \<noteq> [])"

text \<open>A value given to a \<open>str\<close> field of the pydantic model \<open>RagRequest\<close>.\<close>

definition validate_str :: "json \<Rightarrow> zed_error + string" where
  "validate_str v = (case v of JStr s \<Rightarrow> Inr s | _ \<Rightarrow> Inl ZedValidationError)"

text \<open>Lines 128--129.\<close>

definition zed_question :: "json_dict \<Rightarrow> zed_error + json" where
  "zed_question request =
     (let messages = dict_get request ''messages'' (JArr [])
      in if json_truthy messages
         then (case json_path messages [Idx (-1), Key ''content''] of
                 Inl e \<Rightarrow> Inl (ZedPyError e)
               | Inr q \<Rightarrow> Inr q)
         else Inr (JStr []))"

text \<open>Lines 130--131.\<close>

definition zed_target :: "json_dict \<Rightarrow> zed_error + json" where
  "zed_target request =
     json_get (dict_get request ''editor_context'' (JObj [])) ''current_file'' (JStr ''index.ts'')"

text \<open>Lines 135--144.\<close>

definition zed_reply :: "string \<Rightarrow> json" where
  "zed_reply answer =
     JObj [(''choices'', JArr [JObj [(''message'',
       JObj [(''role'', JStr ''assistant''), (''content'', JStr answer)])]])]"

definition zed_proxy :: "rag_env \<Rightarrow> json_dict \<Rightarrow> zed_error + json" where
  "zed_proxy env request =
     (case zed_question request of
        Inl e \<Rightarrow> Inl e
      | Inr question_v \<Rightarrow>
          (case zed_target request of
             Inl e \<Rightarrow> Inl e
           | Inr target_v \<Rightarrow>
               (case (validate_str question_v, validate_str target_v) of
                  (Inr q, Inr t) \<Rightarrow>
                    (case rag_endpoint env \<lparr>question = q, target_file = t, depth = 1\<rparr> of
                       Inl e \<Rightarrow> Inl (ZedRagError e)
                     | Inr answer \<Rightarrow> Inr (zed_reply answer))
                | _ \<Rightarrow> Inl ZedValidationError)))"

declare json_get_def [model_simps] validate_str_def [model_simps]
  zed_question_def [model_simps] zed_target_def [model_simps] zed_reply_def [model_simps]
  zed_proxy_def [model_simps]

subsection \<open>Properties of zed_proxy\<close>

lemma zed_proxy_strs:
  assumes "zed_question request = Inr (JStr q)" and "zed_target request = Inr (JStr t)"
  shows "zed_proxy env request =
           (case rag_endpoint env \<lparr>question = q, target_file = t, depth = 1\<rparr> of
              Inl e \<Rightarrow> Inl (ZedRagError e)
            | Inr answer \<Rightarrow> Inr (zed_reply answer))"
  using assms by (simp add: zed_proxy_def validate_str_def)

lemma zed_target_absent:
  "map_of (rev request) ''editor_context'' = None \<Longrightarrow> zed_target request = Inr (JStr ''index.ts'')"
  by (simp add: zed_target_def dict_get_def json_get_def)

text \<open>C17: \<open>zed_proxy\<close> forwards the \<open>content\<close> of the last message as the
  question, \<open>index.ts\<close> as the target when the request has no editor
  context, always the default depth 1, and wraps the answer of
  \<open>rag_endpoint\<close> as the assistant message of a chat completion.\<close>

theorem zed_proxy_defaults:
  assumes "map_of (rev request) ''messages'' = Some (JArr ms)" and "ms \<noteq> []"
    and "json_sub (last ms) (Key ''content'') = Inr (JStr q)"
    and "map_of (rev request) ''editor_context'' = None"
  shows "zed_proxy env request =
           (case rag_endpoint env \<lparr>question = q, target_file = ''index.ts'', depth = 1\<rparr> of
              Inl e \<Rightarrow> Inl (ZedRagError e)
            | Inr answer \<Rightarrow> Inr (zed_reply answer))"
proof -
  from assms(1-3) have q: "zed_question request = Inr (JStr q)"
    by (simp add: zed_question_def dict_get_def split: sum.split)
  show ?thesis
    by (rule zed_proxy_strs [OF q zed_target_absent [OF assms(4)]])
qed

theorem zed_proxy_defaults_witness:
  "map_of (rev [(''model'', JStr ''m''), (''messages'', JArr [JObj [(''role'', JStr ''user''), (''content'', JStr ''what is a?'')]])])
     ''messages'' = Some (JArr [JObj [(''role'', JStr ''user''), (''content'', JStr ''what is a?'')]]) \<and>
   [JObj [(''role'', JStr ''user''), (''content'', JStr ''what is a?'')]] \<noteq> [] \<and>
   json_sub (last [JObj [(''role'', JStr ''user''), (''content'', JStr ''what is a?'')]]) (Key ''content'') =
     Inr (JStr ''what is a?'') \<and>
   map_of (rev [(''model'', JStr ''m''), (''messages'', JArr [JObj [(''role'', JStr ''user''), (''content'', JStr ''what is a?'')]])])
     ''editor_context'' = None \<and>
   zed_proxy demo_env [(''model'', JStr ''m''), (''messages'', JArr [JObj [(''role'', JStr ''user''), (''content'', JStr ''what is a?'')]])] =
     (case rag_endpoint demo_env \<lparr>question = ''what is a?'', target_file = ''index.ts'', depth = 1\<rparr> of
        Inl e \<Rightarrow> Inl (ZedRagError e)
      | Inr answer \<Rightarrow> Inr (zed_reply answer))"
  using zed_proxy_defaults [of "[(''model'', JStr ''m''), (''messages'', JArr [JObj [(''role'', JStr ''user''), (''content'', JStr ''what is a?'')]])]"
      "[JObj [(''role'', JStr ''user''), (''content'', JStr ''what is a?'')]]" "''what is a?''" demo_env]
  by simp

text \<open>C27: an \<open>editor_context\<close> that is present but not an object (for
  example \<open>null\<close>) makes \<open>zed_proxy\<close> fail with \<open>AttributeError\<close>
  before \<open>rag_endpoint\<close> runs, whatever the services would answer; the
  docstring calls the field optional, and only its absence is handled.\<close>

theorem zed_proxy_editor_context_not_dict:
  assumes "zed_question request = Inr qv"
    and "map_of (rev request) ''editor_context'' = Some v" and "\<forall>d. v \<noteq> JObj d"
  shows "zed_proxy env request = Inl ZedAttributeError"
proof -
  from assms(2,3) have "zed_target request = Inl ZedAttributeError"
    by (cases v) (simp_all add: zed_target_def dict_get_def json_get_def)
  with assms(1) show ?thesis by (simp add: zed_proxy_def)
qed

theorem zed_proxy_editor_context_not_dict_witness:
  "zed_question [(''messages'', JArr [JObj [(''content'', JStr ''q'')]]), (''editor_context'', JNull)] = Inr (JStr ''q'') \<and>
   map_of (rev [(''messages'', JArr [JObj [(''content'', JStr ''q'')]]), (''editor_context'', JNull)]) ''editor_context'' = Some JNull \<and>
   (\<forall>d. JNull \<noteq> JObj d) \<and>
   zed_proxy demo_env [(''messages'', JArr [JObj [(''content'', JStr ''q'')]]), (''editor_context'', JNull)] = Inl ZedAttributeError"
proof -
  have h1: "zed_question [(''messages'', JArr [JObj [(''content'', JStr ''q'')]]), (''editor_context'', JNull)] = Inr (JStr ''q'')"
    by (simp add: model_simps)
  have h2: "map_of (rev [(''messages'', JArr [JObj [(''content'', JStr ''q'')]]), (''editor_context'', JNull)]) ''editor_context'' = Some JNull"
    by simp
  have h3: "\<forall>d. JNull \<noteq> JObj d" by simp
  show ?thesis using h1 h2 h3 zed_proxy_editor_context_not_dict [OF h1 h2 h3, of demo_env] by simp
qed

text \<open>C30: a request without messages, or with an empty list, is not
  rejected: \<open>rag_endpoint\<close> is asked the empty question.\<close>

theorem zed_proxy_no_messages:
  assumes "\<not> json_truthy (dict_get request ''messages'' (JArr []))"
    and "map_of (rev request) ''editor_context'' = None"
  shows "zed_proxy env request =
           (case rag_endpoint env \<lparr>question = [], target_file = ''index.ts'', depth = 1\<rparr> of
              Inl e \<Rightarrow> Inl (ZedRagError e)
            | Inr answer \<Rightarrow> Inr (zed_reply answer))"
proof -
  from assms(1) have q: "zed_question request = Inr (JStr [])"
    by (simp add: zed_question_def)
  show ?thesis
    by (rule zed_proxy_strs [OF q zed_target_absent [OF assms(2)]])
qed

theorem zed_proxy_no_messages_witness:
  "\<not> json_truthy (dict_get [(''model'', JStr ''m'')] ''messages'' (JArr [])) \<and>
   map_of (rev [(''model'', JStr ''m'')]) ''editor_context'' = None \<and>
   zed_proxy demo_env [(''model'', JStr ''m'')] =
     (case rag_endpoint demo_env \<lparr>question = [], target_file = ''index.ts'', depth = 1\<rparr> of
        Inl e \<Rightarrow> Inl (ZedRagError e)
      | Inr answer \<Rightarrow> Inr (zed_reply answer))"
proof -
  have h1: "\<not> json_truthy (dict_get [(''model'', JStr ''m'')] ''messages'' (JArr []))"
    by (simp add: dict_get_def)
  have h2: "map_of (rev [(''model'', JStr ''m'')]) ''editor_context'' = None" by simp
  show ?thesis using h1 h2 zed_proxy_no_messages [OF h1 h2, of demo_env] by simp
qed

end
