(* ===== verification/IndexerMain.thy ===== *)
theory IndexerMain
  imports Indexer HttpJson
begin

text \<open>
  The start of \<open>index_codebase\<close> (\<open>src/indexer/index_codebase.py\<close>,
  lines 35--64) in front of the loop of \<open>Indexer\<close>.  The configuration is
  the value \<open>yaml.safe_load\<close> returns for \<open>indexer/config.yaml\<close>, of the
  same shape as a JSON value.  \<open>config["project_path"]\<close> must exist and be
  a string (\<open>Path\<close> of anything else is a \<open>TypeError\<close>), and
  \<open>config.get("ignore", [])\<close> may be any value.  \<open>should_ignore\<close>
  iterates that value for every file: a list gives its elements, a string
  its characters, a dict its keys, and anything else raises \<open>TypeError\<close>.
  \<open>str.startswith\<close> raises \<open>TypeError\<close> for a pattern that is not a
  string, and \<open>any\<close> stops at the first match.  These exceptions are raised
  at line 50, outside the \<open>try\<close>, so they end the whole run.  The result
  is the store as the run leaves it and the exception that ended it, if any.
  The two \<open>rglob\<close> searches are an input (\<open>str\<close> of each path found).
\<close>

text \<open>Line 33 over the iterated patterns.\<close>

fun any_startswith :: "path \<Rightarrow> json list \<Rightarrow> py_exc + bool" where
  "any_startswith p [] = Inr False"
| "any_startswith p (JStr pat # pats) = (if prefix pat p then Inr True else any_startswith p pats)"
| "any_startswith p (_ # pats) = Inl TypeError"

definition should_ignore_py :: "path \<Rightarrow> json \<Rightarrow> py_exc + bool" where
  "should_ignore_py p ignore =
     (case py_iter ignore of Inl e \<Rightarrow> Inl e | Inr pats \<Rightarrow> any_startswith p pats)"

text \<open>Lines 49--64: the loop, ended early by an exception of line 50.\<close>

fun index_loop :: "index_env \<Rightarrow> json \<Rightarrow> index_state \<Rightarrow> path list \<Rightarrow> index_state \<times> py_exc option" where
  "index_loop env ignore st [] = (st, None)"
| "index_loop env ignore st (f # fs) =
     (case should_ignore_py f ignore of
        Inl e \<Rightarrow> (st, Some e)
      | Inr True \<Rightarrow> index_loop env ignore st fs
      | Inr False \<Rightarrow> index_loop env ignore (index_body env st f) fs)"

type_synonym rglob = "string \<Rightarrow> string \<Rightarrow> path list"

text \<open>The exceptions that end \<open>index_codebase\<close>: Python exceptions of the
  configuration and of the ignore test, and a failure of the Qdrant calls of
  lines 43--47.\<close>

datatype index_error = IxPyError py_exc | IxCollectionError

text \<open>Lines 35--64.\<close>

definition index_codebase ::
  "index_env \<Rightarrow> rglob \<Rightarrow> json \<Rightarrow> index_state \<Rightarrow> index_state \<times> index_error option" where
  "index_codebase env rglob config st =
     (case json_sub config (Key ''project_path'') of
        Inl e \<Rightarrow> (st, Some (IxPyError e))
      | Inr (JStr base_path) \<Rightarrow>
          (let ignore = (case config of JObj d \<Rightarrow> dict_get d ''ignore'' (JArr []) | _ \<Rightarrow> JArr []);
               files = rglob base_path ''*.ts'' @ rglob base_path ''*.tsx''
           in case ensure_collection env st of
                None \<Rightarrow> (st, Some IxCollectionError)
              | Some st0 \<Rightarrow>
                  (case index_loop env ignore st0 files of
                     (st', e) \<Rightarrow> (st', map_option IxPyError e)))
      | Inr _ \<Rightarrow> (st, Some (IxPyError TypeError)))"

declare should_ignore_py_def [model_simps] index_codebase_def [model_simps]

subsection \<open>The loop with a list of string patterns\<close>

lemma any_startswith_strs: "any_startswith p (map JStr pats) = Inr (should_ignore p pats)"
  by (induction pats) (auto simp: should_ignore_def)

lemma index_loop_strs:
  "index_loop env (JArr (map JStr pats)) st files =
     (index_each env files pats st, None)"
  by (induction files arbitrary: st)
     (simp_all add: should_ignore_py_def any_startswith_strs index_file_def index_each_def)

lemma index_codebase_strs:
  assumes "map_of (rev d) ''project_path'' = Some (JStr base)"
    and "dict_get d ''ignore'' (JArr []) = JArr (map JStr ig)"
  shows "index_codebase env rglob (JObj d) st =
           (case index_files env (rglob base ''*.ts'' @ rglob base ''*.tsx'') ig st of
              None \<Rightarrow> (st, Some IxCollectionError)
            | Some st' \<Rightarrow> (st', None))"
  using assms by (simp add: index_codebase_def index_files_def index_loop_strs split: option.split)

text \<open>C14: with a configuration whose \<open>project_path\<close> is a string and whose
  \<open>ignore\<close> is absent or a list of strings, \<open>index_codebase\<close> is the
  collection step and loop \<open>index_files\<close> over the \<open>.ts\<close> files and then
  the \<open>.tsx\<close> files that \<open>rglob\<close> finds: it ends with the collection error,
  leaving the store as it was, exactly when that step raises, and otherwise
  runs to the end with the state of \<open>index_files\<close>, so the properties of
  \<open>index_files\<close> hold for the whole job.\<close>

theorem index_codebase_refines_index_files:
  assumes "map_of (rev d) ''project_path'' = Some (JStr base)"
    and "dict_get d ''ignore'' (JArr []) = JArr (map JStr ig)"
  shows "index_codebase env rglob (JObj d) st =
           (case index_files env (rglob base ''*.ts'' @ rglob base ''*.tsx'') ig st of
              None \<Rightarrow> (st, Some IxCollectionError)
            | Some st' \<Rightarrow> (st', None))"
  using assms by (rule index_codebase_strs)

theorem index_codebase_refines_index_files_witness:
  "map_of (rev [(''project_path'', JStr ''.'')]) ''project_path'' = Some (JStr ''.'') \<and>
   dict_get [(''project_path'', JStr ''.'')] ''ignore'' (JArr []) = JArr (map JStr []) \<and>
   index_codebase (demo_index_env\<lparr>ix_reachable := False\<rparr>) (\<lambda>b p. if p = ''*.ts'' then [''a.ts''] else [''b.tsx''])
     (JObj [(''project_path'', JStr ''.'')]) demo_index_state =
   (case index_files (demo_index_env\<lparr>ix_reachable := False\<rparr>)
           ((\<lambda>b p. if p = ''*.ts'' then [''a.ts''] else [''b.tsx'']) ''.'' ''*.ts'' @
            (\<lambda>b p. if p = ''*.ts'' then [''a.ts''] else [''b.tsx'']) ''.'' ''*.tsx'') [] demo_index_state of
      None \<Rightarrow> (demo_index_state, Some IxCollectionError)
    | Some st' \<Rightarrow> (st', None))"
proof -
  have h1: "map_of (rev [(''project_path'', JStr ''.'')]) ''project_path'' = Some (JStr ''.'')" by simp
  have h2: "dict_get [(''project_path'', JStr ''.'')] ''ignore'' (JArr []) = JArr (map JStr [])"
    by (simp add: dict_get_def)
  show ?thesis
    using h1 h2 index_codebase_refines_index_files [OF h1 h2,
      of "demo_index_env\<lparr>ix_reachable := False\<rparr>" "\<lambda>b p. if p = ''*.ts'' then [''a.ts''] else [''b.tsx'']" demo_index_state]
    by simp
qed

subsection \<open>Exceptions of the ignore test end the run\<close>

definition ignore_step :: "index_env \<Rightarrow> json \<Rightarrow> index_state \<Rightarrow> path \<Rightarrow> index_state" where
  "ignore_step env ignore st f = (if should_ignore_py f ignore = Inr True then st else index_body env st f)"

text \<open>C15: the loop of \<open>index_codebase\<close> processes the files up to the
  first one for which \<open>should_ignore\<close> raises, and stops there with that
  exception: the files before it are indexed or skipped as usual, that file
  and all later ones are never read, and no failure is reported for them.
  Per-file failures inside the \<open>try\<close> never stop the loop.\<close>

theorem index_loop_stops_at_first_error:
  "index_loop env ignore st files =
     (fold (\<lambda>f st. ignore_step env ignore st f) (takeWhile (\<lambda>f. \<not> isl (should_ignore_py f ignore)) files) st,
      case dropWhile (\<lambda>f. \<not> isl (should_ignore_py f ignore)) files of
        [] \<Rightarrow> None
      | f # _ \<Rightarrow> Some (projl (should_ignore_py f ignore)))"
proof (induction files arbitrary: st)
  case Nil
  then show ?case by simp
next
  case (Cons f files)
  show ?case
  proof (cases "should_ignore_py f ignore")
    case (Inl e)
    then show ?thesis by simp
  next
    case (Inr b)
    with Cons.IH [of "ignore_step env ignore st f"] show ?thesis
      by (cases b) (simp_all add: ignore_step_def)
  qed
qed

lemma any_startswith_chars:
  "any_startswith p (map (\<lambda>c. JStr [c]) s) = Inr (p \<noteq> [] \<and> hd p \<in> set s)"
  by (induction s) (auto simp: prefix_def neq_Nil_conv)

text \<open>C34: an \<open>ignore\<close> value that is a string rather than a list (YAML
  \<open>ignore: node_modules\<close>) is iterated by characters, so the ignore test
  skips exactly the files whose path begins with one of its characters:
  \<open>node_modules\<close> skips every path starting with \<open>n o d e _ m u l s\<close>,
  \<open>src/\<close> among them, and skips \<open>node_modules/\<close> only because it
  begins with \<open>n\<close>.\<close>

theorem should_ignore_py_string:
  "should_ignore_py p (JStr s) = Inr (p \<noteq> [] \<and> hd p \<in> set s)"
  by (simp add: should_ignore_py_def any_startswith_chars)

end
