(* ===== verification/Spec2Isabelle.thy ===== *)
theory Spec2Isabelle
  imports GraphProperties GraphTermination LmStudio ZedProxy IndexerMain
begin

text \<open>
  \<^bold>\<open>A verification library for rag-assistant.\<close>

  The repository has three source files.

  \<^item> \<open>src/indexer/index_codebase.py\<close>: a batch job.  It walks a TypeScript
    project, embeds every \<open>*.ts\<close>/\<open>*.tsx\<close> file with an HTTP embedding
    service, and upserts one Qdrant point per file into the collection
    \<open>codebase\<close>.  The payload of a point is the file's path and text.
  \<^item> \<open>src/indexer/graph_utils.py\<close>: \<open>load_dependency_graph\<close> reads
    \<open>dependency_graph.json\<close> and normalises its keys and values with
    \<open>Path.as_posix\<close>.  \<open>get_related_files\<close> is a breadth-first search from
    a file to a bounded depth.
  \<^item> \<open>src/rag_api/main.py\<close>: the FastAPI service.  \<open>rag_endpoint\<close> embeds the
    question and takes the 10 nearest points.  It expands the target file
    through the dependency graph, backfills the related files and the target
    from the store (\<open>_load_file_payload\<close>), deduplicates by path, builds a
    prompt, and sends it to the chat model.  \<open>zed_proxy\<close> adapts an editor
    request to \<open>rag_endpoint\<close>.

  The indexer and the API interact through the Qdrant collection (the
  indexer writes points, the API reads them by similarity and by path) and
  through the embedding service, which both call, configured by the same
  environment variable \<open>LMSTUDIO_API\<close>.  The graph code is called by the
  API.

  \<^bold>\<open>Theories and the code they model.\<close>  Every definition that models code
  keeps the name of the Python function or variable it translates.  The
  manifest maps each of them to its lines.

  \<^item> \<open>Prelude\<close>: Python \<open>str.split\<close> and \<open>str.join\<close> (\<open>split_sep\<close>,
    \<open>join_sep\<close>), truthiness of optional strings (\<open>py_truthy\<close>), and shared
    list lemmas.  Strings are their UTF-8 byte lists, so equality, prefixes
    and the order \<open>sorted()\<close> uses are Python's.
  \<^item> \<open>PathNorm\<close>: \<open>as_posix\<close> is \<open>Path(p).as_posix()\<close> on POSIX.  It
    splits off the root (\<open>posixpath.splitroot\<close>), drops empty and \<open>.\<close>
    components, and joins the rest.
  \<^item> \<open>DependencyGraph\<close>: \<open>load_dependency_graph\<close>.  The JSON file is an
    input: missing, malformed, or the value \<open>json.load\<close> decodes
    (\<open>GraphValue\<close>), with the well-typed object, the items of
    \<open>raw_graph.items()\<close>, as the case \<open>GraphJson\<close> the traversal theorems
    are stated on.  On a decoded value the loop \<open>normalize_json\<close> raises
    \<open>AttributeError\<close> for a top level that is not an object and
    \<open>TypeError\<close> for a value that is not an iterable of strings
    (\<open>graph_values\<close>).  The normalised dict is an association list updated
    in place (\<open>AList.update\<close>), and \<open>graph_get\<close> is
    \<open>graph.get(k, [])\<close>.
  \<^item> \<open>GraphTraversal\<close>: \<open>get_related_files\<close>.
    \<^item> The loop state \<open>bfs_state\<close> is the record of \<open>visited\<close>, the deque
      \<open>queue\<close> and \<open>result\<close>.
    \<^item> \<open>bfs_loop\<close> is the \<open>while queue\<close> loop.  It is a \<open>function\<close> whose
      termination is proved by the measure (unvisited graph nodes, queue
      length).
    \<^item> \<open>scan_neighbours\<close> is the inner \<open>for\<close> loop over sorted neighbours.
  \<^item> \<open>GraphProperties\<close>: consequences of the traversal theorems for the
    graph file.  These cover invariance under reordering of neighbour
    lists, the error paths, the degenerate inputs and the spec's worked
    examples.
  \<^item> \<open>GraphTermination\<close>: \<open>bfs_fuel\<close>, the \<open>while queue\<close> loop with a
    step budget, and the normal form of the returned paths.
  \<^item> \<open>VectorStore\<close>: points with optional payloads.  \<open>load_file_payload\<close>
    is \<open>_load_file_payload\<close>: a scroll filtered by path with \<open>limit=1\<close>, in id
    order.  \<open>semantic_search\<close> is the search call with \<open>limit=10\<close>.  The
    similarity ranking is an input.
  \<^item> \<open>ContextAssembler\<close>: lines 70--97 of \<open>rag_endpoint\<close>.
    \<^item> The state \<open>ctx_state\<close> holds \<open>seen\<close> and the \<open>context\<close> list.
    \<^item> \<open>add_hit\<close>, \<open>add_related\<close> and \<open>add_target\<close> are its three loops,
      and \<open>assemble\<close> composes them.
    \<^item> \<open>context_spec\<close> is the abstract contract: the candidates in order,
      where the first entry per path wins.
  \<^item> \<open>PromptBuilder\<close>: the per-file blocks (\<open>context_part\<close>) and the prompt
    template (\<open>build_prompt\<close>), byte for byte.
  \<^item> \<open>HttpJson\<close>: JSON values as \<open>json.loads\<close> and \<open>yaml.safe_load\<close>
    return them, Python's subscript with \<open>KeyError\<close>, \<open>IndexError\<close> and
    \<open>TypeError\<close> and negative indices (\<open>json_sub\<close>, \<open>json_path\<close>),
    \<open>dict.get\<close>, the dict \<open>json.load\<close> builds (\<open>py_dict\<close>), iteration
    \<open>for x in v\<close> (\<open>py_iter\<close>), \<open>os.getenv\<close>, and an \<open>httpx\<close> POST with
    \<open>raise_for_status()\<close> and \<open>.json()\<close> (\<open>post_json\<close>).  The network
    is an input: a function from URL and payload to a response, or to
    \<open>None\<close> when none arrives.
  \<^item> \<open>RagApi\<close>: \<open>rag_endpoint\<close>.  The embedding service, the store, the
    graph file and the chat service are the fields of \<open>rag_env\<close>, its
    interface to the outside.  Every exception that escapes the handler is a
    value of \<open>rag_error\<close> in the \<open>Inl\<close> branch of the result.
  \<^item> \<open>LmStudio\<close>: the implementation of that interface by the HTTP calls
    of the code (\<open>embed_question\<close>, \<open>chat_completion\<close>,
    \<open>http_rag_env\<close>), and the indexer's \<open>get_embedding\<close>.
  \<^item> \<open>ZedProxy\<close>: \<open>zed_proxy\<close> on the JSON object of the request, with
    \<open>zed_error\<close> for its exceptions.
  \<^item> \<open>Indexer\<close>: lines 43--64 of \<open>index_codebase\<close> (\<open>index_files\<close>).
    \<^item> \<open>ensure_collection\<close> is lines 43--47: \<open>get_collections\<close> and, for
      a missing collection, \<open>recreate_collection\<close>.  Either call may raise
      (Qdrant unreachable, creation refused); the exception is outside the
      \<open>try\<close>, so \<open>index_files\<close> is then \<open>None\<close> and no file is read.
    \<^item> \<open>index_each\<close> is the loop over the files.
    \<^item> \<open>should_ignore\<close> is the ignore test on a list of strings.
    \<^item> \<open>index_file\<close> is one iteration, and \<open>index_body\<close> its
      \<open>try\<close>/\<open>except\<close>.  A failing file is appended to \<open>ix_log\<close>, as
      the handler prints it, and the loop continues.
    \<^item> The collection is an id-keyed association list, and upsert replaces
      the point with the same id.  \<open>store_points\<close> lists the points in id
      order, the order a Qdrant scroll returns.
    \<^item> File reads, the embedding service, Python's salted \<open>hash\<close>, whether
      Qdrant is reachable, whether the collection can be created and the
      store's acceptance of a point are the fields of \<open>index_env\<close>.
  \<^item> \<open>IndexerMain\<close>: \<open>index_codebase\<close> as a whole.  It reads
    \<open>project_path\<close> and \<open>ignore\<close> from the configuration value and runs
    the loop \<open>index_loop\<close>, in which the ignore test is evaluated as
    Python does (\<open>should_ignore_py\<close>).  Its exceptions end the run; they are
    the values of \<open>index_error\<close>.

  \<^bold>\<open>What the lemmas show.\<close>

  \<^item> Graph traversal:
    \<^item> \<open>get_related_files\<close> returns exactly the files other than the start
      that are reachable in at most \<open>depth\<close> hops of the normalised graph
      (an \<open>inductive\<close> reachability relation).
    \<^item> The loaded graph has the normalised keys of the file, each with the
      neighbours of the last item whose key normalises to it.  The loader
      fails on a decoded value exactly as Python does.
    \<^item> It never repeats a file.
    \<^item> The deque loop equals a level-by-level reference search.
    \<^item> The result depends only on the multisets of the neighbour lists.
    \<^item> The error paths are those of the code.
    \<^item> The loop ends within the number of graph files plus two iterations,
      and every returned path is normalised.
  \<^item> Context assembly refines \<open>context_spec\<close>.  Consequently the context
    has no duplicate paths and contains the target whenever the store has it.
  \<^item> The handler builds the prompt from that context and calls the chat
    model, and each failing service ends the handler with its own error.
  \<^item> The HTTP calls implement the abstract services exactly, and
    \<open>zed_proxy\<close> forwards requests and fails as Python does.
  \<^item> The indexer fails as a whole exactly when the collection step fails.
    Otherwise its loop never aborts on a failing file and logs exactly the
    failing files.  A file it stores is loaded back by its path with its
    text.  With a well-formed configuration the whole job is that loop, and
    otherwise it stops at the first exception of the ignore test.
  \<^item> The root theory below joins the two halves: a target file the indexer
    stored always reaches the prompt.

  The findings the theorems characterise:
  \<^item> ignore values that are not lists (iterated by characters), and ignore
    tests that raise and end the run;
  \<^item> graph values that are strings (iterated by characters);
  \<^item> ids from the salted \<open>hash\<close>, so re-indexing leaves stale points
    that a path lookup can return;
  \<^item> the two readings of \<open>LMSTUDIO_API\<close>;
  \<^item> a \<open>null\<close> editor context;
  \<^item> colliding graph keys, where the last item wins;
  \<^item> the unescaped prompt, in which a file text can impersonate a second
    file.

  \<^bold>\<open>Bounds and fuel.\<close>  The definitions need no fuel.
  \<^item> \<open>bfs_loop\<close> is proved to terminate on every graph, cyclic ones
    included.  Its fuelled copy \<open>bfs_fuel\<close> shows how long it runs.
    One unit of fuel per queue entry plus one is enough, and an entry is
    queued only for a newly visited graph file.  So the number of distinct
    files plus two suffices from the start state, and with that fuel the
    result equals that of \<open>bfs_loop\<close>.
  \<^item> All other loops are structural folds over finite lists.
  \<^item> The only numeric bound is the \<open>limit=10\<close> of the search, kept as
    \<open>take 10\<close>.
  \<^item> Python integers (\<open>depth\<close>, point ids, HTTP statuses) are unbounded
    \<open>int\<close>s, as in Python.  JSON numbers are exact decimals, because the
    code only passes them on.

  \<^bold>\<open>Not modelled.\<close>
  \<^item> The transport is not modelled: sockets, timeouts, async scheduling,
    FastAPI routing and the serialisation of JSON to bytes.  A POST is a
    function from URL and payload to a response, and a failed transport is
    \<open>None\<close>.
  \<^item> Pydantic is modelled only as the string checks of \<open>RagRequest\<close> and
    \<open>RagResponse\<close>.
  \<^item> Qdrant's similarity search is an external service, and its ranking is
    an input.  Its point-id and vector checks are the input
    \<open>ix_accepts\<close>.
  \<^item> YAML values other than JSON's (dates, binary, non-string keys) are
    not represented; the configuration and the graph file are JSON-shaped
    values.
  \<^item> Pure I/O is not modelled, and its results are inputs: reading and
    parsing \<open>config.yaml\<close> (\<open>load_config\<close>), \<open>rglob\<close>,
    \<open>load_dotenv\<close>, \<open>tqdm\<close> and \<open>print\<close>.
\<close>

section \<open>Properties across components\<close>

text \<open>C11: the file the user is editing reaches the chat model once the
  indexer has stored it: when a run of \<open>index_files\<close> created the
  collection and read, embedded and stored the normalised target path, and
  \<open>rag_endpoint\<close> queries that collection, the prompt holds a block for the
  target file.\<close>

theorem indexed_target_in_prompt:
  assumes "collection_name \<notin> ix_collections st"
    and "index_files ienv files ig st = Some st'"
    and "inj_on (ix_hash ienv) (set files)"
    and "as_posix (target_file req) \<in> set files"
    and "\<not> should_ignore (as_posix (target_file req)) ig"
    and "ix_read ienv (as_posix (target_file req)) = Some c"
    and "ix_embed ienv c = Some w"
    and "ix_accepts ienv (ix_hash ienv (as_posix (target_file req))) w"
    and "env_store env = Some (store_points st')"
    and "env_embed env embedding_model (question req) = Some v"
    and "get_related_files (env_graph env) (target_file req) (depth req) = Inr related"
  shows "\<exists>prompt t. rag_endpoint env req = chat_call env prompt \<and>
           sublist (context_part (as_posix (target_file req), t)) prompt"
  using rag_endpoint_target_prompt [OF assms(10,9,11)] index_files_load [OF assms(1-8)]
  by simp

theorem indexed_target_in_prompt_witness:
  "\<exists>prompt t.
     rag_endpoint (demo_env\<lparr>env_store := Some (store_points
         (the (index_files demo_index_env [''src/a.ts''] [''node_modules''] demo_index_state)))\<rparr>)
       \<lparr>question = ''q'', target_file = ''./src/a.ts'', depth = 0\<rparr> =
     chat_call demo_env prompt \<and> sublist (context_part (''src/a.ts'', t)) prompt"
proof -
  let ?st' = "the (index_files demo_index_env [''src/a.ts''] [''node_modules''] demo_index_state)"
  let ?env = "demo_env\<lparr>env_store := Some (store_points ?st')\<rparr>"
  let ?req = "\<lparr>question = ''q'', target_file = ''./src/a.ts'', depth = 0\<rparr>"
  have tgt: "as_posix (target_file ?req) = ''src/a.ts''"
    by (simp add: model_simps)
  have run: "index_files demo_index_env [''src/a.ts''] [''node_modules''] demo_index_state = Some ?st'"
    by (simp add: demo_index_env_def demo_index_state_def index_files_def ensure_collection_def)
  have "\<exists>prompt t. rag_endpoint ?env ?req = chat_call ?env prompt \<and>
          sublist (context_part (as_posix (target_file ?req), t)) prompt"
    by (rule indexed_target_in_prompt [where st = demo_index_state and ienv = demo_index_env
          and files = "[''src/a.ts'']" and ig = "[''node_modules'']" and c = "''text of src/a.ts''"
          and w = "replicate vector_size (1, 0)" and v = "[(1, 0)]" and related = "[]", OF _ run])
       (simp_all only: tgt, simp_all add: demo_index_env_def demo_index_state_def demo_env_def
          model_simps inj_on_def get_related_files_def)
  moreover have "chat_call ?env = chat_call demo_env"
    by (simp add: chat_call_def fun_eq_iff)
  ultimately show ?thesis using tgt by simp
qed

end
